theory Spec2Isabelle
  imports Complex_Main "HOL-Library.Word"
begin

unbundle bit_operations_syntax

section \<open>Boundary-representation mesh and sculpt session\<close>

text \<open>
  Pointers of the C code are element identifiers (natural numbers) into total stores;
  a NULL pointer is \<open>None\<close>.  Single and double precision numbers are idealised as
  real numbers throughout.
\<close>

type_synonym vec3 = "real \<times> real \<times> real"
type_synonym vec2 = "real \<times> real"

record bm_edge =
  e_v1 :: nat
  e_v2 :: nat
  v1_disk_prev :: nat
  v1_disk_next :: nat
  v2_disk_prev :: nat
  v2_disk_next :: nat
  e_seam :: bool

text \<open>
  A loop (face corner) with its vertex, edge, face, ring links and the \<open>MLoopUV\<close>
  coordinates of its custom-data block; \<open>e_seam\<close> above is the \<open>BM_ELEM_SEAM\<close> bit.
\<close>

record bm_loop =
  l_v :: nat
  l_e :: nat
  l_f :: nat
  l_next :: nat
  l_prev :: nat
  l_uv :: vec2

record bm_face =
  f_l_first :: nat

record bm_vert =
  v_co :: vec3
  v_e :: "nat option"

record bmesh =
  bm_verts :: "nat \<Rightarrow> bm_vert"
  bm_edges :: "nat \<Rightarrow> bm_edge"
  bm_loops :: "nat \<Rightarrow> bm_loop"
  bm_faces :: "nat \<Rightarrow> bm_face"

text \<open>
  The part of \<open>SculptSession\<close> used by the disk-cycle code: the mesh and, per vertex,
  the \<open>flag\<close> field of its \<open>MDynTopoVert\<close> block, a machine word (reached in C through
  \<open>BKE_PBVH_DYNVERT(ss->cd_dyn_vert, v)\<close>, a custom-data block that is not part of the
  mesh topology).
\<close>

record 'f disk_session =
  ss_bm :: bmesh
  mv_flag :: "nat \<Rightarrow> 'f"

subsection \<open>\<open>SCULPT_dyntopo_check_disk_sort\<close>\<close>

text \<open>
  The flag bit \<open>DYNVERT_NEED_DISK_SORT\<close> and the library routine \<open>BM_sort_disk_cycle\<close>
  are declared outside this file; both are parameters.  The routine works on the mesh
  topology only.  The result pairs the returned boolean with the session after the call.
\<close>

definition SCULPT_dyntopo_check_disk_sort ::
  "'w::len word \<Rightarrow> (bmesh \<Rightarrow> nat \<Rightarrow> bmesh) \<Rightarrow> 'w word disk_session \<Rightarrow> nat
     \<Rightarrow> bool \<times> 'w word disk_session"
where
  "SCULPT_dyntopo_check_disk_sort DYNVERT_NEED_DISK_SORT BM_sort_disk_cycle ss v =
     (if mv_flag ss v AND DYNVERT_NEED_DISK_SORT \<noteq> 0 then
        (let ss1 = ss\<lparr>mv_flag := (mv_flag ss)(v := mv_flag ss v AND NOT DYNVERT_NEED_DISK_SORT)\<rparr>;
             ss2 = ss1\<lparr>ss_bm := BM_sort_disk_cycle (ss_bm ss1) v\<rparr>
         in (True, ss2))
      else (False, ss))"

section \<open>Vector arithmetic\<close>

text \<open>
  Modelled from the spec: the vector routines of the math library (\<open>BLI_math\<close>), which
  the sculpt code calls and whose source is not part of this development.  They are the
  textbook operations on real vectors: difference, dot and cross product, length,
  normalisation (the zero vector stays zero), the arc cosine clamped to \<open>[-1, 1]\<close>,
  the "naive" triangle area (half the length of the cross product of two sides), the three
  interior angles of a triangle, and the cotangent of the angle at the first corner of a
  triangle (zero for a degenerate triangle, with the library's threshold \<open>FLT_EPSILON\<close>).
\<close>

fun sub_v3_v3v3 :: "vec3 \<Rightarrow> vec3 \<Rightarrow> vec3" where
  "sub_v3_v3v3 (a0, a1, a2) (b0, b1, b2) = (a0 - b0, a1 - b1, a2 - b2)"

fun dot_v3v3 :: "vec3 \<Rightarrow> vec3 \<Rightarrow> real" where
  "dot_v3v3 (a0, a1, a2) (b0, b1, b2) = a0 * b0 + a1 * b1 + a2 * b2"

fun cross_v3_v3v3 :: "vec3 \<Rightarrow> vec3 \<Rightarrow> vec3" where
  "cross_v3_v3v3 (a0, a1, a2) (b0, b1, b2) =
     (a1 * b2 - a2 * b1, a2 * b0 - a0 * b2, a0 * b1 - a1 * b0)"

definition len_v3 :: "vec3 \<Rightarrow> real" where
  "len_v3 a = sqrt (dot_v3v3 a a)"

fun mul_v3_fl :: "vec3 \<Rightarrow> real \<Rightarrow> vec3" where
  "mul_v3_fl (a0, a1, a2) f = (a0 * f, a1 * f, a2 * f)"

definition normalize_v3 :: "vec3 \<Rightarrow> vec3" where
  "normalize_v3 a = (if len_v3 a = 0 then (0, 0, 0) else mul_v3_fl a (1 / len_v3 a))"

definition saacos :: "real \<Rightarrow> real" where
  "saacos fac = (if fac \<le> -1 then pi else if fac \<ge> 1 then 0 else arccos fac)"

definition area_tri_v3 :: "vec3 \<Rightarrow> vec3 \<Rightarrow> vec3 \<Rightarrow> real" where
  "area_tri_v3 v1 v2 v3 = len_v3 (cross_v3_v3v3 (sub_v3_v3v3 v1 v2) (sub_v3_v3v3 v2 v3)) / 2"

definition angle_v3v3v3 :: "vec3 \<Rightarrow> vec3 \<Rightarrow> vec3 \<Rightarrow> real" where
  \<comment> \<open>the angle at \<open>b\<close> between the sides towards \<open>a\<close> and \<open>c\<close>\<close>
  "angle_v3v3v3 a b c =
     saacos (dot_v3v3 (normalize_v3 (sub_v3_v3v3 a b)) (normalize_v3 (sub_v3_v3v3 c b)))"

definition angle_tri_v3 :: "vec3 \<Rightarrow> vec3 \<Rightarrow> vec3 \<Rightarrow> real \<times> real \<times> real" where
  "angle_tri_v3 v1 v2 v3 = (angle_v3v3v3 v3 v1 v2, angle_v3v3v3 v1 v2 v3, angle_v3v3v3 v2 v3 v1)"

definition FLT_EPSILON :: real where
  "FLT_EPSILON = 1 / 2 ^ 23"

definition cotangent_tri_weight_v3 :: "vec3 \<Rightarrow> vec3 \<Rightarrow> vec3 \<Rightarrow> real" where
  "cotangent_tri_weight_v3 v1 v2 v3 =
     (let a = sub_v3_v3v3 v2 v1;
          b = sub_v3_v3v3 v3 v1;
          c_len = len_v3 (cross_v3_v3v3 a b)
      in if c_len > FLT_EPSILON then dot_v3v3 a b / c_len else 0)"

fun sub_v2_v2v2_db :: "vec2 \<Rightarrow> vec2 \<Rightarrow> vec2" where
  "sub_v2_v2v2_db (a0, a1) (b0, b1) = (a0 - b0, a1 - b1)"

fun dot_v2v2_db :: "vec2 \<Rightarrow> vec2 \<Rightarrow> real" where
  "dot_v2v2_db (a0, a1) (b0, b1) = a0 * b0 + a1 * b1"

section \<open>UV relaxation solver\<close>

definition MAXUVLOOPS :: nat where
  "MAXUVLOOPS = 32"

definition MAXUVNEIGHBORS :: nat where
  "MAXUVNEIGHBORS = 32"

text \<open>
  A solver vertex.  The arrays \<open>ls\<close> and \<open>neighbors\<close> with their counts \<open>totloop\<close> and
  \<open>totneighbor\<close> are lists: the list holds the entries written so far and its length is
  the count.  Solver vertices, triangles and constraints live in memory pools that are
  only ever appended to and are iterated in allocation order; the pools are lists and
  a pointer into a pool is an index.
\<close>

record UVSmoothVert =
  sv_uv :: vec2
  sv_co :: vec3
  sv_v :: nat
  sv_pinned :: bool
  sv_boundary :: bool
  sv_ls :: "nat list"
  sv_neighbors :: "nat list"

record UVSmoothTri =
  tri_vs :: "nat list"
  tri_area2d :: real
  tri_area3d :: real

datatype con_type = CON_ANGLES | CON_AREA

definition CON_MAX_VERTS :: nat where
  "CON_MAX_VERTS = 16"

record UVSmoothConstraint =
  con_type :: con_type
  con_k :: real
  con_vs :: "nat list"
  con_tri :: "nat option"
  con_gs :: "vec2 list"
  con_params0 :: real

record UVSolver =
  verts :: "UVSmoothVert list"
  tris :: "UVSmoothTri list"
  constraints :: "UVSmoothConstraint list"
  snap_limit :: real
  vhash :: "64 word \<rightharpoonup> nat"
  fhash :: "nat \<rightharpoonup> nat"
  totarea3d :: real
  totarea2d :: real
  strength :: real

definition uvsolver_new :: UVSolver where
  "uvsolver_new = \<lparr>verts = [], tris = [], constraints = [], snap_limit = 0.0025,
                    vhash = Map.empty, fhash = Map.empty,
                    totarea3d = 0, totarea2d = 0, strength = 1\<rparr>"

text \<open>
  The cast of a number to \<open>intptr_t\<close> truncates towards zero.  The key is computed in
  \<open>intptr_t\<close>, a signed integer of 64 bits: the product and the sum wrap around, and so
  does the model of the cast for a number outside the range of \<open>intptr_t\<close> (where C
  leaves the cast undefined).
\<close>

definition trunc_int :: "real \<Rightarrow> int" where
  "trunc_int x = (if x \<ge> 0 then \<lfloor>x\<rfloor> else \<lceil>x\<rceil>)"

definition uvsolver_calc_loop_key :: "vec2 \<Rightarrow> 64 word" where
  "uvsolver_calc_loop_key uv =
     (let x = (word_of_int (trunc_int (fst uv * 16384)) :: 64 word);
          y = (word_of_int (trunc_int (snd uv * 16384)) :: 64 word)
      in y * 16384 + x)"

definition uvsolver_get_vert :: "bmesh \<Rightarrow> UVSolver \<Rightarrow> nat \<Rightarrow> nat \<times> UVSolver" where
  "uvsolver_get_vert bm solver l =
     (let uv = l_uv (bm_loops bm l);
          pkey = uvsolver_calc_loop_key uv;
          (vi, solver1) =
            (case vhash solver pkey of
               Some i \<Rightarrow> (i, solver)
             | None \<Rightarrow>
                 (length (verts solver),
                  solver\<lparr>verts := verts solver @
                           [\<lparr>sv_uv = uv, sv_co = v_co (bm_verts bm (l_v (bm_loops bm l))),
                             sv_v = l_v (bm_loops bm l), sv_pinned = False, sv_boundary = False,
                             sv_ls = [], sv_neighbors = []\<rparr>],
                         vhash := (vhash solver)(pkey \<mapsto> length (verts solver))\<rparr>));
          v = verts solver1 ! vi
      in if length (sv_ls v) < MAXUVLOOPS
         then (vi, solver1\<lparr>verts := (verts solver1)[vi := v\<lparr>sv_ls := sv_ls v @ [l]\<rparr>]\<rparr>)
         else (vi, solver1))"

definition area_tri_signed_v2_db :: "vec2 \<Rightarrow> vec2 \<Rightarrow> vec2 \<Rightarrow> real" where
  "area_tri_signed_v2_db v1 v2 v3 =
     0.5 * ((fst v1 - fst v2) * (snd v2 - snd v3) + (snd v1 - snd v2) * (fst v3 - fst v2))"

definition area_tri_v2_db :: "vec2 \<Rightarrow> vec2 \<Rightarrow> vec2 \<Rightarrow> real" where
  "area_tri_v2_db v1 v2 v3 = \<bar>area_tri_signed_v2_db v1 v2 v3\<bar>"

subsection \<open>\<open>uvsolver_ensure_face\<close>\<close>

text \<open>
  The array \<open>vs\<close> of a triangle has three slots.  A store \<open>tri->vs[i] = sv\<close> with
  \<open>i \<ge> 3\<close> lies outside the array; C leaves the behaviour of the program undefined from
  there on, and the model stops with \<open>Out_of_bounds_store\<close>.
\<close>

datatype uv_error = Null_dereference | Out_of_bounds_store

text \<open>
  The walk over the corners of the face, in the order of the source: the solver vertex of
  the corner is fetched, the seam flag of the corner's edge is tested, the vertex is
  stored at \<open>tri->vs[i]\<close>, and only then \<open>i\<close> is compared with 3.  The list \<open>vs\<close>
  collects the vertices in the order they are stored.  The store comes before the
  test \<open>i > 3\<close>, so the test is never reached with \<open>i > 3\<close> by a walk that stayed
  inside the array.
\<close>

function face_corner_walk ::
  "bmesh \<Rightarrow> nat \<Rightarrow> UVSolver \<Rightarrow> nat \<Rightarrow> nat \<Rightarrow> bool \<Rightarrow> nat list
   \<Rightarrow> uv_error + (UVSolver \<times> bool \<times> nat list)"
where
  "face_corner_walk bm l_first solver l i nocon vs =
     (let (sv, solver1) = uvsolver_get_vert bm solver l;
          nocon1 = (nocon \<or> e_seam (bm_edges bm (l_e (bm_loops bm l))))
      in if i \<ge> 3 then Inl Out_of_bounds_store
         else
           (let vs1 = vs @ [sv]
            in if i > 3 then Inr (solver1, nocon1, vs1)
               else if l_next (bm_loops bm l) \<noteq> l_first
                    then face_corner_walk bm l_first solver1 (l_next (bm_loops bm l)) (i + 1)
                           nocon1 vs1
                    else Inr (solver1, nocon1, vs1)))"
  by pat_completeness auto
termination
  by (relation "measure (\<lambda>(bm, l_first, solver, l, i, nocon, vs). 3 - i)") auto

declare face_corner_walk.simps [simp del]

fun uv_add :: "nat \<Rightarrow> real \<Rightarrow> vec2 \<Rightarrow> vec2" where
  "uv_add j d (u, v) = (if j = 0 then (u + d, v) else (u, v + d))"

fun uv_set :: "nat \<Rightarrow> real \<Rightarrow> vec2 \<Rightarrow> vec2" where
  "uv_set j x (u, v) = (if j = 0 then (x, v) else (u, x))"

fun uv_get :: "nat \<Rightarrow> vec2 \<Rightarrow> real" where
  "uv_get j (u, v) = (if j = 0 then u else v)"

definition vert_uv_add :: "nat \<Rightarrow> nat \<Rightarrow> real \<Rightarrow> UVSmoothVert list \<Rightarrow> UVSmoothVert list" where
  \<comment> \<open>\<open>sv->uv[j] += d\<close> for the solver vertex \<open>sv\<close>\<close>
  "vert_uv_add sv j d vl = vl[sv := (vl ! sv)\<lparr>sv_uv := uv_add j d (sv_uv (vl ! sv))\<rparr>]"

definition add_corner_constraints :: "nat \<Rightarrow> nat list \<Rightarrow> nat \<Rightarrow> UVSolver \<Rightarrow> UVSolver" where
  "add_corner_constraints tri vs i solver =
     (let v0 = vs ! ((i + 2) mod 3);
          v1 = vs ! i;
          v2 = vs ! ((i + 1) mod 3);
          t1 = normalize_v3 (sub_v3_v3v3 (sv_co (verts solver ! v0)) (sv_co (verts solver ! v1)));
          t2 = normalize_v3 (sub_v3_v3v3 (sv_co (verts solver ! v2)) (sv_co (verts solver ! v1)));
          th3d = saacos (dot_v3v3 t1 t2);
          con_angle = \<lparr>con_type = CON_ANGLES, con_k = 0.5, con_vs = [v0, v1, v2], con_tri = None,
                       con_gs = replicate CON_MAX_VERTS (0, 0), con_params0 = th3d\<rparr>;
          con_area = \<lparr>con_type = CON_AREA, con_k = 1, con_vs = [v0, v1, v2], con_tri = Some tri,
                      con_gs = replicate CON_MAX_VERTS (0, 0), con_params0 = 0\<rparr>
      in solver\<lparr>constraints := constraints solver @ [con_angle, con_area]\<rparr>)"

text \<open>
  Linking the two ends of a triangle side as neighbours.  The two stores follow each
  other as in C, the second one reading the vertex list left by the first.  The table
  \<open>neighbors\<close> of a vertex has \<open>MAXUVNEIGHBORS\<close> slots and the model keeps it as a list:
  a list longer than \<open>MAXUVNEIGHBORS\<close> stands for a store behind the last slot of the
  table.
\<close>

definition add_side_neighbors :: "nat list \<Rightarrow> nat \<Rightarrow> UVSolver \<Rightarrow> UVSolver" where
  "add_side_neighbors vs i solver =
     (let v1 = vs ! i;
          v2 = vs ! ((i + 1) mod 3);
          vl = verts solver;
          ok = (v2 \<notin> set (sv_neighbors (vl ! v1)));
          ok1 = (ok \<and> length (sv_neighbors (vl ! v1)) < MAXUVNEIGHBORS
                    \<and> length (sv_neighbors (vl ! v2)) < MAXUVNEIGHBORS)
      in if \<not> ok1 then solver
         else
           (let vl1 = vl[v1 := (vl ! v1)\<lparr>sv_neighbors := sv_neighbors (vl ! v1) @ [v2]\<rparr>];
                vl2 = vl1[v2 := (vl1 ! v2)\<lparr>sv_neighbors := sv_neighbors (vl1 ! v2) @ [v1]\<rparr>]
            in solver\<lparr>verts := vl2\<rparr>))"

text \<open>
  The face setup.  The triangle is zeroed when it is allocated, so a slot of \<open>vs\<close> that
  the walk did not fill is NULL, and reading the coordinates through it is the error
  \<open>Null_dereference\<close>.
\<close>

definition uvsolver_ensure_face :: "bmesh \<Rightarrow> UVSolver \<Rightarrow> nat \<Rightarrow> uv_error + (nat \<times> UVSolver)" where
  "uvsolver_ensure_face bm solver f =
     (case fhash solver f of
        Some t \<Rightarrow> Inr (t, solver)
      | None \<Rightarrow>
          (let tri = length (tris solver);
               solver0 = solver\<lparr>tris := tris solver @ [\<lparr>tri_vs = [], tri_area2d = 0, tri_area3d = 0\<rparr>],
                                fhash := (fhash solver)(f \<mapsto> tri)\<rparr>;
               l = f_l_first (bm_faces bm f)
           in case face_corner_walk bm l solver0 l 0 False [] of
                Inl e \<Rightarrow> Inl e
              | Inr (solver1, nocon, vs) \<Rightarrow>
                  if length vs < 3 then Inl Null_dereference
                  else
                    (let vl = verts solver1;
                         area3d = area_tri_v3 (sv_co (vl ! (vs ! 0))) (sv_co (vl ! (vs ! 1)))
                                    (sv_co (vl ! (vs ! 2)));
                         area2d = area_tri_v2_db (sv_uv (vl ! (vs ! 0))) (sv_uv (vl ! (vs ! 1)))
                                    (sv_uv (vl ! (vs ! 2)));
                         vl1 = (if area2d < 0.000001
                                then vert_uv_add (vs ! 2) 1 0.0001
                                       (vert_uv_add (vs ! 1) 0 0.0001
                                         (vert_uv_add (vs ! 0) 1 (- 0.0001)
                                           (vert_uv_add (vs ! 0) 0 (- 0.0001) vl)))
                                else vl);
                         solver2 = solver1\<lparr>verts := vl1,
                                     totarea2d := totarea2d solver1 + area2d,
                                     totarea3d := totarea3d solver1 + area3d,
                                     tris := (tris solver1)[tri := \<lparr>tri_vs = vs, tri_area2d = area2d,
                                                                    tri_area3d = area3d\<rparr>]\<rparr>;
                         solver3 = (if nocon then solver2
                                    else fold (add_corner_constraints tri vs) [0, 1, 2] solver2);
                         solver4 = fold (add_side_neighbors vs) [0, 1, 2] solver3
                     in Inr (tri, solver4))))"

subsection \<open>Constraint evaluation\<close>

definition normalize_v2_db :: "vec2 \<Rightarrow> vec2" where
  \<comment> \<open>the vector after the call; the returned length is not used by any caller\<close>
  "normalize_v2_db v =
     (let len = fst v * fst v + snd v * snd v
      in if len < 0.0000001 then (0, 0)
         else (let mul = 1 / sqrt len in (fst v * mul, snd v * mul)))"

text \<open>
  Evaluating an area constraint stores the current signed area in its triangle, so the
  solver is returned with the residual.  An area constraint is only ever built with its
  triangle; for one without (a NULL dereference in C) the model returns residual 0.
\<close>

definition uvsolver_eval_constraint :: "UVSolver \<Rightarrow> UVSmoothConstraint \<Rightarrow> real \<times> UVSolver" where
  "uvsolver_eval_constraint solver con =
     (let v0 = verts solver ! (con_vs con ! 0);
          v1 = verts solver ! (con_vs con ! 1);
          v2 = verts solver ! (con_vs con ! 2)
      in case con_type con of
           CON_ANGLES \<Rightarrow>
             (let t1 = normalize_v2_db (sub_v2_v2v2_db (sv_uv v0) (sv_uv v1));
                  t2 = normalize_v2_db (sub_v2_v2v2_db (sv_uv v2) (sv_uv v1));
                  th = saacos (dot_v2v2_db t1 t2);
                  wind = fst t1 * snd t2 - snd t1 * fst t2;
                  th1 = (if wind \<ge> 0 then pi - th else th)
              in (th1 - con_params0 con, solver))
         | CON_AREA \<Rightarrow>
             (case con_tri con of
                None \<Rightarrow> (0, solver)
              | Some t \<Rightarrow>
                  if tri_area3d (tris solver ! t) = 0 \<or> totarea3d solver = 0 then (0, solver)
                  else
                    (let area2d = area_tri_signed_v2_db (sv_uv v0) (sv_uv v1) (sv_uv v2);
                         goal = tri_area3d (tris solver ! t) * totarea2d solver / totarea3d solver
                     in ((area2d - goal) * 1024,
                         solver\<lparr>tris := (tris solver)[t := (tris solver ! t)\<lparr>tri_area2d := area2d\<rparr>]\<rparr>))))"

definition uvsolver_vert_weight :: "UVSmoothVert \<Rightarrow> real" where
  "uvsolver_vert_weight sv = (if sv_pinned sv \<or> sv_boundary sv then 100000 else 1)"

subsection \<open>\<open>uvsolver_simple_relax\<close>\<close>

text \<open>
  One turn of the first loop, for the solver vertex with index \<open>i\<close>: the vertices are
  updated in place, so later turns read the coordinates left by earlier ones.
\<close>

definition relax_vert :: "real \<Rightarrow> UVSmoothVert list \<Rightarrow> nat \<Rightarrow> UVSmoothVert list" where
  "relax_vert str vl i =
     (let sv1 = vl ! i
      in if sv_neighbors sv1 = [] \<or> sv_pinned sv1 then vl
         else
           (let (uv, tot) =
                  fold (\<lambda>n (uv, tot).
                          let sv2 = vl ! n
                          in if sv_boundary sv1 \<and> \<not> sv_boundary sv2 then (uv, tot)
                             else ((fst uv + fst (sv_uv sv2), snd uv + snd (sv_uv sv2)), tot + 1))
                       (sv_neighbors sv1) ((0, 0), 0 :: real)
            in if tot < 2 then vl
               else
                 (let avg = (fst uv / tot, snd uv / tot)
                  in vl[i := sv1\<lparr>sv_uv := (fst (sv_uv sv1) + (fst avg - fst (sv_uv sv1)) * str,
                                             snd (sv_uv sv1) + (snd avg - snd (sv_uv sv1)) * str)\<rparr>])))"

text \<open>
  The write-back "update real uvs": every loop stored with a solver vertex receives the
  vertex's coordinates.
\<close>

definition write_loop_uv :: "vec2 \<Rightarrow> nat \<Rightarrow> bmesh \<Rightarrow> bmesh" where
  "write_loop_uv uv l bm = bm\<lparr>bm_loops := (bm_loops bm)(l := (bm_loops bm l)\<lparr>l_uv := uv\<rparr>)\<rparr>"

definition update_real_uvs :: "UVSolver \<Rightarrow> bmesh \<Rightarrow> bmesh" where
  "update_real_uvs solver bm =
     fold (\<lambda>sv bm1. fold (write_loop_uv (sv_uv sv)) (sv_ls sv) bm1) (verts solver) bm"

definition uvsolver_simple_relax :: "UVSolver \<Rightarrow> bmesh \<Rightarrow> real \<Rightarrow> UVSolver \<times> bmesh" where
  "uvsolver_simple_relax solver bm str =
     (let solver1 = solver\<lparr>verts := fold (\<lambda>i vl. relax_vert str vl i) [0..<length (verts solver)]
                                        (verts solver)\<rparr>
      in (solver1, update_real_uvs solver1 bm))"

subsection \<open>\<open>uvsolver_solve_step\<close>\<close>

definition eval_limit :: real where
  "eval_limit = 0.00001"

definition df :: real where
  "df = 0.0001"

text \<open>
  The finite-difference gradient of one constraint: for every vertex \<open>i\<close> of the
  constraint and both coordinates \<open>j\<close>, perturb, evaluate again, restore.  The state is
  the solver, the gradient table \<open>gs\<close> of the constraint, \<open>totg\<close> and \<open>totw\<close>.
\<close>

definition gradient_coord ::
  "UVSmoothConstraint \<Rightarrow> real \<Rightarrow> nat \<Rightarrow> nat \<Rightarrow> UVSolver \<times> vec2 list \<times> real \<times> real
     \<Rightarrow> UVSolver \<times> vec2 list \<times> real \<times> real"
where
  "gradient_coord con r1 i j st =
     (let (solver, gs, totg, totw) = st;
          sv = con_vs con ! i;
          orig = uv_get j (sv_uv (verts solver ! sv));
          solver1 = solver\<lparr>verts := vert_uv_add sv j df (verts solver)\<rparr>;
          (r2, solver2) = uvsolver_eval_constraint solver1 con;
          g = (r2 - r1) / df;
          gs1 = gs[i := uv_set j g (gs ! i)];
          solver3 = solver2\<lparr>verts := (verts solver2)[sv := (verts solver2 ! sv)
                                         \<lparr>sv_uv := uv_set j orig (sv_uv (verts solver2 ! sv))\<rparr>]\<rparr>
      in (solver3, gs1, totg + g * g,
          totw + 1 / uvsolver_vert_weight (verts solver3 ! sv)))"

definition constraint_gradient ::
  "UVSolver \<Rightarrow> UVSmoothConstraint \<Rightarrow> real \<Rightarrow> UVSolver \<times> vec2 list \<times> real \<times> real"
where
  "constraint_gradient solver con r1 =
     fold (\<lambda>i st. fold (gradient_coord con r1 i) [0, 1] st) [0..<length (con_vs con)]
          (solver, con_gs con, 0, 0)"

definition apply_correction ::
  "UVSmoothConstraint \<Rightarrow> vec2 list \<Rightarrow> real \<Rightarrow> real \<Rightarrow> UVSmoothVert list \<Rightarrow> UVSmoothVert list"
where
  "apply_correction con gs r1 totw vl =
     fold (\<lambda>i vl1.
             let sv = con_vs con ! i;
                 w = 1 / (uvsolver_vert_weight (vl1 ! sv) * totw)
             in fold (\<lambda>j vl2. vert_uv_add sv j (r1 * uv_get j (gs ! i) * w) vl2) [0, 1] vl1)
          [0..<length (con_vs con)] vl"

text \<open>
  The state of the loop over the constraints.  Next to the solver, \<open>error\<close> and \<open>totcon\<close>
  it keeps \<open>divisors\<close>, a record of every value of \<open>totg\<close> by which the statement
  \<open>r1 *= -solver->strength * 0.75 * con->k / totg\<close> has divided so far; the code has no
  such variable, it is kept to state which divisions take place.
\<close>

record step_state =
  st_solver :: UVSolver
  st_error :: real
  st_totcon :: nat
  st_divisors :: "real list"

definition solve_constraint :: "nat \<Rightarrow> step_state \<Rightarrow> step_state" where
  "solve_constraint c st =
     (let con = constraints (st_solver st) ! c;
          (r1, solver1) = uvsolver_eval_constraint (st_solver st) con
      in if \<bar>r1\<bar> < eval_limit
         then st\<lparr>st_solver := solver1, st_totcon := st_totcon st + 1\<rparr>
         else
           (let (solver2, gs, totg, totw) = constraint_gradient solver1 con r1;
                solver3 = solver2\<lparr>constraints := (constraints solver2)[c := con\<lparr>con_gs := gs\<rparr>]\<rparr>;
                st1 = st\<lparr>st_solver := solver3, st_error := st_error st + \<bar>r1\<bar>,
                         st_totcon := st_totcon st + 1\<rparr>
            in if totg < eval_limit then st1
               else
                 (let r1' = r1 * (- strength solver3 * 0.75 * con_k con / totg)
                  in st1\<lparr>st_solver := solver3\<lparr>verts := apply_correction con gs r1' totw
                                                           (verts solver3)\<rparr>,
                          st_divisors := st_divisors st1 @ [totg]\<rparr>)))"

definition solve_constraints :: "UVSolver \<Rightarrow> step_state" where
  "solve_constraints solver =
     fold solve_constraint [0..<length (constraints solver)]
       \<lparr>st_solver = solver, st_error = 0, st_totcon = 0, st_divisors = []\<rparr>"

text \<open>
  The result is the returned number, the solver and the mesh after the step.  When the
  solver has no constraints the C code returns \<open>0.0 / 0.0\<close>; the division of the model
  gives 0 there.
\<close>

definition uvsolver_solve_step :: "UVSolver \<Rightarrow> bmesh \<Rightarrow> real \<times> UVSolver \<times> bmesh" where
  "uvsolver_solve_step solver bm =
     (if strength solver < 0
      then (let (solver1, bm1) = uvsolver_simple_relax solver bm \<bar>strength solver\<bar>
            in (0, solver1, bm1))
      else
        (let (solver1, bm1) = uvsolver_simple_relax solver bm (strength solver * 0.1);
             st = solve_constraints solver1;
             bm2 = update_real_uvs (st_solver st) bm1
         in (st_error st / real (st_totcon st), st_solver st, bm2)))"

section \<open>Custom-data layers\<close>

text \<open>
  The numbers of the custom-data types, the count \<open>CD_NUMTYPES\<close> and the size of an
  element of each type come from headers and a table outside this development; they are
  the fields of one parameter \<open>K\<close>.
\<close>

record cd_consts =
  CD_NUMTYPES :: nat
  CD_MVERT :: nat
  CD_MEDGE :: nat
  CD_MFACE :: nat
  CD_MLOOP :: nat
  CD_MPOLY :: nat
  CD_ORIGINDEX :: nat
  CD_PAINT_MASK :: nat
  CD_DYNTOPO_VERT :: nat
  CD_PROP_INT32 :: nat
  CD_PROP_FLOAT :: nat
  CD_PROP_COLOR :: nat
  CD_SCULPT_FACE_SETS :: nat
  cd_sizeof :: "nat \<Rightarrow> nat"

text \<open>
  A layer with its type, name, the \<open>CD_FLAG_TEMPORARY\<close> bit of its flag and its byte
  offset into the element block; a \<open>CustomData\<close> is the array of its layers.
\<close>

record CustomDataLayer =
  cdl_type :: nat
  cdl_name :: string
  cdl_temporary :: bool
  cdl_offset :: int

type_synonym CustomData = "CustomDataLayer list"

text \<open>
  Modelled from the spec: the custom-data library (\<open>CustomData_*\<close>, \<open>BM_data_layer_add_named\<close>,
  \<open>BM_data_layers_ensure\<close>), whose source is not part of this development.  A layer is
  looked up by type, or by type and name, and the lookup gives the index of the first such
  layer or \<open>-1\<close>; the offset lookup gives the cached byte offset of the layer or the
  sentinel \<open>-1\<close>; adding a layer places it behind the layers of its own and of smaller
  type and recomputes the offsets of all layers, each layer lying behind the ones before
  it; ensuring a list of layers adds those that are absent, recomputes the offsets when
  one was added, and sets the requested flag on each.
\<close>

primrec layer_index_from :: "(CustomDataLayer \<Rightarrow> bool) \<Rightarrow> CustomData \<Rightarrow> nat \<Rightarrow> int" where
  "layer_index_from P [] i = - 1"
| "layer_index_from P (l # ls) i = (if P l then int i else layer_index_from P ls (Suc i))"

definition CustomData_get_named_layer_index :: "CustomData \<Rightarrow> nat \<Rightarrow> string \<Rightarrow> int" where
  "CustomData_get_named_layer_index data type name =
     layer_index_from (\<lambda>l. cdl_type l = type \<and> cdl_name l = name) data 0"

definition CustomData_get_layer_index :: "CustomData \<Rightarrow> nat \<Rightarrow> int" where
  "CustomData_get_layer_index data type = layer_index_from (\<lambda>l. cdl_type l = type) data 0"

definition CustomData_has_layer :: "CustomData \<Rightarrow> nat \<Rightarrow> bool" where
  "CustomData_has_layer data type \<longleftrightarrow> CustomData_get_layer_index data type \<noteq> - 1"

definition CustomData_get_n_offset :: "CustomData \<Rightarrow> nat \<Rightarrow> int \<Rightarrow> int" where
  "CustomData_get_n_offset data type n =
     (let i = CustomData_get_layer_index data type
      in if i = - 1 then - 1
         else if 0 \<le> i + n \<and> i + n < int (length data) \<and> cdl_type (data ! nat (i + n)) = type
              then cdl_offset (data ! nat (i + n))
              else - 1)"

definition CustomData_get_offset :: "CustomData \<Rightarrow> nat \<Rightarrow> int" where
  "CustomData_get_offset data type = CustomData_get_n_offset data type 0"

definition CustomData_get_named_layer :: "CustomData \<Rightarrow> nat \<Rightarrow> string \<Rightarrow> int" where
  "CustomData_get_named_layer data type name =
     (let i = CustomData_get_named_layer_index data type name
      in if i = - 1 then - 1 else i - CustomData_get_layer_index data type)"

primrec offsets_from :: "(nat \<Rightarrow> nat) \<Rightarrow> CustomData \<Rightarrow> nat \<Rightarrow> CustomData" where
  "offsets_from sz [] off = []"
| "offsets_from sz (l # ls) off =
     l\<lparr>cdl_offset := int off\<rparr> # offsets_from sz ls (off + sz (cdl_type l))"

definition CustomData_update_offsets :: "cd_consts \<Rightarrow> CustomData \<Rightarrow> CustomData" where
  "CustomData_update_offsets K data = offsets_from (cd_sizeof K) data 0"

definition CustomData_add_layer_named :: "CustomData \<Rightarrow> nat \<Rightarrow> string \<Rightarrow> CustomData" where
  "CustomData_add_layer_named data type name =
     rev (dropWhile (\<lambda>l. type < cdl_type l) (rev data))
     @ [\<lparr>cdl_type = type, cdl_name = name, cdl_temporary = False, cdl_offset = 0\<rparr>]
     @ rev (takeWhile (\<lambda>l. type < cdl_type l) (rev data))"

definition BM_data_layer_add_named :: "cd_consts \<Rightarrow> CustomData \<Rightarrow> nat \<Rightarrow> string \<Rightarrow> CustomData" where
  "BM_data_layer_add_named K data type name =
     CustomData_update_offsets K (CustomData_add_layer_named data type name)"

text \<open>A requested layer \<open>{type, name, flag}\<close>; the name may be \<open>NULL\<close>.\<close>

record BMCustomLayerReq =
  req_type :: nat
  req_name :: "string option"
  req_temporary :: bool

definition req_layer_index :: "CustomData \<Rightarrow> BMCustomLayerReq \<Rightarrow> int" where
  "req_layer_index data req =
     (case req_name req of
        Some name \<Rightarrow> CustomData_get_named_layer_index data (req_type req) name
      | None \<Rightarrow> CustomData_get_layer_index data (req_type req))"

definition ensure_req_added :: "BMCustomLayerReq \<Rightarrow> CustomData \<Rightarrow> CustomData" where
  "ensure_req_added req data =
     (if req_layer_index data req < 0
      then CustomData_add_layer_named data (req_type req)
             (case req_name req of Some name \<Rightarrow> name | None \<Rightarrow> [])
      else data)"

definition ensure_req_flag :: "BMCustomLayerReq \<Rightarrow> CustomData \<Rightarrow> CustomData" where
  "ensure_req_flag req data =
     (let idx = req_layer_index data req
      in if 0 \<le> idx \<and> idx < int (length data)
         then data[nat idx := (data ! nat idx)\<lparr>cdl_temporary :=
                                 cdl_temporary (data ! nat idx) \<or> req_temporary req\<rparr>]
         else data)"

definition BM_data_layers_ensure :: "cd_consts \<Rightarrow> CustomData \<Rightarrow> BMCustomLayerReq list \<Rightarrow> CustomData" where
  "BM_data_layers_ensure K data layers =
     (let data1 = fold ensure_req_added layers data;
          data2 = (if length data1 \<noteq> length data then CustomData_update_offsets K data1 else data1)
      in fold ensure_req_flag layers data2)"

subsection \<open>The attribute-layer manager of the sculpt session\<close>

text \<open>
  The vertex and face custom data of \<open>ss->bm\<close> and the offsets cached in the session.
  The calls that hand the offsets on to the spatial partition and to the undo log
  (\<open>BKE_pbvh_update_offsets\<close>, \<open>BM_log_set_cd_offsets\<close>) change nothing in the session and
  are left out.
\<close>

record layer_session =
  bm_vdata :: CustomData
  bm_pdata :: CustomData
  cd_vert_node_offset :: int
  cd_face_node_offset :: int
  cd_dyn_vert :: int
  cd_vcol_offset :: int
  cd_origvcol_offset :: int
  cd_faceset_offset :: int
  cd_face_areas :: int

definition dyntopop_node_idx_layer_id :: string where
  "dyntopop_node_idx_layer_id = ''_dyntopo_node_id''"

definition dyntopop_faces_areas_layer_id :: string where
  "dyntopop_faces_areas_layer_id = ''__dyntopo_face_areas''"

definition set_layer_temporary :: "CustomData \<Rightarrow> int \<Rightarrow> CustomData" where
  \<comment> \<open>\<open>data->layers[i].flag |= CD_FLAG_TEMPORARY\<close>\<close>
  "set_layer_temporary data i =
     (if 0 \<le> i \<and> i < int (length data)
      then data[nat i := (data ! nat i)\<lparr>cdl_temporary := True\<rparr>]
      else data)"

definition layer_offset_at :: "CustomData \<Rightarrow> int \<Rightarrow> int" where
  \<comment> \<open>\<open>data->layers[i].offset\<close>; the read outside the array is given the sentinel\<close>
  "layer_offset_at data i =
     (if 0 \<le> i \<and> i < int (length data) then cdl_offset (data ! nat i) else - 1)"

definition SCULPT_dyntopo_node_layers_add :: "cd_consts \<Rightarrow> layer_session \<Rightarrow> layer_session" where
  "SCULPT_dyntopo_node_layers_add K ss =
     (let vlayers = [\<lparr>req_type = CD_PAINT_MASK K, req_name = None, req_temporary = False\<rparr>,
                     \<lparr>req_type = CD_DYNTOPO_VERT K, req_name = None, req_temporary = True\<rparr>,
                     \<lparr>req_type = CD_PROP_INT32 K, req_name = Some dyntopop_node_idx_layer_id,
                      req_temporary = True\<rparr>];
          vdata1 = BM_data_layers_ensure K (bm_vdata ss) vlayers;
          flayers = [\<lparr>req_type = CD_PROP_INT32 K, req_name = Some dyntopop_node_idx_layer_id,
                      req_temporary = True\<rparr>,
                     \<lparr>req_type = CD_PROP_FLOAT K, req_name = Some dyntopop_faces_areas_layer_id,
                      req_temporary = True\<rparr>];
          pdata1 = BM_data_layers_ensure K (bm_pdata ss) flayers;
          cd_node_layer_index =
            CustomData_get_named_layer_index vdata1 (CD_PROP_INT32 K) dyntopop_node_idx_layer_id;
          cd_face_node_layer_index =
            CustomData_get_named_layer_index pdata1 (CD_PROP_INT32 K) dyntopop_node_idx_layer_id;
          vdata2 = set_layer_temporary vdata1 cd_node_layer_index;
          pdata2 = set_layer_temporary pdata1 cd_face_node_layer_index
      in ss\<lparr>bm_vdata := vdata2,
             bm_pdata := pdata2,
             cd_origvcol_offset := - 1,
             cd_dyn_vert := CustomData_get_offset vdata1 (CD_DYNTOPO_VERT K),
             cd_vcol_offset := CustomData_get_offset vdata1 (CD_PROP_COLOR K),
             cd_vert_node_offset :=
               CustomData_get_n_offset vdata1 (CD_PROP_INT32 K)
                 (cd_node_layer_index - CustomData_get_layer_index vdata1 (CD_PROP_INT32 K)),
             cd_face_node_offset :=
               CustomData_get_n_offset pdata1 (CD_PROP_INT32 K)
                 (cd_face_node_layer_index - CustomData_get_layer_index pdata1 (CD_PROP_INT32 K)),
             cd_faceset_offset := CustomData_get_offset pdata2 (CD_SCULPT_FACE_SETS K),
             cd_face_areas :=
               layer_offset_at pdata2
                 (CustomData_get_named_layer pdata2 (CD_PROP_FLOAT K)
                    dyntopop_faces_areas_layer_id)\<rparr>)"

definition SCULPT_dyntopo_node_layers_update_offsets :: "cd_consts \<Rightarrow> layer_session \<Rightarrow> layer_session" where
  "SCULPT_dyntopo_node_layers_update_offsets K ss = SCULPT_dyntopo_node_layers_add K ss"

definition SCULPT_dyntopo_has_templayer :: "layer_session \<Rightarrow> nat \<Rightarrow> string \<Rightarrow> bool" where
  "SCULPT_dyntopo_has_templayer ss type name \<longleftrightarrow>
     CustomData_get_named_layer_index (bm_vdata ss) type name \<ge> 0"

definition SCULPT_dyntopo_ensure_templayer ::
  "cd_consts \<Rightarrow> layer_session \<Rightarrow> nat \<Rightarrow> string \<Rightarrow> layer_session"
where
  "SCULPT_dyntopo_ensure_templayer K ss type name =
     (let li = CustomData_get_named_layer_index (bm_vdata ss) type name
      in if li < 0
         then
           (let ss1 = ss\<lparr>bm_vdata := BM_data_layer_add_named K (bm_vdata ss) type name\<rparr>;
                ss2 = SCULPT_dyntopo_node_layers_update_offsets K ss1;
                li1 = CustomData_get_named_layer_index (bm_vdata ss2) type name
            in ss2\<lparr>bm_vdata := set_layer_temporary (bm_vdata ss2) li1\<rparr>)
         else ss)"

definition SCULPT_dyntopo_get_templayer :: "layer_session \<Rightarrow> nat \<Rightarrow> string \<Rightarrow> int" where
  "SCULPT_dyntopo_get_templayer ss type name =
     (let li = CustomData_get_named_layer_index (bm_vdata ss) type name
      in if li < 0 then - 1
         else CustomData_get_n_offset (bm_vdata ss) type
                (li - CustomData_get_layer_index (bm_vdata ss) type))"

section \<open>Topology enable/disable controller\<close>

text \<open>
  The warning flags are single bits of an enumeration declared outside this development;
  a flag value is the set of its bits, \<open>flag |= X\<close> inserts a bit and \<open>flag & X\<close>
  tests it.
\<close>

datatype eDynTopoWarnFlag =
  DYNTOPO_WARN_VDATA | DYNTOPO_WARN_EDATA | DYNTOPO_WARN_LDATA | DYNTOPO_WARN_MODIFIER
  | DYNTOPO_ERROR_MULTIRES

datatype ModifierType = eModifierType_Multires | eModifierType_Other nat

datatype ModifierTypeType = eModifierTypeType_Constructive | eModifierTypeType_Other nat

text \<open>
  A modifier with its type and the answer of
  \<open>BKE_modifier_is_enabled(scene, md, eModifierMode_Realtime)\<close> for it.
\<close>

record ModifierData =
  md_type :: ModifierType
  md_enabled :: bool

datatype operator_result = OPERATOR_FINISHED | OPERATOR_INTERFACE

datatype ui_event =
  Error_popup "eDynTopoWarnFlag set" | Warning_popup "eDynTopoWarnFlag set"
  | Notifier_toolsettings

datatype undo_event = Undo_push_begin string | Undo_push_dyntopo_begin | Undo_push_dyntopo_end
  | Undo_push_end

text \<open>
  The object with its sculpt session and mesh, as far as the toggle operator reads and
  writes them: \<open>ss->bm\<close> and \<open>ss->bm_log\<close> (\<open>None\<close> for NULL), the bit
  \<open>ME_SCULPT_DYNAMIC_TOPOLOGY\<close> of the mesh flag, the custom data of the mesh, the
  virtual modifier list, and the popups, notifiers and undo pushes issued so far.
\<close>

record sculpt_object =
  ob_bm :: "bmesh option"
  ob_bm_log :: "nat option"
  me_dyntopo_flag :: bool
  me_vdata :: CustomData
  me_edata :: CustomData
  me_ldata :: CustomData
  ob_modifiers :: "ModifierData list"
  ob_ui :: "ui_event list"
  ob_undo :: "undo_event list"

subsection \<open>\<open>SCULPT_dynamic_topology_check\<close>\<close>

definition cd_lossy_type :: "cd_consts \<Rightarrow> nat \<Rightarrow> bool" where
  "cd_lossy_type K i \<longleftrightarrow>
     i \<notin> set [CD_MVERT K, CD_MEDGE K, CD_MFACE K, CD_MLOOP K, CD_MPOLY K, CD_PAINT_MASK K,
                CD_ORIGINDEX K]"

definition check_customdata :: "cd_consts \<Rightarrow> sculpt_object \<Rightarrow> eDynTopoWarnFlag set" where
  "check_customdata K ob =
     fold (\<lambda>i flag.
             if cd_lossy_type K i
             then (let flag1 = (if CustomData_has_layer (me_vdata ob) i
                                then insert DYNTOPO_WARN_VDATA flag else flag);
                       flag2 = (if CustomData_has_layer (me_edata ob) i
                                then insert DYNTOPO_WARN_EDATA flag1 else flag1)
                   in if CustomData_has_layer (me_ldata ob) i
                      then insert DYNTOPO_WARN_LDATA flag2 else flag2)
             else flag)
          [0..<CD_NUMTYPES K] {}"

text \<open>
  The loop over the modifiers; \<open>BKE_modifier_get_info\<close>, the table of modifier type
  information, is the parameter \<open>mti_type\<close>.
\<close>

fun check_modifiers ::
  "(ModifierType \<Rightarrow> ModifierTypeType) \<Rightarrow> ModifierData list \<Rightarrow> eDynTopoWarnFlag set
     \<Rightarrow> eDynTopoWarnFlag set"
where
  "check_modifiers mti_type [] flag = flag"
| "check_modifiers mti_type (md # mds) flag =
     (if \<not> md_enabled md then check_modifiers mti_type mds flag
      else
        (let flag1 = (if md_type md = eModifierType_Multires
                      then insert DYNTOPO_ERROR_MULTIRES flag else flag)
         in if mti_type (md_type md) = eModifierTypeType_Constructive
            then insert DYNTOPO_WARN_MODIFIER flag1
            else check_modifiers mti_type mds flag1))"

text \<open>
  The custom-data part of the check is compiled in unless \<open>DYNTOPO_CD_INTERP\<close> is
  defined; the parameter \<open>cd_interp\<close> says whether it is.
\<close>

definition SCULPT_dynamic_topology_check ::
  "cd_consts \<Rightarrow> bool \<Rightarrow> (ModifierType \<Rightarrow> ModifierTypeType) \<Rightarrow> sculpt_object
     \<Rightarrow> eDynTopoWarnFlag set"
where
  "SCULPT_dynamic_topology_check K cd_interp mti_type ob =
     (let flag = (if cd_interp then {} else check_customdata K ob)
      in check_modifiers mti_type (ob_modifiers ob) flag)"

subsection \<open>The toggle operator\<close>

text \<open>
  The two transitions.  Building the boundary-representation mesh from the persistent
  mesh and creating the undo log are library work; \<open>bm_from_me\<close> gives the mesh that
  is built and \<open>log_create\<close> the log.  \<open>use_undo\<close> is the value the code computes from
  \<open>G.background\<close> and the undo stack.
\<close>

definition SCULPT_dynamic_topology_enable_ex ::
  "(sculpt_object \<Rightarrow> bmesh) \<Rightarrow> nat \<Rightarrow> sculpt_object \<Rightarrow> sculpt_object"
where
  "SCULPT_dynamic_topology_enable_ex bm_from_me log_create ob =
     ob\<lparr>ob_bm := Some (bm_from_me ob), me_dyntopo_flag := True, ob_bm_log := Some log_create\<rparr>"

definition SCULPT_dynamic_topology_disable_ex :: "sculpt_object \<Rightarrow> sculpt_object" where
  "SCULPT_dynamic_topology_disable_ex ob =
     ob\<lparr>me_dyntopo_flag := False, ob_bm_log := None, ob_bm := None\<rparr>"

definition sculpt_dynamic_topology_disable_with_undo :: "bool \<Rightarrow> sculpt_object \<Rightarrow> sculpt_object" where
  "sculpt_dynamic_topology_disable_with_undo use_undo ob =
     (if ob_bm ob \<noteq> None
      then
        (let ob1 = (if use_undo
                    then ob\<lparr>ob_undo := ob_undo ob @ [Undo_push_begin ''Dynamic topology disable'',
                                                      Undo_push_dyntopo_end]\<rparr>
                    else ob);
             ob2 = SCULPT_dynamic_topology_disable_ex ob1
         in if use_undo then ob2\<lparr>ob_undo := ob_undo ob2 @ [Undo_push_end]\<rparr> else ob2)
      else ob)"

definition sculpt_dynamic_topology_enable_with_undo ::
  "(sculpt_object \<Rightarrow> bmesh) \<Rightarrow> nat \<Rightarrow> bool \<Rightarrow> sculpt_object \<Rightarrow> sculpt_object"
where
  "sculpt_dynamic_topology_enable_with_undo bm_from_me log_create use_undo ob =
     (if ob_bm ob = None
      then
        (let ob1 = (if use_undo
                    then ob\<lparr>ob_undo := ob_undo ob @ [Undo_push_begin ''Dynamic topology enable'']\<rparr>
                    else ob);
             ob2 = SCULPT_dynamic_topology_enable_ex bm_from_me log_create ob1
         in if use_undo
            then ob2\<lparr>ob_undo := ob_undo ob2 @ [Undo_push_dyntopo_begin, Undo_push_end]\<rparr>
            else ob2)
      else ob)"

definition sculpt_dynamic_topology_toggle_exec ::
  "(sculpt_object \<Rightarrow> bmesh) \<Rightarrow> nat \<Rightarrow> bool \<Rightarrow> sculpt_object \<Rightarrow> operator_result \<times> sculpt_object"
where
  "sculpt_dynamic_topology_toggle_exec bm_from_me log_create use_undo ob =
     (let ob1 = (if ob_bm ob \<noteq> None
                 then sculpt_dynamic_topology_disable_with_undo use_undo ob
                 else sculpt_dynamic_topology_enable_with_undo bm_from_me log_create use_undo ob)
      in (OPERATOR_FINISHED, ob1\<lparr>ob_ui := ob_ui ob1 @ [Notifier_toolsettings]\<rparr>))"

definition dyntopo_error_popup :: "eDynTopoWarnFlag set \<Rightarrow> sculpt_object \<Rightarrow> operator_result \<times> sculpt_object" where
  "dyntopo_error_popup flag ob = (OPERATOR_INTERFACE, ob\<lparr>ob_ui := ob_ui ob @ [Error_popup flag]\<rparr>)"

definition dyntopo_warning_popup :: "eDynTopoWarnFlag set \<Rightarrow> sculpt_object \<Rightarrow> operator_result \<times> sculpt_object" where
  "dyntopo_warning_popup flag ob = (OPERATOR_INTERFACE, ob\<lparr>ob_ui := ob_ui ob @ [Warning_popup flag]\<rparr>)"

definition sculpt_dynamic_topology_toggle_invoke ::
  "cd_consts \<Rightarrow> bool \<Rightarrow> (ModifierType \<Rightarrow> ModifierTypeType) \<Rightarrow> (sculpt_object \<Rightarrow> bmesh) \<Rightarrow> nat \<Rightarrow> bool
     \<Rightarrow> sculpt_object \<Rightarrow> operator_result \<times> sculpt_object"
where
  "sculpt_dynamic_topology_toggle_invoke K cd_interp mti_type bm_from_me log_create use_undo ob =
     (if ob_bm ob = None
      then
        (let flag = SCULPT_dynamic_topology_check K cd_interp mti_type ob
         in if DYNTOPO_ERROR_MULTIRES \<in> flag then dyntopo_error_popup flag ob
            else if flag \<noteq> {} then dyntopo_warning_popup flag ob
            else sculpt_dynamic_topology_toggle_exec bm_from_me log_create use_undo ob)
      else sculpt_dynamic_topology_toggle_exec bm_from_me log_create use_undo ob)"

section \<open>Differential-geometry weights\<close>

definition tri_voronoi_area :: "vec3 \<Rightarrow> vec3 \<Rightarrow> vec3 \<Rightarrow> real" where
  "tri_voronoi_area p q r =
     (let pr = sub_v3_v3v3 p r;
          pq = sub_v3_v3v3 p q;
          (angles0, angles1, angles2) = angle_tri_v3 p q r
      in if angles0 > pi * 0.5 then area_tri_v3 p q r / 2
         else if angles1 > pi * 0.5 \<or> angles2 > pi * 0.5 then area_tri_v3 p q r / 4
         else
           (let dpr = dot_v3v3 pr pr;
                dpq = dot_v3v3 pq pq
            in (1 / 8) * (dpr * cotangent_tri_weight_v3 q p r + dpq * cotangent_tri_weight_v3 r q p)))"

text \<open>
  What a weight query hands back through its output arrays: the weights \<open>r_ws\<close>, the
  two cotangents and the wedge area per edge, and the total area.  The optional arrays
  are always present in the model.
\<close>

record cot_result =
  r_ws :: "real list"
  r_cot1 :: "real list"
  r_cot2 :: "real list"
  r_area :: "real list"
  r_totarea :: real

text \<open>
  The values computed in one turn of either loop from the hub position \<open>v\<close> and the
  positions \<open>v1\<close>, \<open>v2\<close>, \<open>v3\<close> of the far ends of the previous, the current and the
  next edge: \<open>cot1\<close>, \<open>cot2\<close> and \<open>area\<close>.
\<close>

definition edge_cotangents :: "vec3 \<Rightarrow> vec3 \<Rightarrow> vec3 \<Rightarrow> vec3 \<Rightarrow> real \<times> real \<times> real" where
  "edge_cotangents v v1 v2 v3 =
     (cotangent_tri_weight_v3 v1 v v2, cotangent_tri_weight_v3 v3 v2 v, tri_voronoi_area v v1 v2)"

text \<open>
  The end of both queries: the total area is the sum of the wedge areas in loop order,
  \<open>mul = 1.0f / (totarea * 2.0)\<close>, and every weight \<open>cot1 + cot2\<close> is multiplied by
  \<open>mul\<close>.  (A division by zero gives an infinite \<open>mul\<close> in C and 0 in the model.)
\<close>

definition finish_cotangents :: "(real \<times> real \<times> real) list \<Rightarrow> cot_result" where
  "finish_cotangents entries =
     (let totarea = fold (\<lambda>(cot1, cot2, area) tot. tot + area) entries 0;
          mul = 1 / (totarea * 2)
      in \<lparr>r_ws = map (\<lambda>(cot1, cot2, area). (cot1 + cot2) * mul) entries,
          r_cot1 = map (\<lambda>(cot1, cot2, area). cot1) entries,
          r_cot2 = map (\<lambda>(cot1, cot2, area). cot2) entries,
          r_area = map (\<lambda>(cot1, cot2, area). area) entries,
          r_totarea = totarea\<rparr>)"

subsection \<open>\<open>SCULPT_faces_get_cotangents\<close>\<close>

text \<open>
  The static mesh of the session: vertex positions, the two vertices of every edge, and
  for every vertex the list of its edges (\<open>ss->vemap\<close>).
\<close>

record static_mesh =
  mvert :: "nat \<Rightarrow> vec3"
  medge :: "nat \<Rightarrow> nat \<times> nat"
  vemap :: "nat \<Rightarrow> nat list"

definition medge_other_vert :: "static_mesh \<Rightarrow> nat \<Rightarrow> nat \<Rightarrow> vec3" where
  "medge_other_vert ss vertex e =
     (if vertex = fst (medge ss e) then mvert ss (snd (medge ss e)) else mvert ss (fst (medge ss e)))"

definition SCULPT_faces_get_cotangents :: "static_mesh \<Rightarrow> nat \<Rightarrow> cot_result" where
  "SCULPT_faces_get_cotangents ss vertex =
     (let elem = vemap ss vertex;
          count = length elem
      in finish_cotangents
           (map (\<lambda>i. let i1 = (i + count - 1) mod count;
                          i2 = i;
                          i3 = (i + 1) mod count;
                          v = mvert ss vertex;
                          v1 = medge_other_vert ss vertex (elem ! i1);
                          v2 = medge_other_vert ss vertex (elem ! i2);
                          v3 = medge_other_vert ss vertex (elem ! i3)
                      in edge_cotangents v v1 v2 v3)
                [0..<count]))"

subsection \<open>\<open>SCULPT_dyntopo_get_cotangents\<close>\<close>

text \<open>
  \<open>BM_edge_other_vert\<close> gives NULL for a vertex that is on neither end of the edge; the
  caller dereferences the result.
\<close>

definition BM_edge_other_vert :: "bm_edge \<Rightarrow> nat \<Rightarrow> nat option" where
  "BM_edge_other_vert e v =
     (if e_v1 e = v then Some (e_v2 e) else if e_v2 e = v then Some (e_v1 e) else None)"

text \<open>
  One turn of the \<open>do ... while\<close> loop at edge \<open>e\<close>: the values for the edge and the
  next edge of the disk cycle; \<open>None\<close> when a NULL pointer is dereferenced.
\<close>

definition disk_step :: "bmesh \<Rightarrow> nat \<Rightarrow> nat \<Rightarrow> ((real \<times> real \<times> real) \<times> nat) option" where
  "disk_step bm v e =
     (let ed = bm_edges bm e;
          eprev = (if v = e_v1 ed then v1_disk_prev ed else v2_disk_prev ed);
          enext = (if v = e_v1 ed then v1_disk_next ed else v2_disk_next ed)
      in case (BM_edge_other_vert (bm_edges bm eprev) v, BM_edge_other_vert ed v,
               BM_edge_other_vert (bm_edges bm enext) v) of
           (Some v1, Some v2, Some v3) \<Rightarrow>
             Some (edge_cotangents (v_co (bm_verts bm v)) (v_co (bm_verts bm v1))
                     (v_co (bm_verts bm v2)) (v_co (bm_verts bm v3)), enext)
         | _ \<Rightarrow> None)"

text \<open>
  The loop runs until the walk is back at \<open>v->e\<close>.  On a disk cycle that never comes
  back it does not end; the value \<open>None\<close> stands for a walk that does not return.
\<close>

partial_function (option) disk_walk ::
  "bmesh \<Rightarrow> nat \<Rightarrow> nat \<Rightarrow> nat \<Rightarrow> (real \<times> real \<times> real) list \<Rightarrow> (real \<times> real \<times> real) list option"
where
  "disk_walk bm v e_first e entries =
     Option.bind (disk_step bm v e)
       (\<lambda>(x, enext). if enext \<noteq> e_first then disk_walk bm v e_first enext (entries @ [x])
                      else Some (entries @ [x]))"

text \<open>
  The query first brings the disk cycle of the vertex in order.  The result is the
  session after the call with the output; the output is \<open>None\<close> when the vertex has no
  edge and the function returns without writing any.
\<close>

definition SCULPT_dyntopo_get_cotangents ::
  "'w::len word \<Rightarrow> (bmesh \<Rightarrow> nat \<Rightarrow> bmesh) \<Rightarrow> 'w word disk_session \<Rightarrow> nat
     \<Rightarrow> ('w word disk_session \<times> cot_result option) option"
where
  "SCULPT_dyntopo_get_cotangents DYNVERT_NEED_DISK_SORT BM_sort_disk_cycle ss vertex =
     (let ss1 = snd (SCULPT_dyntopo_check_disk_sort DYNVERT_NEED_DISK_SORT BM_sort_disk_cycle ss vertex)
      in case v_e (bm_verts (ss_bm ss1) vertex) of
           None \<Rightarrow> Some (ss1, None)
         | Some e \<Rightarrow>
             map_option (\<lambda>entries. (ss1, Some (finish_cotangents entries)))
               (disk_walk (ss_bm ss1) vertex e e []))"

subsection \<open>A concrete fan of four spokes\<close>

text \<open>
  Vertex 0 at \<open>(0, 0, 2)\<close> is joined by the edges 0 to 3 to the vertices 1 to 4 at
  \<open>(1, 0, 0)\<close>, \<open>(0, 1, 0)\<close>, \<open>(-1, 0, 0)\<close> and \<open>(0, -1, 0)\<close>; the disk cycle
  of vertex 0 runs through the edges in this order.
\<close>

definition fan_co :: "nat \<Rightarrow> vec3" where
  "fan_co i = (if i = 0 then (0, 0, 2) else if i = 1 then (1, 0, 0) else if i = 2 then (0, 1, 0)
               else if i = 3 then (-1, 0, 0) else (0, -1, 0))"

definition fan_bm :: bmesh where
  "fan_bm = \<lparr>
     bm_verts = (\<lambda>i. \<lparr>v_co = fan_co i, v_e = (if i = 0 then Some 0 else Some (i - 1))\<rparr>),
     bm_edges = (\<lambda>k. \<lparr>e_v1 = 0, e_v2 = k + 1,
                        v1_disk_prev = (k + 3) mod 4, v1_disk_next = (k + 1) mod 4,
                        v2_disk_prev = k, v2_disk_next = k, e_seam = False\<rparr>),
     bm_loops = (\<lambda>l. \<lparr>l_v = 0, l_e = 0, l_f = 0, l_next = l, l_prev = l, l_uv = (0, 0)\<rparr>),
     bm_faces = (\<lambda>f. \<lparr>f_l_first = 0\<rparr>)\<rparr>"

definition reverse_disk_cycle :: "bmesh \<Rightarrow> nat \<Rightarrow> bmesh" where
  "reverse_disk_cycle bm v =
     bm\<lparr>bm_edges := (\<lambda>k. let e = bm_edges bm k in
                          if e_v1 e = v
                          then e\<lparr>v1_disk_prev := v1_disk_next e, v1_disk_next := v1_disk_prev e\<rparr>
                          else e)\<rparr>"

definition fan_session :: "16 word disk_session" where
  "fan_session = \<lparr>ss_bm = fan_bm, mv_flag = (\<lambda>_. 0)(0 := 33)\<rparr>"

text \<open>
  The same fan as a static mesh, and a disk-cycle sort that finds the cycle in order.
\<close>

definition fan_static :: static_mesh where
  "fan_static = \<lparr>mvert = fan_co, medge = (\<lambda>k. (0, k + 1)),
                  vemap = (\<lambda>v. if v = 0 then [0, 1, 2, 3] else [v - 1])\<rparr>"

definition already_sorted :: "bmesh \<Rightarrow> nat \<Rightarrow> bmesh" where
  "already_sorted bm v = bm"

subsection \<open>Concrete solver inputs\<close>

text \<open>
  A face of \<open>n\<close> corners: loop \<open>k\<close> sits at vertex \<open>k\<close> and runs along edge \<open>k\<close>; the
  UV coordinates, the positions and the seam flags are given per corner.
\<close>

definition ngon_bm :: "nat \<Rightarrow> (nat \<Rightarrow> vec2) \<Rightarrow> (nat \<Rightarrow> vec3) \<Rightarrow> (nat \<Rightarrow> bool) \<Rightarrow> bmesh" where
  "ngon_bm n uvs cs seam = \<lparr>
     bm_verts = (\<lambda>i. \<lparr>v_co = cs i, v_e = Some i\<rparr>),
     bm_edges = (\<lambda>k. \<lparr>e_v1 = k, e_v2 = (k + 1) mod n,
                        v1_disk_prev = (k + n - 1) mod n, v1_disk_next = (k + n - 1) mod n,
                        v2_disk_prev = (k + 1) mod n, v2_disk_next = (k + 1) mod n,
                        e_seam = seam k\<rparr>),
     bm_loops = (\<lambda>k. \<lparr>l_v = k, l_e = k, l_f = 0, l_next = (k + 1) mod n,
                        l_prev = (k + n - 1) mod n, l_uv = uvs k\<rparr>),
     bm_faces = (\<lambda>f. \<lparr>f_l_first = 0\<rparr>)\<rparr>"

definition flat_co :: "nat \<Rightarrow> vec3" where
  "flat_co k = (if k = 0 then (0, 0, 0) else if k = 1 then (1, 0, 0) else if k = 2 then (2, 1, 0)
                else if k = 3 then (1, 2, 0) else if k = 4 then (0, 2, 0) else (-1, 1, 0))"

definition flat_uv :: "nat \<Rightarrow> vec2" where
  "flat_uv k = (if k = 0 then (0, 0) else if k = 1 then (1, 0) else if k = 2 then (2, 1)
                else if k = 3 then (1, 2) else if k = 4 then (0, 2) else (-1, 1))"

text \<open>A hexagon whose only seam is its sixth edge, and a triangle with a seam on its third.\<close>

definition hexagon_bm :: bmesh where
  "hexagon_bm = ngon_bm 6 flat_uv flat_co (\<lambda>k. k = 5)"

definition seam_triangle_bm :: bmesh where
  "seam_triangle_bm = ngon_bm 3 flat_uv flat_co (\<lambda>k. k = 2)"

text \<open>A triangle without seams whose three corners carry the same UV coordinates.\<close>

definition collapsed_uv_triangle_bm :: bmesh where
  "collapsed_uv_triangle_bm = ngon_bm 3 (\<lambda>k. (0, 0)) flat_co (\<lambda>k. False)"

text \<open>
  Three solver vertices on the boundary, none pinned: vertex 0 at \<open>(0, 0)\<close> with the
  neighbours 1 at \<open>(1, 0)\<close> and 2 at \<open>(0, 1)\<close>.  Loop \<open>k\<close> belongs to vertex \<open>k\<close>.
\<close>

definition boundary_vert :: "vec2 \<Rightarrow> nat \<Rightarrow> nat list \<Rightarrow> UVSmoothVert" where
  "boundary_vert uv k ns = \<lparr>sv_uv = uv, sv_co = flat_co k, sv_v = k, sv_pinned = False,
                            sv_boundary = True, sv_ls = [k], sv_neighbors = ns\<rparr>"

definition boundary_solver :: UVSolver where
  "boundary_solver = uvsolver_new\<lparr>verts := [boundary_vert (0, 0) 0 [1, 2],
                                             boundary_vert (1, 0) 1 [0],
                                             boundary_vert (0, 1) 2 [0]]\<rparr>"

text \<open>
  One area constraint on a triangle with UV coordinates \<open>(0, 0)\<close>, \<open>(1, 0)\<close>, \<open>(0, 1)\<close>
  whose share of the 3D area asks for twice its UV area.
\<close>

definition free_vert :: "vec2 \<Rightarrow> nat \<Rightarrow> UVSmoothVert" where
  "free_vert uv k = \<lparr>sv_uv = uv, sv_co = flat_co k, sv_v = k, sv_pinned = False,
                     sv_boundary = False, sv_ls = [k], sv_neighbors = []\<rparr>"

definition area_con :: UVSmoothConstraint where
  "area_con = \<lparr>con_type = CON_AREA, con_k = 1, con_vs = [0, 1, 2], con_tri = Some 0,
               con_gs = replicate CON_MAX_VERTS (0, 0), con_params0 = 0\<rparr>"

definition area_solver :: UVSolver where
  "area_solver = uvsolver_new\<lparr>
     verts := [free_vert (0, 0) 0, free_vert (1, 0) 1, free_vert (0, 1) 2],
     tris := [\<lparr>tri_vs = [0, 1, 2], tri_area2d = 1 / 2, tri_area3d = 1\<rparr>],
     constraints := [area_con],
     totarea3d := 1, totarea2d := 1\<rparr>"

definition pinned_solver :: UVSolver where
  "pinned_solver =
     boundary_solver\<lparr>verts := (verts boundary_solver)
                                  [0 := (verts boundary_solver ! 0)\<lparr>sv_pinned := True\<rparr>]\<rparr>"

definition negative_solver :: UVSolver where
  "negative_solver = boundary_solver\<lparr>strength := - 1\<rparr>"

text \<open>The same constraint on a triangle without 3D area: its residual is zero.\<close>

definition settled_solver :: UVSolver where
  "settled_solver = area_solver\<lparr>tris := [\<lparr>tri_vs = [0, 1, 2], tri_area2d = 1 / 2,
                                           tri_area3d = 0\<rparr>]\<rparr>"

text \<open>
  A solver whose vertex 0, at UV \<open>(0, 0)\<close>, already has the 31 neighbours 1 to 31, each
  of which has vertex 0 as its only neighbour.
\<close>

definition saturated_solver :: UVSolver where
  "saturated_solver = uvsolver_new\<lparr>
     verts := (free_vert (0, 0) 0)\<lparr>sv_neighbors := [1..<32]\<rparr>
              # map (\<lambda>k. (free_vert (real k, 1) k)\<lparr>sv_neighbors := [0]\<rparr>) [1..<32],
     vhash := [0 \<mapsto> 0]\<rparr>"

text \<open>
  Type numbers as in the custom-data header of the program, a session without any layer,
  and the session once the node layers have been added to it.
\<close>

definition blender_cd_consts :: cd_consts where
  "blender_cd_consts = \<lparr>CD_NUMTYPES = 53, CD_MVERT = 0, CD_MEDGE = 3, CD_MFACE = 4,
     CD_MLOOP = 26, CD_MPOLY = 25, CD_ORIGINDEX = 7, CD_PAINT_MASK = 34, CD_DYNTOPO_VERT = 52,
     CD_PROP_INT32 = 11, CD_PROP_FLOAT = 10, CD_PROP_COLOR = 47, CD_SCULPT_FACE_SETS = 42,
     cd_sizeof = (\<lambda>t. if t = 52 then 64 else 4)\<rparr>"

definition bare_session :: layer_session where
  "bare_session = \<lparr>bm_vdata = [], bm_pdata = [], cd_vert_node_offset = - 1,
     cd_face_node_offset = - 1, cd_dyn_vert = - 1, cd_vcol_offset = - 1,
     cd_origvcol_offset = - 1, cd_faceset_offset = - 1, cd_face_areas = - 1\<rparr>"

definition enabled_session :: layer_session where
  "enabled_session = SCULPT_dyntopo_node_layers_add blender_cd_consts bare_session"

text \<open>
  A table of modifier type information in which the multiresolution modifier and the
  modifier type 0 are constructive; an object without modifiers and custom data; and
  an object with an enabled deforming and an enabled multiresolution modifier.
\<close>

definition blender_mti_type :: "ModifierType \<Rightarrow> ModifierTypeType" where
  "blender_mti_type t = (case t of eModifierType_Multires \<Rightarrow> eModifierTypeType_Constructive
                          | eModifierType_Other k \<Rightarrow> (if k = 0 then eModifierTypeType_Constructive
                                                     else eModifierTypeType_Other k))"

definition plain_object :: sculpt_object where
  "plain_object = \<lparr>ob_bm = None, ob_bm_log = None, me_dyntopo_flag = False, me_vdata = [],
     me_edata = [], me_ldata = [], ob_modifiers = [], ob_ui = [], ob_undo = []\<rparr>"

definition multires_object :: sculpt_object where
  "multires_object = plain_object\<lparr>ob_modifiers :=
     [\<lparr>md_type = eModifierType_Other 1, md_enabled = True\<rparr>,
      \<lparr>md_type = eModifierType_Multires, md_enabled = True\<rparr>]\<rparr>"

section \<open>Auxiliary predicates\<close>

text \<open>
  The vertices that the first loop of \<open>uvsolver_simple_relax\<close> passes over without
  moving them, read off its two \<open>continue\<close> statements.
\<close>

definition relax_skips :: "UVSmoothVert list \<Rightarrow> nat \<Rightarrow> bool" where
  "relax_skips vl i \<longleftrightarrow>
     sv_pinned (vl ! i)
     \<or> (sv_boundary (vl ! i)
        \<and> length (filter (\<lambda>n. sv_boundary (vl ! n)) (sv_neighbors (vl ! i))) < 2)"

text \<open>
  The neighbours that the pass counts for a boundary vertex, the average of the
  coordinates of a list of vertices, the vertex list when the first loop reaches
  vertex \<open>i\<close> (the vertices before \<open>i\<close> have had their turn), and the point reached from
  \<open>uv\<close> by moving the fraction \<open>str\<close> of the way to \<open>avg\<close>.
\<close>

definition boundary_neighbors :: "UVSmoothVert list \<Rightarrow> nat \<Rightarrow> nat list" where
  "boundary_neighbors vl i = filter (\<lambda>n. sv_boundary (vl ! n)) (sv_neighbors (vl ! i))"

definition uv_average :: "UVSmoothVert list \<Rightarrow> nat list \<Rightarrow> vec2" where
  "uv_average vl ns =
     (sum_list (map (\<lambda>n. fst (sv_uv (vl ! n))) ns) / real (length ns),
      sum_list (map (\<lambda>n. snd (sv_uv (vl ! n))) ns) / real (length ns))"

definition relax_reached :: "real \<Rightarrow> UVSmoothVert list \<Rightarrow> nat \<Rightarrow> UVSmoothVert list" where
  "relax_reached str vl i = fold (\<lambda>j vl. relax_vert str vl j) [0..<i] vl"

definition relax_toward :: "real \<Rightarrow> vec2 \<Rightarrow> vec2 \<Rightarrow> vec2" where
  "relax_toward str uv avg = (fst uv + (fst avg - fst uv) * str, snd uv + (snd avg - snd uv) * str)"

text \<open>
  The corner of face \<open>f\<close> reached from its first loop by \<open>k\<close> steps along \<open>l->next\<close>.
\<close>

definition nth_corner :: "bmesh \<Rightarrow> nat \<Rightarrow> nat \<Rightarrow> nat" where
  "nth_corner bm f k = ((\<lambda>l. l_next (bm_loops bm l)) ^^ k) (f_l_first (bm_faces bm f))"

text \<open>
  The (type, name) pairs of the layers of a custom data, in layer order, and the vertex
  custom data that has the three layers which \<open>SCULPT_dyntopo_node_layers_add\<close> asks for.
\<close>

definition layer_keys :: "CustomData \<Rightarrow> (nat \<times> string) list" where
  "layer_keys data = map (\<lambda>l. (cdl_type l, cdl_name l)) data"

definition node_vlayers_present :: "cd_consts \<Rightarrow> CustomData \<Rightarrow> bool" where
  "node_vlayers_present K data \<longleftrightarrow>
     CustomData_has_layer data (CD_PAINT_MASK K)
     \<and> CustomData_has_layer data (CD_DYNTOPO_VERT K)
     \<and> 0 \<le> CustomData_get_named_layer_index data (CD_PROP_INT32 K) dyntopop_node_idx_layer_id"

text \<open>
  The cached offsets of the layers, in layer order; the byte offset of layer \<open>i\<close> in an
  element block in which every layer lies right behind the layers before it; the custom
  data whose cached offsets are those of that layout; the face custom data that has the
  two layers which \<open>SCULPT_dyntopo_node_layers_add\<close> asks for; and the session that has
  the node layers of both element classes.
\<close>

definition layer_offsets :: "CustomData \<Rightarrow> int list" where
  "layer_offsets data = map cdl_offset data"

definition layer_block_offset :: "cd_consts \<Rightarrow> CustomData \<Rightarrow> nat \<Rightarrow> int" where
  "layer_block_offset K data i =
     int (sum_list (map (\<lambda>l. cd_sizeof K (cdl_type l)) (take i data)))"

definition offsets_current :: "cd_consts \<Rightarrow> CustomData \<Rightarrow> bool" where
  "offsets_current K data \<longleftrightarrow>
     layer_offsets data = map (layer_block_offset K data) [0..<length data]"

definition node_flayers_present :: "cd_consts \<Rightarrow> CustomData \<Rightarrow> bool" where
  "node_flayers_present K data \<longleftrightarrow>
     0 \<le> CustomData_get_named_layer_index data (CD_PROP_INT32 K) dyntopop_node_idx_layer_id
     \<and> 0 \<le> CustomData_get_named_layer_index data (CD_PROP_FLOAT K) dyntopop_faces_areas_layer_id"

definition node_layers_present :: "cd_consts \<Rightarrow> layer_session \<Rightarrow> bool" where
  "node_layers_present K ss \<longleftrightarrow>
     node_vlayers_present K (bm_vdata ss) \<and> node_flayers_present K (bm_pdata ss)"

text \<open>
  The next and the previous edge of \<open>e\<close> in the disk cycle of \<open>v\<close>, and the disk cycle
  that is well formed: from \<open>e\<close> the \<open>next\<close> links come back to \<open>e\<close> after \<open>n\<close> edges and
  not before, the \<open>prev\<close> link of every edge on the way leads to the edge before it in
  the cycle, and every edge on the way and its two neighbours in the cycle have \<open>v\<close> as
  an end.
\<close>

definition disk_next :: "bmesh \<Rightarrow> nat \<Rightarrow> nat \<Rightarrow> nat" where
  "disk_next bm v e =
     (if v = e_v1 (bm_edges bm e) then v1_disk_next (bm_edges bm e) else v2_disk_next (bm_edges bm e))"

definition disk_prev :: "bmesh \<Rightarrow> nat \<Rightarrow> nat \<Rightarrow> nat" where
  "disk_prev bm v e =
     (if v = e_v1 (bm_edges bm e) then v1_disk_prev (bm_edges bm e) else v2_disk_prev (bm_edges bm e))"

definition disk_cycle :: "bmesh \<Rightarrow> nat \<Rightarrow> nat \<Rightarrow> nat \<Rightarrow> bool" where
  "disk_cycle bm v e n \<longleftrightarrow>
     0 < n \<and> (disk_next bm v ^^ n) e = e
     \<and> (\<forall>k. 0 < k \<and> k < n \<longrightarrow> (disk_next bm v ^^ k) e \<noteq> e)
     \<and> (\<forall>k < n. disk_prev bm v ((disk_next bm v ^^ k) e)
                   = (disk_next bm v ^^ ((k + n - 1) mod n)) e)
     \<and> (\<forall>k < n. disk_step bm v ((disk_next bm v ^^ k) e) \<noteq> None)"

text \<open>
  The ring of neighbours of a vertex, as the list of their positions in the order of the
  edges: for the boundary representation the far ends of the \<open>n\<close> edges of the disk
  cycle from \<open>e\<close> on, for the static mesh the far ends of the edges of \<open>ss->vemap\<close>.
\<close>

definition edge_far_co :: "bmesh \<Rightarrow> nat \<Rightarrow> nat \<Rightarrow> vec3" where
  "edge_far_co bm v e =
     v_co (bm_verts bm (if e_v1 (bm_edges bm e) = v then e_v2 (bm_edges bm e)
                        else e_v1 (bm_edges bm e)))"

definition disk_ring :: "bmesh \<Rightarrow> nat \<Rightarrow> nat \<Rightarrow> nat \<Rightarrow> vec3 list" where
  "disk_ring bm v e n = map (\<lambda>k. edge_far_co bm v ((disk_next bm v ^^ k) e)) [0..<n]"

definition static_ring :: "static_mesh \<Rightarrow> nat \<Rightarrow> vec3 list" where
  "static_ring ss vertex = map (medge_other_vert ss vertex) (vemap ss vertex)"

text \<open>
  The cotangent weights in the words of the specification, for the hub position \<open>v\<close> and
  the ring \<open>ps\<close> of its neighbours.  For the edge to neighbour \<open>i\<close>: the sum of the two
  cotangent weights at the neighbours before and after \<open>i\<close> in the ring, which are the
  corners opposite the edge in the two triangles on it; the mixed Voronoi area of the
  wedge between the neighbour before \<open>i\<close> and \<open>i\<close>; the total area, the sum of the wedge
  areas around the vertex; the weight, the sum of the two cotangents divided by twice the
  total area; and the three values of one turn of the loops of the code.
\<close>

definition ring_cot_sum :: "vec3 \<Rightarrow> vec3 list \<Rightarrow> nat \<Rightarrow> real" where
  "ring_cot_sum v ps i =
     cotangent_tri_weight_v3 (ps ! ((i + length ps - 1) mod length ps)) v (ps ! i)
     + cotangent_tri_weight_v3 (ps ! ((i + 1) mod length ps)) (ps ! i) v"

definition ring_area :: "vec3 \<Rightarrow> vec3 list \<Rightarrow> nat \<Rightarrow> real" where
  "ring_area v ps i = tri_voronoi_area v (ps ! ((i + length ps - 1) mod length ps)) (ps ! i)"

definition ring_totarea :: "vec3 \<Rightarrow> vec3 list \<Rightarrow> real" where
  "ring_totarea v ps = sum_list (map (ring_area v ps) [0..<length ps])"

definition ring_weight :: "vec3 \<Rightarrow> vec3 list \<Rightarrow> nat \<Rightarrow> real" where
  "ring_weight v ps i = ring_cot_sum v ps i / (2 * ring_totarea v ps)"

definition ring_entry :: "vec3 \<Rightarrow> vec3 list \<Rightarrow> nat \<Rightarrow> real \<times> real \<times> real" where
  "ring_entry v ps i =
     edge_cotangents v (ps ! ((i + length ps - 1) mod length ps)) (ps ! i)
       (ps ! ((i + 1) mod length ps))"

section \<open>Disk-cycle maintenance\<close>

text \<open>
  Claim C3.  \<open>SCULPT_dyntopo_check_disk_sort\<close> returns true exactly when the vertex's
  \<open>DYNVERT_NEED_DISK_SORT\<close> bit is set on entry; in that case the disk cycle of the
  vertex is re-sorted and the bit is cleared, otherwise the session is left as it was.
  The bit is clear on exit in both cases, so a second call right after the first returns
  false and changes nothing.
\<close>

theorem check_disk_sort_dirty_iff:
  fixes D :: "'w::len word"
  shows "case SCULPT_dyntopo_check_disk_sort D srt ss v of (r, ss') \<Rightarrow>
           r = (mv_flag ss v AND D \<noteq> 0)
         \<and> (r \<longrightarrow> ss_bm ss' = srt (ss_bm ss) v)
         \<and> mv_flag ss' v = mv_flag ss v AND NOT D
         \<and> (\<not> r \<longrightarrow> ss' = ss)
         \<and> mv_flag ss' v AND D = 0
         \<and> (\<forall>u. u \<noteq> v \<longrightarrow> mv_flag ss' u = mv_flag ss u)
         \<and> SCULPT_dyntopo_check_disk_sort D srt ss' v = (False, ss')"
proof -
  have clr: "(w AND NOT D) AND D = 0" for w :: "'w word"
    by (simp add: bit_eq_iff bit_and_iff bit_not_iff)
  have keep: "w AND D = 0 \<Longrightarrow> w = w AND NOT D" for w :: "'w word"
    by (auto simp add: bit_eq_iff bit_and_iff bit_not_iff)
  show ?thesis
    unfolding SCULPT_dyntopo_check_disk_sort_def
    using keep [of "mv_flag ss v"] by (simp add: Let_def clr)
qed

theorem check_disk_sort_dirty_iff_witness:
  "(case SCULPT_dyntopo_check_disk_sort (32 :: 16 word) reverse_disk_cycle fan_session 0 of
      (r, ss') \<Rightarrow>
        r \<and> ss_bm ss' = reverse_disk_cycle fan_bm 0 \<and> mv_flag ss' 0 = 1
        \<and> SCULPT_dyntopo_check_disk_sort 32 reverse_disk_cycle ss' 0 = (False, ss'))
   \<and> (case SCULPT_dyntopo_check_disk_sort (32 :: 16 word) reverse_disk_cycle fan_session 1 of
      (r, ss') \<Rightarrow> \<not> r \<and> ss' = fan_session)"
  using check_disk_sort_dirty_iff [where D = "32 :: 16 word" and srt = reverse_disk_cycle
                                     and ss = fan_session and v = 0]
        check_disk_sort_dirty_iff [where D = "32 :: 16 word" and srt = reverse_disk_cycle
                                     and ss = fan_session and v = 1]
  by (simp add: SCULPT_dyntopo_check_disk_sort_def fan_session_def Let_def)

section \<open>UV relaxation solver: face setup\<close>

lemma get_vert_constraints:
  "constraints (snd (uvsolver_get_vert bm s l)) = constraints s"
  by (simp add: uvsolver_get_vert_def Let_def split: option.splits)

lemma walk_constraints:
  "case face_corner_walk bm l_first solver l i nocon vs of
     Inl e \<Rightarrow> True
   | Inr (s, n, ws) \<Rightarrow> constraints s = constraints solver"
proof (induction bm l_first solver l i nocon vs rule: face_corner_walk.induct)
  case (1 bm l_first solver l i nocon vs)
  show ?case
    using "1.IH" get_vert_constraints [of bm solver l]
    by (subst face_corner_walk.simps)
       (auto simp add: Let_def split: prod.splits sum.splits)
qed

lemma walk_nocon_mono:
  "nocon \<Longrightarrow> case face_corner_walk bm l_first solver l i nocon vs of
                Inl e \<Rightarrow> True
              | Inr (s, n, ws) \<Rightarrow> n"
proof (induction bm l_first solver l i nocon vs rule: face_corner_walk.induct)
  case (1 bm l_first solver l i nocon vs)
  show ?case
    using "1.IH" "1.prems"
    by (subst face_corner_walk.simps)
       (auto simp add: Let_def split: prod.splits sum.splits)
qed

lemma walk_seam:
  "\<forall>j. 0 < j \<and> j \<le> k \<longrightarrow> ((\<lambda>l. l_next (bm_loops bm l)) ^^ j) l \<noteq> l_first
   \<Longrightarrow> e_seam (bm_edges bm (l_e (bm_loops bm (((\<lambda>l. l_next (bm_loops bm l)) ^^ k) l))))
   \<Longrightarrow> case face_corner_walk bm l_first solver l i nocon vs of
         Inl e \<Rightarrow> True
       | Inr (s, n, ws) \<Rightarrow> n"
proof (induction k arbitrary: l i solver nocon vs)
  case 0
  show ?case
  proof (cases "3 \<le> i")
    case True
    then show ?thesis
      by (subst face_corner_walk.simps) (simp add: Let_def split: prod.splits)
  next
    case False
    obtain sv s1 where g: "uvsolver_get_vert bm solver l = (sv, s1)"
      by (cases "uvsolver_get_vert bm solver l") auto
    have m: "case face_corner_walk bm l_first s1 (l_next (bm_loops bm l)) (i + 1) True (vs @ [sv]) of
               Inl e \<Rightarrow> True | Inr (s, n, ws) \<Rightarrow> n"
      by (rule walk_nocon_mono) simp
    show ?thesis
      using False "0.prems"(2) m
      by (subst face_corner_walk.simps) (simp add: Let_def g)
  qed
next
  case (Suc k)
  let ?nx = "\<lambda>l. l_next (bm_loops bm l)"
  from Suc.prems(1) have nf: "?nx l \<noteq> l_first"
    by (metis One_nat_def funpow.simps(1) funpow.simps(2) le_add1 o_apply plus_1_eq_Suc zero_less_one id_apply)
  have step: "\<forall>j. 0 < j \<and> j \<le> k \<longrightarrow> (?nx ^^ j) (?nx l) \<noteq> l_first"
  proof (intro allI impI)
    fix j assume "0 < j \<and> j \<le> k"
    then have "0 < Suc j \<and> Suc j \<le> Suc k" by simp
    then have "(?nx ^^ Suc j) l \<noteq> l_first" using Suc.prems(1) by blast
    then show "(?nx ^^ j) (?nx l) \<noteq> l_first"
      using funpow_swap1 [of ?nx j l] by simp
  qed
  have seam: "e_seam (bm_edges bm (l_e (bm_loops bm ((?nx ^^ k) (?nx l)))))"
    using Suc.prems(2) funpow_swap1 [of ?nx k l] by simp
  show ?case
  proof (cases "3 \<le> i")
    case True
    then show ?thesis
      by (subst face_corner_walk.simps) (simp add: Let_def split: prod.splits)
  next
    case False
    obtain sv s1 where g: "uvsolver_get_vert bm solver l = (sv, s1)"
      by (cases "uvsolver_get_vert bm solver l") auto
    show ?thesis
      using False nf
        Suc.IH [OF step seam, of s1 "i + 1"
                  "nocon \<or> e_seam (bm_edges bm (l_e (bm_loops bm l)))" "vs @ [sv]"]
      by (subst face_corner_walk.simps) (simp add: Let_def g)
  qed
qed

lemma add_side_neighbors_constraints:
  "constraints (add_side_neighbors vs i s) = constraints s"
  by (simp add: add_side_neighbors_def Let_def)

lemma fold_side_neighbors_constraints:
  "constraints (fold (add_side_neighbors vs) ixs s) = constraints s"
  by (induction ixs arbitrary: s) (simp_all add: add_side_neighbors_constraints)

text \<open>
  Where the face setup stays inside the array of the triangle, a seam on an edge of the
  face keeps the constraint pool as it was: for a corner reached from the first one
  before the ring closes, with a seam on its edge, the setup either stops with an error
  or returns the solver with the constraints it had.
\<close>

lemma ensure_face_seam_defined:
  assumes "\<forall>j. 0 < j \<and> j \<le> k \<longrightarrow> nth_corner bm f j \<noteq> nth_corner bm f 0"
    and "e_seam (bm_edges bm (l_e (bm_loops bm (nth_corner bm f k))))"
  shows "case uvsolver_ensure_face bm solver f of
           Inl e \<Rightarrow> True
         | Inr (t, solver') \<Rightarrow> constraints solver' = constraints solver"
proof (cases "fhash solver f")
  case (Some t)
  then show ?thesis by (simp add: uvsolver_ensure_face_def)
next
  case None
  let ?s0 = "solver\<lparr>tris := tris solver @ [\<lparr>tri_vs = [], tri_area2d = 0, tri_area3d = 0\<rparr>],
                     fhash := (fhash solver)(f \<mapsto> length (tris solver))\<rparr>"
  let ?l = "f_l_first (bm_faces bm f)"
  let ?w = "face_corner_walk bm ?l ?s0 ?l 0 False []"
  show ?thesis
  proof (cases ?w)
    case (Inl e)
    then show ?thesis using None by (simp add: uvsolver_ensure_face_def Let_def)
  next
    case (Inr r)
    obtain s1 nocon walked where r: "r = (s1, nocon, walked)"
      by (cases r) auto
    have "case ?w of Inl e \<Rightarrow> True | Inr (s, n, ws) \<Rightarrow> n"
      using walk_seam [where k = k and bm = bm and l = ?l and l_first = ?l and solver = ?s0
                         and i = 0 and nocon = False and vs = "[]"] assms
      by (simp add: nth_corner_def)
    then have nocon: "nocon" by (simp add: Inr r)
    have "case ?w of Inl e \<Rightarrow> True | Inr (s, n, ws) \<Rightarrow> constraints s = constraints ?s0"
      by (rule walk_constraints)
    then have con: "constraints s1 = constraints solver" by (simp add: Inr r)
    show ?thesis
      using None nocon con
      by (simp add: uvsolver_ensure_face_def Let_def Inr r add_side_neighbors_constraints)
  qed
qed

lemmas eval_cong = let_weak_cong prod.case_cong_weak option.case_cong_weak sum.case_cong_weak

lemmas ensure_face_eval =
  uvsolver_ensure_face_def uvsolver_new_def face_corner_walk.simps uvsolver_get_vert_def
  uvsolver_calc_loop_key_def trunc_int_def ngon_bm_def flat_uv_def flat_co_def Let_def
  MAXUVLOOPS_def MAXUVNEIGHBORS_def add_side_neighbors_def add_corner_constraints_def
  area_tri_v2_db_def area_tri_signed_v2_db_def vert_uv_add_def

lemma nth_corner_0: "nth_corner bm f 0 = f_l_first (bm_faces bm f)"
  by (simp add: nth_corner_def)

lemma nth_corner_Suc: "nth_corner bm f (Suc k) = l_next (bm_loops bm (nth_corner bm f k))"
  by (simp add: nth_corner_def)

lemma ngon_corner: "k < n \<Longrightarrow> nth_corner (ngon_bm n uvs cs seam) f k = k"
proof (induction k)
  case 0
  then show ?case by (simp add: nth_corner_0 ngon_bm_def)
next
  case (Suc k)
  then show ?case by (simp add: nth_corner_Suc) (simp add: ngon_bm_def)
qed

lemma ngon_corner_close: "0 < n \<Longrightarrow> nth_corner (ngon_bm n uvs cs seam) f n = 0"
  using ngon_corner [of "n - 1" n uvs cs seam f]
        nth_corner_Suc [of "ngon_bm n uvs cs seam" f "n - 1"]
  by (simp add: ngon_bm_def)

lemma seam_triangle_no_constraints:
  "e_seam (bm_edges seam_triangle_bm (l_e (bm_loops seam_triangle_bm (nth_corner seam_triangle_bm 0 2))))
   \<and> \<not> isl (uvsolver_ensure_face seam_triangle_bm uvsolver_new 0)
   \<and> constraints (snd (projr (uvsolver_ensure_face seam_triangle_bm uvsolver_new 0)))
       = constraints uvsolver_new"
proof -
  have c: "nth_corner seam_triangle_bm 0 2 = 2"
    by (simp add: seam_triangle_bm_def ngon_corner)
  have seam: "e_seam (bm_edges seam_triangle_bm (l_e (bm_loops seam_triangle_bm (nth_corner seam_triangle_bm 0 2))))"
    by (simp add: c) (simp add: seam_triangle_bm_def ngon_bm_def)
  have r: "\<not> isl (uvsolver_ensure_face seam_triangle_bm uvsolver_new 0)
           \<and> constraints (snd (projr (uvsolver_ensure_face seam_triangle_bm uvsolver_new 0))) = []"
    by (simp add: seam_triangle_bm_def ensure_face_eval cong: eval_cong)
  show ?thesis using seam r by (simp add: uvsolver_new_def)
qed

text \<open>
  Claim C6, evaluated where the code departs from it.  The only seam of \<open>hexagon_bm\<close> is
  on its sixth edge, and the ring of the face closes after six corners.  The walk of the
  face setup stores the vertex of the fourth corner at \<open>tri->vs[3]\<close>, behind the three
  slots of the array, before it compares \<open>i\<close> with 3: the setup stops with
  \<open>Out_of_bounds_store\<close>, and none of the four corners visited until then has a seam on
  its edge.
\<close>

theorem ensure_face_hexagon_out_of_bounds:
  "e_seam (bm_edges hexagon_bm (l_e (bm_loops hexagon_bm (nth_corner hexagon_bm 0 5))))
   \<and> nth_corner hexagon_bm 0 6 = nth_corner hexagon_bm 0 0
   \<and> \<not> e_seam (bm_edges hexagon_bm (l_e (bm_loops hexagon_bm (nth_corner hexagon_bm 0 0))))
   \<and> \<not> e_seam (bm_edges hexagon_bm (l_e (bm_loops hexagon_bm (nth_corner hexagon_bm 0 1))))
   \<and> \<not> e_seam (bm_edges hexagon_bm (l_e (bm_loops hexagon_bm (nth_corner hexagon_bm 0 2))))
   \<and> \<not> e_seam (bm_edges hexagon_bm (l_e (bm_loops hexagon_bm (nth_corner hexagon_bm 0 3))))
   \<and> uvsolver_ensure_face hexagon_bm uvsolver_new 0 = Inl Out_of_bounds_store"
proof -
  have c: "nth_corner hexagon_bm 0 5 = 5" "nth_corner hexagon_bm 0 6 = 0"
    "nth_corner hexagon_bm 0 0 = 0" "nth_corner hexagon_bm 0 1 = 1"
    "nth_corner hexagon_bm 0 2 = 2" "nth_corner hexagon_bm 0 3 = 3"
    by (simp_all add: hexagon_bm_def ngon_corner ngon_corner_close)
  have s: "e_seam (bm_edges hexagon_bm (l_e (bm_loops hexagon_bm k))) = (k = 5)" for k
    by (simp add: hexagon_bm_def ngon_bm_def)
  have r: "uvsolver_ensure_face hexagon_bm uvsolver_new 0 = Inl Out_of_bounds_store"
    by (simp add: hexagon_bm_def ensure_face_eval cong: eval_cong)
  show ?thesis unfolding c s using r by simp
qed

section \<open>UV relaxation solver: loop and neighbour tables\<close>

text \<open>
  Claim C10, evaluated where the code departs from it.  For a triangle whose three
  corners have the same UV coordinates, the three corners are one solver vertex; the
  neighbour test of the first side finds the vertex absent from its own table and
  stores it there twice.  When the table already holds 31 entries, the same two stores
  take it to 33 entries, one more than \<open>MAXUVNEIGHBORS\<close>.
\<close>

theorem ensure_face_self_neighbor_twice:
  "\<not> isl (uvsolver_ensure_face collapsed_uv_triangle_bm uvsolver_new 0)
   \<and> map sv_neighbors
         (verts (snd (projr (uvsolver_ensure_face collapsed_uv_triangle_bm uvsolver_new 0))))
       = [[0, 0]]
   \<and> \<not> isl (uvsolver_ensure_face collapsed_uv_triangle_bm saturated_solver 0)
   \<and> length (sv_neighbors (verts saturated_solver ! 0)) = 31
   \<and> length (sv_neighbors
         (verts (snd (projr (uvsolver_ensure_face collapsed_uv_triangle_bm saturated_solver 0))) ! 0))
       = 33"
proof -
  have a: "\<not> isl (uvsolver_ensure_face collapsed_uv_triangle_bm uvsolver_new 0)
     \<and> map sv_neighbors
         (verts (snd (projr (uvsolver_ensure_face collapsed_uv_triangle_bm uvsolver_new 0))))
       = [[0, 0]]"
    by (simp add: collapsed_uv_triangle_bm_def ensure_face_eval cong: eval_cong)
  have b: "\<not> isl (uvsolver_ensure_face collapsed_uv_triangle_bm saturated_solver 0)
     \<and> length (sv_neighbors
         (verts (snd (projr (uvsolver_ensure_face collapsed_uv_triangle_bm saturated_solver 0))) ! 0))
       = 33"
    by (simp add: collapsed_uv_triangle_bm_def saturated_solver_def free_vert_def ensure_face_eval cong: eval_cong)
  have c: "length (sv_neighbors (verts saturated_solver ! 0)) = 31"
    by (simp add: saturated_solver_def uvsolver_new_def)
  show ?thesis using a b c by simp
qed

section \<open>UV relaxation solver: neighbour averaging\<close>

lemma relax_vert_length: "length (relax_vert s vl i) = length vl"
  by (simp add: relax_vert_def Let_def split: prod.splits)

lemma relax_vert_nth_other: "j \<noteq> i \<Longrightarrow> relax_vert s vl i ! j = vl ! j"
  by (simp add: relax_vert_def Let_def split: prod.splits)

lemma relax_vert_frame:
  "sv_pinned (relax_vert s vl i ! j) = sv_pinned (vl ! j)
   \<and> sv_boundary (relax_vert s vl i ! j) = sv_boundary (vl ! j)
   \<and> sv_neighbors (relax_vert s vl i ! j) = sv_neighbors (vl ! j)
   \<and> sv_ls (relax_vert s vl i ! j) = sv_ls (vl ! j)"
proof (cases "j = i \<and> i < length vl")
  case True
  then show ?thesis
    by (simp add: relax_vert_def Let_def split: prod.splits)
next
  case False
  then have "relax_vert s vl i ! j = vl ! j"
    by (auto simp add: relax_vert_def Let_def list_update_beyond split: prod.splits)
  then show ?thesis by simp
qed

lemma relax_tot_boundary:
  "sv_boundary sv1 \<Longrightarrow>
   snd (fold (\<lambda>n (uv, tot).
               let sv2 = vl ! n
               in if sv_boundary sv1 \<and> \<not> sv_boundary sv2 then (uv, tot)
                  else ((fst uv + fst (sv_uv sv2), snd uv + snd (sv_uv sv2)), tot + 1))
             ns (uv0, tot0 :: real))
   = tot0 + real (length (filter (\<lambda>n. sv_boundary (vl ! n)) ns))"
  by (induction ns arbitrary: uv0 tot0) (simp_all add: Let_def)

lemma relax_vert_skips:
  assumes that: "relax_skips vl i"
  shows "relax_vert s vl i = vl"
proof (cases "sv_pinned (vl ! i)")
  case True
  then show ?thesis by (simp add: relax_vert_def)
next
  case False
  with that have b: "sv_boundary (vl ! i)"
    and n: "length (filter (\<lambda>n. sv_boundary (vl ! n)) (sv_neighbors (vl ! i))) < 2"
    by (simp_all add: relax_skips_def)
  show ?thesis
    using relax_tot_boundary [OF b, of vl "sv_neighbors (vl ! i)" "(0, 0)" 0] n
    by (simp add: relax_vert_def Let_def case_prod_beta)
qed

lemma relax_skips_preserved: "relax_skips (relax_vert s vl i) j = relax_skips vl j"
  by (simp add: relax_skips_def relax_vert_frame)

lemma relax_fold_skips:
  "relax_skips vl j \<Longrightarrow> fold (\<lambda>i vl. relax_vert s vl i) ixs vl ! j = vl ! j"
proof (induction ixs arbitrary: vl)
  case Nil
  then show ?case by simp
next
  case (Cons i ixs)
  have "relax_vert s vl i ! j = vl ! j"
    using Cons.prems by (cases "i = j") (simp_all add: relax_vert_skips relax_vert_nth_other)
  moreover have "relax_skips (relax_vert s vl i) j"
    using Cons.prems by (simp add: relax_skips_preserved)
  ultimately show ?case using Cons.IH by simp
qed

lemma relax_sum_boundary:
  "sv_boundary sv1 \<Longrightarrow>
   fold (\<lambda>n (uv, tot).
               if sv_boundary sv1 \<and> \<not> sv_boundary (vl ! n) then (uv, tot)
               else ((fst uv + fst (sv_uv (vl ! n)), snd uv + snd (sv_uv (vl ! n))), tot + 1))
             ns (uv0, tot0 :: real)
   = ((fst uv0 + sum_list (map (\<lambda>n. fst (sv_uv (vl ! n))) (filter (\<lambda>n. sv_boundary (vl ! n)) ns)),
       snd uv0 + sum_list (map (\<lambda>n. snd (sv_uv (vl ! n))) (filter (\<lambda>n. sv_boundary (vl ! n)) ns))),
      tot0 + real (length (filter (\<lambda>n. sv_boundary (vl ! n)) ns)))"
  by (induction ns arbitrary: uv0 tot0) (simp_all add: Let_def)

lemma relax_fold_other:
  "i \<notin> set ixs \<Longrightarrow> fold (\<lambda>j vl. relax_vert s vl j) ixs vl ! i = vl ! i"
  by (induction ixs arbitrary: vl) (auto simp add: relax_vert_nth_other)

lemma relax_fold_frame:
  "sv_pinned (fold (\<lambda>j vl. relax_vert s vl j) ixs vl ! j) = sv_pinned (vl ! j)
   \<and> sv_boundary (fold (\<lambda>j vl. relax_vert s vl j) ixs vl ! j) = sv_boundary (vl ! j)
   \<and> sv_neighbors (fold (\<lambda>j vl. relax_vert s vl j) ixs vl ! j) = sv_neighbors (vl ! j)"
  by (induction ixs arbitrary: vl) (simp_all add: relax_vert_frame)

lemma relax_fold_length:
  "length (fold (\<lambda>j vl. relax_vert s vl j) ixs vl) = length vl"
  by (induction ixs arbitrary: vl) (simp_all add: relax_vert_length)

lemma relax_vert_boundary_average:
  assumes i: "i < length vl" and np: "\<not> sv_pinned (vl ! i)" and b: "sv_boundary (vl ! i)"
    and two: "2 \<le> length (boundary_neighbors vl i)"
  shows "relax_vert str vl i ! i
         = (vl ! i)\<lparr>sv_uv := relax_toward str (sv_uv (vl ! i))
                                (uv_average vl (boundary_neighbors vl i))\<rparr>"
proof -
  from two have ne: "sv_neighbors (vl ! i) \<noteq> []"
    by (auto simp add: boundary_neighbors_def)
  show ?thesis
    using i np ne two
    by (simp add: relax_vert_def Let_def relax_sum_boundary [OF b] boundary_neighbors_def
          uv_average_def relax_toward_def)
qed

lemma simple_relax_nth:
  assumes i: "i < length (verts solver)"
  shows "verts (fst (uvsolver_simple_relax solver bm str)) ! i
         = relax_vert str (relax_reached str (verts solver) i) i ! i"
proof -
  let ?F = "\<lambda>j vl. relax_vert str vl j"
  let ?n = "length (verts solver)"
  have "[0..<?n] = [0..<i] @ i # [Suc i..<?n]"
    using i by (metis le0 upt_conv_Cons upt_add_eq_append le_add_diff_inverse less_imp_le_nat)
  then have "fold ?F [0..<?n] (verts solver)
             = fold ?F [Suc i..<?n] (?F i (fold ?F [0..<i] (verts solver)))"
    by simp
  moreover have "i \<notin> set [Suc i..<?n]" by simp
  ultimately show ?thesis
    by (simp add: uvsolver_simple_relax_def Let_def relax_reached_def relax_fold_other)
qed

text \<open>
  Claim C7, as amended.  The neighbour-averaging pass leaves every pinned solver vertex
  as it is.  A boundary vertex is left as it is when fewer than two of its neighbours
  are boundary vertices.  A boundary vertex that is not pinned and has at least two
  boundary neighbours is moved: its new coordinates lie the fraction \<open>str\<close> of the way
  from its coordinates to the average of its boundary neighbours, taken at the
  coordinates they have when the pass reaches the vertex; nothing else of the vertex
  changes.
\<close>

theorem simple_relax_pinned_and_boundary:
  "(sv_pinned (verts solver ! i)
      \<longrightarrow> verts (fst (uvsolver_simple_relax solver bm str)) ! i = verts solver ! i)
   \<and> (sv_boundary (verts solver ! i) \<and> length (boundary_neighbors (verts solver) i) < 2
      \<longrightarrow> verts (fst (uvsolver_simple_relax solver bm str)) ! i = verts solver ! i)
   \<and> (i < length (verts solver) \<and> \<not> sv_pinned (verts solver ! i)
      \<and> sv_boundary (verts solver ! i) \<and> 2 \<le> length (boundary_neighbors (verts solver) i)
      \<longrightarrow> verts (fst (uvsolver_simple_relax solver bm str)) ! i
          = (verts solver ! i)\<lparr>sv_uv :=
               relax_toward str (sv_uv (verts solver ! i))
                 (uv_average (relax_reached str (verts solver) i)
                    (boundary_neighbors (verts solver) i))\<rparr>)"
proof (intro conjI impI)
  assume "sv_pinned (verts solver ! i)"
  then show "verts (fst (uvsolver_simple_relax solver bm str)) ! i = verts solver ! i"
    using relax_fold_skips [of "verts solver" i str "[0..<length (verts solver)]"]
    by (simp add: uvsolver_simple_relax_def relax_skips_def Let_def)
next
  assume "sv_boundary (verts solver ! i) \<and> length (boundary_neighbors (verts solver) i) < 2"
  then show "verts (fst (uvsolver_simple_relax solver bm str)) ! i = verts solver ! i"
    using relax_fold_skips [of "verts solver" i str "[0..<length (verts solver)]"]
    by (simp add: uvsolver_simple_relax_def relax_skips_def Let_def boundary_neighbors_def)
next
  assume a: "i < length (verts solver) \<and> \<not> sv_pinned (verts solver ! i)
      \<and> sv_boundary (verts solver ! i) \<and> 2 \<le> length (boundary_neighbors (verts solver) i)"
  let ?vl = "relax_reached str (verts solver) i"
  have same: "?vl ! i = verts solver ! i"
    by (simp add: relax_reached_def relax_fold_other)
  have len: "length ?vl = length (verts solver)"
    by (simp add: relax_reached_def relax_fold_length)
  have bn: "boundary_neighbors ?vl i = boundary_neighbors (verts solver) i"
    by (simp add: boundary_neighbors_def relax_reached_def relax_fold_frame relax_fold_other)
  have "relax_vert str ?vl i ! i
        = (?vl ! i)\<lparr>sv_uv := relax_toward str (sv_uv (?vl ! i))
                                (uv_average ?vl (boundary_neighbors ?vl i))\<rparr>"
    using a by (intro relax_vert_boundary_average) (simp_all add: same len bn)
  then show "verts (fst (uvsolver_simple_relax solver bm str)) ! i
          = (verts solver ! i)\<lparr>sv_uv :=
               relax_toward str (sv_uv (verts solver ! i))
                 (uv_average (relax_reached str (verts solver) i)
                    (boundary_neighbors (verts solver) i))\<rparr>"
    using a by (simp add: simple_relax_nth same bn)
qed

theorem simple_relax_pinned_and_boundary_witness:
  "sv_pinned (verts pinned_solver ! 0)
   \<and> verts (fst (uvsolver_simple_relax pinned_solver hexagon_bm 1)) ! 0 = verts pinned_solver ! 0
   \<and> sv_boundary (verts boundary_solver ! 1)
   \<and> length (boundary_neighbors (verts boundary_solver) 1) = 1
   \<and> verts (fst (uvsolver_simple_relax boundary_solver hexagon_bm 1)) ! 1
       = verts boundary_solver ! 1
   \<and> \<not> sv_pinned (verts boundary_solver ! 0)
   \<and> sv_boundary (verts boundary_solver ! 0)
   \<and> boundary_neighbors (verts boundary_solver) 0 = [1, 2]
   \<and> uv_average (relax_reached 1 (verts boundary_solver) 0) [1, 2] = (1 / 2, 1 / 2)
   \<and> verts (fst (uvsolver_simple_relax boundary_solver hexagon_bm 1)) ! 0
       = (verts boundary_solver ! 0)\<lparr>sv_uv := (1 / 2, 1 / 2)\<rparr>"
  using simple_relax_pinned_and_boundary
          [where solver = pinned_solver and i = 0 and bm = hexagon_bm and str = 1]
        simple_relax_pinned_and_boundary
          [where solver = boundary_solver and i = 1 and bm = hexagon_bm and str = 1]
        simple_relax_pinned_and_boundary
          [where solver = boundary_solver and i = 0 and bm = hexagon_bm and str = 1]
  by (simp add: pinned_solver_def boundary_solver_def uvsolver_new_def boundary_vert_def
        boundary_neighbors_def uv_average_def relax_reached_def relax_toward_def)

text \<open>
  Claim C7 as stated fails for boundary vertices: the boundary vertex 0 of
  \<open>boundary_solver\<close>, which is not pinned and has two boundary neighbours, is moved
  from \<open>(0, 0)\<close> to \<open>(1/2, 1/2)\<close> by the pass at strength 1.
\<close>

theorem simple_relax_boundary_counterexample:
  "sv_boundary (verts boundary_solver ! 0)
   \<and> sv_uv (verts boundary_solver ! 0) = (0, 0)
   \<and> sv_uv (verts (fst (uvsolver_simple_relax boundary_solver hexagon_bm 1)) ! 0) = (1 / 2, 1 / 2)"
  by (simp add: uvsolver_simple_relax_def boundary_solver_def uvsolver_new_def boundary_vert_def
        relax_vert_def Let_def upt_rec)

section \<open>UV relaxation solver: the solver step\<close>

text \<open>
  Claim C9.  With a negative strength, a solver step is the neighbour-averaging pass at
  step size \<open>|strength|\<close> and nothing else: it returns 0 with the solver and the mesh
  that the pass leaves, so no constraint is evaluated or corrected; the constraints and
  the triangles of the solver are as before.
\<close>

theorem solve_step_negative_strength:
  "strength solver < 0 \<Longrightarrow>
     uvsolver_solve_step solver bm =
       (0, fst (uvsolver_simple_relax solver bm \<bar>strength solver\<bar>),
           snd (uvsolver_simple_relax solver bm \<bar>strength solver\<bar>))
     \<and> constraints (fst (snd (uvsolver_solve_step solver bm))) = constraints solver
     \<and> tris (fst (snd (uvsolver_solve_step solver bm))) = tris solver"
  by (simp add: uvsolver_solve_step_def uvsolver_simple_relax_def Let_def split: prod.splits)

theorem solve_step_negative_strength_witness:
  "strength negative_solver < 0
   \<and> fst (uvsolver_solve_step negative_solver hexagon_bm) = 0
   \<and> fst (snd (uvsolver_solve_step negative_solver hexagon_bm))
       = fst (uvsolver_simple_relax negative_solver hexagon_bm 1)
   \<and> sv_uv (verts (fst (snd (uvsolver_solve_step negative_solver hexagon_bm))) ! 0) = (1 / 2, 1 / 2)"
proof -
  have s: "strength negative_solver < 0" "\<bar>strength negative_solver\<bar> = 1"
    by (simp_all add: negative_solver_def)
  have u: "sv_uv (verts (fst (uvsolver_simple_relax negative_solver hexagon_bm 1)) ! 0) = (1 / 2, 1 / 2)"
    by (simp add: uvsolver_simple_relax_def negative_solver_def boundary_solver_def
          uvsolver_new_def boundary_vert_def relax_vert_def Let_def upt_rec)
  show ?thesis
    using solve_step_negative_strength [where solver = negative_solver and bm = hexagon_bm, OF s(1)]
          s u
    by simp
qed

section \<open>UV relaxation solver: constraint guards\<close>

lemma eval_constraint_frame:
  "verts (snd (uvsolver_eval_constraint s con)) = verts s
   \<and> constraints (snd (uvsolver_eval_constraint s con)) = constraints s
   \<and> strength (snd (uvsolver_eval_constraint s con)) = strength s"
  by (simp add: uvsolver_eval_constraint_def Let_def split: con_type.splits option.splits)

lemma uv_restore: "uv_set j (uv_get j uv) (uv_add j d uv) = uv"
  by (cases uv) simp

lemma vert_uv_restore:
  "(vert_uv_add sv j d vl)[sv := (vert_uv_add sv j d vl ! sv)
       \<lparr>sv_uv := uv_set j (uv_get j (sv_uv (vl ! sv))) (sv_uv (vert_uv_add sv j d vl ! sv))\<rparr>] = vl"
proof (cases "sv < length vl")
  case True
  then show ?thesis
    by (simp add: vert_uv_add_def uv_restore list_update_same_conv)
next
  case False
  then show ?thesis
    by (simp add: vert_uv_add_def list_update_beyond)
qed

lemma gradient_coord_verts:
  "verts (fst (gradient_coord con r1 i j st)) = verts (fst st)"
proof -
  obtain solver gs totg totw where st: "st = (solver, gs, totg, totw)"
    by (cases st) auto
  let ?sv = "con_vs con ! i"
  let ?s1 = "solver\<lparr>verts := vert_uv_add ?sv j df (verts solver)\<rparr>"
  have v2: "verts (snd (uvsolver_eval_constraint ?s1 con)) = vert_uv_add ?sv j df (verts solver)"
    using eval_constraint_frame [of ?s1 con] by simp
  show ?thesis
    using vert_uv_restore [of ?sv j df "verts solver"]
    by (simp add: gradient_coord_def st Let_def case_prod_beta v2)
qed

lemma gradient_inner_verts:
  "verts (fst (fold (gradient_coord con r1 i) js st)) = verts (fst st)"
  by (induction js arbitrary: st) (simp_all add: gradient_coord_verts)

lemma gradient_outer_verts:
  "verts (fst (fold (\<lambda>i st. fold (gradient_coord con r1 i) js st) ixs st)) = verts (fst st)"
  by (induction ixs arbitrary: st) (simp_all add: gradient_inner_verts)

lemma constraint_gradient_verts:
  "verts (fst (constraint_gradient s con r1)) = verts s"
  unfolding constraint_gradient_def
  using gradient_outer_verts [of con r1 "[0, 1]" "[0..<length (con_vs con)]" "(s, con_gs con, 0, 0)"]
  by (simp add: comp_def)

lemma solve_constraint_skip:
  "\<bar>fst (uvsolver_eval_constraint (st_solver st) (constraints (st_solver st) ! c))\<bar> < eval_limit
   \<Longrightarrow> verts (st_solver (solve_constraint c st)) = verts (st_solver st)
       \<and> st_divisors (solve_constraint c st) = st_divisors st"
  using eval_constraint_frame [of "st_solver st" "constraints (st_solver st) ! c"]
  by (simp add: solve_constraint_def Let_def case_prod_beta)

lemma solve_constraint_divisor:
  "st_divisors (solve_constraint c st) = st_divisors st
     \<and> verts (st_solver (solve_constraint c st)) = verts (st_solver st)
   \<or> (\<exists>d. eval_limit \<le> d \<and> st_divisors (solve_constraint c st) = st_divisors st @ [d])"
  using eval_constraint_frame [of "st_solver st" "constraints (st_solver st) ! c"]
        constraint_gradient_verts
          [of "snd (uvsolver_eval_constraint (st_solver st) (constraints (st_solver st) ! c))"
              "constraints (st_solver st) ! c"
              "fst (uvsolver_eval_constraint (st_solver st) (constraints (st_solver st) ! c))"]
  by (simp add: solve_constraint_def Let_def case_prod_beta)

lemma solve_constraints_divisors_fold:
  "\<forall>d \<in> set (st_divisors st). eval_limit \<le> d
   \<Longrightarrow> \<forall>d \<in> set (st_divisors (fold solve_constraint cs st)). eval_limit \<le> d"
proof (induction cs arbitrary: st)
  case Nil
  then show ?case by simp
next
  case (Cons c cs)
  have "\<forall>d \<in> set (st_divisors (solve_constraint c st)). eval_limit \<le> d"
    using solve_constraint_divisor [of c st] Cons.prems by auto
  then show ?case using Cons.IH by simp
qed

text \<open>
  Claim C8.  In the loop over the constraints of a solver step, a constraint whose
  residual is below \<open>eval_limit = 1e-5\<close> in absolute value leaves every solver vertex
  as it is and divides by no \<open>totg\<close>; for every constraint, either no division by
  \<open>totg\<close> takes place and every solver vertex is left as it is, or the division is by a
  \<open>totg\<close> of at least \<open>1e-5\<close>; and every \<open>totg\<close> that the whole loop divides by is at
  least \<open>1e-5\<close>.
\<close>

theorem solve_step_guards:
  "(\<bar>fst (uvsolver_eval_constraint (st_solver st) (constraints (st_solver st) ! c))\<bar> < eval_limit
      \<longrightarrow> verts (st_solver (solve_constraint c st)) = verts (st_solver st)
        \<and> st_divisors (solve_constraint c st) = st_divisors st)
   \<and> (st_divisors (solve_constraint c st) = st_divisors st
        \<and> verts (st_solver (solve_constraint c st)) = verts (st_solver st)
      \<or> (\<exists>d. eval_limit \<le> d \<and> st_divisors (solve_constraint c st) = st_divisors st @ [d]))
   \<and> (\<forall>d \<in> set (st_divisors (solve_constraints solver)). eval_limit \<le> d)"
  using solve_constraint_skip [of st c] solve_constraint_divisor [of c st]
        solve_constraints_divisors_fold
          [of "\<lparr>st_solver = solver, st_error = 0, st_totcon = 0, st_divisors = []\<rparr>"
              "[0..<length (constraints solver)]"]
  by (simp add: solve_constraints_def)

theorem solve_step_guards_witness:
  "\<bar>fst (uvsolver_eval_constraint settled_solver (constraints settled_solver ! 0))\<bar> < eval_limit
   \<and> verts (st_solver (solve_constraint 0
         \<lparr>st_solver = settled_solver, st_error = 0, st_totcon = 0, st_divisors = []\<rparr>))
       = verts settled_solver
   \<and> st_divisors (solve_constraints area_solver) = [1048576]
   \<and> eval_limit \<le> 1048576"
proof -
  have d: "st_divisors (solve_constraints area_solver) = [1048576]"
    by (simp add: solve_constraints_def area_solver_def uvsolver_new_def free_vert_def
          area_con_def Let_def solve_constraint_def uvsolver_eval_constraint_def
          area_tri_signed_v2_db_def eval_limit_def constraint_gradient_def gradient_coord_def
          upt_rec vert_uv_add_def df_def uvsolver_vert_weight_def apply_correction_def
          CON_MAX_VERTS_def)
  have r: "\<bar>fst (uvsolver_eval_constraint settled_solver (constraints settled_solver ! 0))\<bar>
             < eval_limit"
    by (simp add: settled_solver_def area_solver_def uvsolver_new_def area_con_def
          uvsolver_eval_constraint_def eval_limit_def Let_def)
  show ?thesis
    using solve_step_guards
            [where st = "\<lparr>st_solver = settled_solver, st_error = 0, st_totcon = 0,
                              st_divisors = []\<rparr>"
               and c = 0 and solver = area_solver] d r
    by simp
qed

section \<open>Attribute-layer manager\<close>

lemma layer_index_from_none:
  "(layer_index_from P xs i = - 1) = (\<forall>l \<in> set xs. \<not> P l)"
  by (induction xs arbitrary: i) auto

lemma layer_index_from_range:
  "\<exists>l \<in> set xs. P l \<Longrightarrow>
   \<exists>k < length xs. layer_index_from P xs i = int (i + k) \<and> P (xs ! k)"
proof (induction xs arbitrary: i)
  case Nil
  then show ?case by simp
next
  case (Cons x xs)
  show ?case
  proof (cases "P x")
    case True
    then have "layer_index_from P (x # xs) i = int (i + 0) \<and> P ((x # xs) ! 0)" by simp
    then show ?thesis by blast
  next
    case False
    with Cons.prems have "\<exists>l \<in> set xs. P l" by simp
    from Cons.IH [OF this, of "Suc i"] obtain k where
      k: "k < length xs" "layer_index_from P xs (Suc i) = int (Suc i + k)" "P (xs ! k)"
      by blast
    with False have "Suc k < length (x # xs)
        \<and> layer_index_from P (x # xs) i = int (i + Suc k) \<and> P ((x # xs) ! Suc k)"
      by simp
    then show ?thesis by blast
  qed
qed

lemma layer_index_from_neg:
  "(layer_index_from P xs i < 0) = (\<forall>l \<in> set xs. \<not> P l)"
proof (cases "\<exists>l \<in> set xs. P l")
  case True
  from layer_index_from_range [OF True, of i] obtain k where
    "layer_index_from P xs i = int (i + k)" by blast
  with True show ?thesis by auto
next
  case False
  then have "layer_index_from P xs i = - 1" by (simp add: layer_index_from_none)
  with False show ?thesis by simp
qed

lemma layer_index_from_cong:
  "map P xs = map Q ys \<Longrightarrow> layer_index_from P xs i = layer_index_from Q ys i"
proof (induction xs arbitrary: ys i)
  case Nil
  then show ?case by simp
next
  case (Cons x xs)
  then obtain y ys' where ys: "ys = y # ys'" by (cases ys) auto
  with Cons.prems have "P x = Q y" "map P xs = map Q ys'" by simp_all
  with Cons.IH [of ys' "Suc i"] ys show ?case by simp
qed

lemma named_index_keys:
  "layer_keys a = layer_keys b \<Longrightarrow>
   CustomData_get_named_layer_index a t n = CustomData_get_named_layer_index b t n"
  unfolding CustomData_get_named_layer_index_def layer_keys_def
  by (rule layer_index_from_cong) (auto simp add: list_eq_iff_nth_eq)

lemma type_index_keys:
  "layer_keys a = layer_keys b \<Longrightarrow>
   CustomData_get_layer_index a t = CustomData_get_layer_index b t"
  unfolding CustomData_get_layer_index_def layer_keys_def
  by (rule layer_index_from_cong) (auto simp add: list_eq_iff_nth_eq)

lemma named_index_neg: 
  "(CustomData_get_named_layer_index data t n < 0) = ((t, n) \<notin> set (layer_keys data))"
  by (auto simp add: CustomData_get_named_layer_index_def layer_index_from_neg layer_keys_def)

lemma type_index_neg: 
  "(CustomData_get_layer_index data t < 0) = (t \<notin> fst ` set (layer_keys data))"
  by (auto simp add: CustomData_get_layer_index_def layer_index_from_neg layer_keys_def image_iff)

lemma type_index_none: 
  "(CustomData_get_layer_index data t = - 1) = (t \<notin> fst ` set (layer_keys data))"
  by (auto simp add: CustomData_get_layer_index_def layer_index_from_none layer_keys_def image_iff)

lemma offsets_from_keys: "layer_keys (offsets_from sz xs off) = layer_keys xs"
  by (induction xs arbitrary: off) (simp_all add: layer_keys_def)

lemma offsets_from_length: "length (offsets_from sz xs off) = length xs"
  by (induction xs arbitrary: off) simp_all

lemma add_layer_length:
  "length (CustomData_add_layer_named data t n) = Suc (length data)"
proof -
  have "length (takeWhile Q xs) + length (dropWhile Q xs) = length xs"
    for Q :: "CustomDataLayer \<Rightarrow> bool" and xs
    by (induction xs) auto
  from this [of "\<lambda>l. t < cdl_type l" "rev data"] show ?thesis
    by (simp add: CustomData_add_layer_named_def)
qed

lemma add_layer_keys:
  "set (layer_keys (CustomData_add_layer_named data t n)) = insert (t, n) (set (layer_keys data))"
proof -
  have "set (dropWhile (\<lambda>l. t < cdl_type l) (rev data)) \<union> set (takeWhile (\<lambda>l. t < cdl_type l) (rev data))
        = set data"
    by (metis Un_commute set_append set_rev takeWhile_dropWhile_id)
  then show ?thesis
    by (auto simp add: CustomData_add_layer_named_def layer_keys_def)
qed

lemma bm_add_named_length: "length (BM_data_layer_add_named K data t n) = Suc (length data)"
  by (simp add: BM_data_layer_add_named_def CustomData_update_offsets_def offsets_from_length
        add_layer_length)

lemma bm_add_named_keys:
  "set (layer_keys (BM_data_layer_add_named K data t n)) = insert (t, n) (set (layer_keys data))"
  by (simp add: BM_data_layer_add_named_def CustomData_update_offsets_def offsets_from_keys
        add_layer_keys)

lemma update_flag_keys:
  "layer_keys (data[i := (data ! i)\<lparr>cdl_temporary := b\<rparr>]) = layer_keys data"
proof (cases "i < length data")
  case True
  then have "(map (\<lambda>l. (cdl_type l, cdl_name l)) data)[i := (cdl_type (data ! i), cdl_name (data ! i))]
             = map (\<lambda>l. (cdl_type l, cdl_name l)) data"
    by (simp add: list_update_same_conv)
  then show ?thesis by (simp add: layer_keys_def map_update)
next
  case False
  then show ?thesis by (simp add: list_update_beyond)
qed

lemma set_layer_temporary_frame:
  "layer_keys (set_layer_temporary data i) = layer_keys data
   \<and> length (set_layer_temporary data i) = length data"
  by (simp add: set_layer_temporary_def update_flag_keys)

lemma ensure_req_flag_frame:
  "layer_keys (ensure_req_flag req data) = layer_keys data
   \<and> length (ensure_req_flag req data) = length data"
  by (simp add: ensure_req_flag_def Let_def update_flag_keys)

lemma fold_req_flag_frame:
  "layer_keys (fold ensure_req_flag reqs data) = layer_keys data
   \<and> length (fold ensure_req_flag reqs data) = length data"
  by (induction reqs arbitrary: data) (simp_all add: ensure_req_flag_frame)

lemma ensure_req_added_frame:
  "set (layer_keys data) \<subseteq> set (layer_keys (ensure_req_added req data))
   \<and> length data \<le> length (ensure_req_added req data)
   \<and> (\<not> req_layer_index data req < 0 \<longrightarrow> ensure_req_added req data = data)"
  by (auto simp add: ensure_req_added_def add_layer_keys add_layer_length)

lemma fold_req_added_frame:
  "set (layer_keys data) \<subseteq> set (layer_keys (fold ensure_req_added reqs data))
   \<and> length data \<le> length (fold ensure_req_added reqs data)"
proof (induction reqs arbitrary: data)
  case Nil
  show ?case by simp
next
  case (Cons req reqs)
  from Cons.IH [of "ensure_req_added req data"] ensure_req_added_frame [of data req]
  show ?case by auto
qed

lemma fold_req_added_present:
  "\<forall>req \<in> set reqs. \<not> req_layer_index data req < 0 \<Longrightarrow> fold ensure_req_added reqs data = data"
  by (induction reqs) (simp_all add: ensure_req_added_def)

lemma node_vlayers_present_mono:
  "set (layer_keys a) \<subseteq> set (layer_keys b) \<Longrightarrow> node_vlayers_present K a
   \<Longrightarrow> node_vlayers_present K b"
  using named_index_neg [of a "CD_PROP_INT32 K" dyntopop_node_idx_layer_id]
        named_index_neg [of b "CD_PROP_INT32 K" dyntopop_node_idx_layer_id]
  by (auto simp add: node_vlayers_present_def CustomData_has_layer_def type_index_none)

lemma type_index_neg_none:
  "(CustomData_get_layer_index data t < 0) = (CustomData_get_layer_index data t = - 1)"
  by (simp add: type_index_neg type_index_none)

lemma get_templayer_offset:
  assumes "0 \<le> CustomData_get_named_layer_index (bm_vdata ss) t n"
  shows "SCULPT_dyntopo_get_templayer ss t n
         = cdl_offset (bm_vdata ss ! nat (CustomData_get_named_layer_index (bm_vdata ss) t n))
         \<and> nat (CustomData_get_named_layer_index (bm_vdata ss) t n) < length (bm_vdata ss)"
proof -
  let ?d = "bm_vdata ss"
  let ?li = "CustomData_get_named_layer_index ?d t n"
  from assms have ex: "\<exists>l \<in> set ?d. cdl_type l = t \<and> cdl_name l = n"
    using layer_index_from_neg [of "\<lambda>l. cdl_type l = t \<and> cdl_name l = n" ?d 0]
    by (auto simp add: CustomData_get_named_layer_index_def)
  from layer_index_from_range [OF ex, of 0] obtain k where
    k: "k < length ?d" "?li = int k" "cdl_type (?d ! k) = t"
    by (auto simp add: CustomData_get_named_layer_index_def)
  from ex have "CustomData_get_layer_index ?d t \<noteq> - 1"
    by (auto simp add: CustomData_get_layer_index_def layer_index_from_none)
  with k assms show ?thesis
    by (simp add: SCULPT_dyntopo_get_templayer_def CustomData_get_n_offset_def Let_def)
qed


lemma update_flag_offsets:
  "layer_offsets (data[i := (data ! i)\<lparr>cdl_temporary := b\<rparr>]) = layer_offsets data"
proof (cases "i < length data")
  case True
  then have "(map cdl_offset data)[i := cdl_offset (data ! i)] = map cdl_offset data"
    by (simp add: list_update_same_conv)
  then show ?thesis by (simp add: layer_offsets_def map_update)
next
  case False
  then show ?thesis by (simp add: list_update_beyond)
qed

lemma set_layer_temporary_offsets:
  "layer_offsets (set_layer_temporary data i) = layer_offsets data"
  by (simp add: set_layer_temporary_def update_flag_offsets)

lemma ensure_req_flag_offsets:
  "layer_offsets (ensure_req_flag req data) = layer_offsets data"
  by (simp add: ensure_req_flag_def Let_def update_flag_offsets)

lemma fold_req_flag_offsets:
  "layer_offsets (fold ensure_req_flag reqs data) = layer_offsets data"
  by (induction reqs arbitrary: data) (simp_all add: ensure_req_flag_offsets)

lemma keys_types: "layer_keys a = layer_keys b \<Longrightarrow> map cdl_type a = map cdl_type b"
proof -
  assume "layer_keys a = layer_keys b"
  then have "map fst (layer_keys a) = map fst (layer_keys b)" by simp
  then show ?thesis by (simp add: layer_keys_def comp_def)
qed

lemma block_offset_cong:
  assumes "map cdl_type a = map cdl_type b"
  shows "layer_block_offset K a i = layer_block_offset K b i"
proof -
  have "map (\<lambda>l. cd_sizeof K (cdl_type l)) (take i a) = map (cd_sizeof K) (take i (map cdl_type a))"
    by (simp add: take_map)
  also have "\<dots> = map (cd_sizeof K) (take i (map cdl_type b))" by (simp only: assms)
  also have "\<dots> = map (\<lambda>l. cd_sizeof K (cdl_type l)) (take i b)" by (simp add: take_map)
  finally show ?thesis by (simp add: layer_block_offset_def)
qed

lemma offsets_current_cong:
  assumes k: "layer_keys a = layer_keys b" and o: "layer_offsets a = layer_offsets b"
  shows "offsets_current K a = offsets_current K b"
proof -
  from k have t: "map cdl_type a = map cdl_type b" by (rule keys_types)
  then have "length (map cdl_type a) = length (map cdl_type b)" by simp
  then have l: "length a = length b" by simp
  have "layer_block_offset K a = layer_block_offset K b"
    using block_offset_cong [OF t] by (intro ext)
  with o l show ?thesis by (simp add: offsets_current_def)
qed

lemma offsets_from_offsets:
  "layer_offsets (offsets_from sz xs off)
   = map (\<lambda>i. int (off + sum_list (map (\<lambda>l. sz (cdl_type l)) (take i xs)))) [0..<length xs]"
proof (induction xs arbitrary: off)
  case Nil
  show ?case by (simp add: layer_offsets_def)
next
  case (Cons x xs)
  have "[0..<length (x # xs)] = 0 # map Suc [0..<length xs]"
    by (simp add: upt_conv_Cons map_Suc_upt del: upt_Suc)
  then show ?case
    using Cons.IH [of "off + sz (cdl_type x)"]
    by (simp add: layer_offsets_def comp_def add.assoc del: upt_Suc)
qed

lemma update_offsets_current: "offsets_current K (CustomData_update_offsets K data)"
proof -
  let ?d = "CustomData_update_offsets K data"
  have t: "map cdl_type ?d = map cdl_type data"
    by (rule keys_types) (simp add: CustomData_update_offsets_def offsets_from_keys)
  have "layer_block_offset K ?d = layer_block_offset K data"
    using block_offset_cong [OF t] by (intro ext)
  then show ?thesis
    by (simp add: offsets_current_def)
       (simp add: CustomData_update_offsets_def offsets_from_offsets offsets_from_length
          layer_block_offset_def)
qed

lemma bm_add_named_current: "offsets_current K (BM_data_layer_add_named K data t n)"
  by (simp add: BM_data_layer_add_named_def update_offsets_current)

lemma layers_ensure_present_frame:
  assumes "\<forall>req \<in> set reqs. \<not> req_layer_index data req < 0"
  shows "layer_keys (BM_data_layers_ensure K data reqs) = layer_keys data
     \<and> layer_offsets (BM_data_layers_ensure K data reqs) = layer_offsets data
     \<and> length (BM_data_layers_ensure K data reqs) = length data"
  using assms
  by (simp add: BM_data_layers_ensure_def Let_def fold_req_added_present fold_req_flag_frame
        fold_req_flag_offsets)

lemma vlayers_reqs_present:
  "node_vlayers_present K data \<Longrightarrow>
   \<forall>req \<in> set [\<lparr>req_type = CD_PAINT_MASK K, req_name = None, req_temporary = False\<rparr>,
       \<lparr>req_type = CD_DYNTOPO_VERT K, req_name = None, req_temporary = True\<rparr>,
       \<lparr>req_type = CD_PROP_INT32 K, req_name = Some dyntopop_node_idx_layer_id,
        req_temporary = True\<rparr>]. \<not> req_layer_index data req < 0"
  by (simp add: node_vlayers_present_def CustomData_has_layer_def req_layer_index_def
        type_index_neg_none)

lemma flayers_reqs_present:
  "node_flayers_present K data \<Longrightarrow>
   \<forall>req \<in> set [\<lparr>req_type = CD_PROP_INT32 K, req_name = Some dyntopop_node_idx_layer_id,
                      req_temporary = True\<rparr>,
                     \<lparr>req_type = CD_PROP_FLOAT K, req_name = Some dyntopop_faces_areas_layer_id,
                      req_temporary = True\<rparr>]. \<not> req_layer_index data req < 0"
  by (simp add: node_flayers_present_def req_layer_index_def)

lemma node_layers_add_present_frame:
  assumes "node_layers_present K ss"
  shows "layer_keys (bm_vdata (SCULPT_dyntopo_node_layers_add K ss)) = layer_keys (bm_vdata ss)
     \<and> layer_offsets (bm_vdata (SCULPT_dyntopo_node_layers_add K ss)) = layer_offsets (bm_vdata ss)
     \<and> layer_keys (bm_pdata (SCULPT_dyntopo_node_layers_add K ss)) = layer_keys (bm_pdata ss)
     \<and> layer_offsets (bm_pdata (SCULPT_dyntopo_node_layers_add K ss)) = layer_offsets (bm_pdata ss)"
  using assms
    layers_ensure_present_frame [OF vlayers_reqs_present, of K "bm_vdata ss" K]
    layers_ensure_present_frame [OF flayers_reqs_present, of K "bm_pdata ss" K]
  by (simp add: SCULPT_dyntopo_node_layers_add_def Let_def set_layer_temporary_frame
        set_layer_temporary_offsets node_layers_present_def)

lemma req_present_keys:
  "(\<not> req_layer_index data req < 0)
   = (case req_name req of
        Some name \<Rightarrow> (req_type req, name) \<in> set (layer_keys data)
      | None \<Rightarrow> req_type req \<in> fst ` set (layer_keys data))"
  by (simp add: req_layer_index_def named_index_neg type_index_neg split: option.splits)

lemma req_present_mono:
  "set (layer_keys a) \<subseteq> set (layer_keys b) \<Longrightarrow> \<not> req_layer_index a req < 0
   \<Longrightarrow> \<not> req_layer_index b req < 0"
  by (auto simp add: req_present_keys split: option.splits)

lemma ensure_req_added_present: "\<not> req_layer_index (ensure_req_added req data) req < 0"
proof (cases "req_layer_index data req < 0")
  case True
  then show ?thesis
    by (simp add: req_present_keys ensure_req_added_def add_layer_keys split: option.splits)
next
  case False
  then show ?thesis by (simp add: ensure_req_added_def)
qed

lemma fold_req_added_all_present:
  "\<forall>req \<in> set reqs. \<not> req_layer_index (fold ensure_req_added reqs data) req < 0"
proof (induction reqs arbitrary: data)
  case Nil
  show ?case by simp
next
  case (Cons r reqs)
  have "\<not> req_layer_index (fold ensure_req_added reqs (ensure_req_added r data)) r < 0"
    using fold_req_added_frame [of "ensure_req_added r data" reqs]
          ensure_req_added_present [of r data]
          req_present_mono [of "ensure_req_added r data"
                              "fold ensure_req_added reqs (ensure_req_added r data)" r]
    by blast
  with Cons.IH [of "ensure_req_added r data"] show ?case by simp
qed

lemma layers_ensure_all_present:
  "\<forall>req \<in> set reqs. \<not> req_layer_index (BM_data_layers_ensure K data reqs) req < 0"
proof
  fix req assume r: "req \<in> set reqs"
  let ?d1 = "fold ensure_req_added reqs data"
  have "layer_keys (BM_data_layers_ensure K data reqs) = layer_keys ?d1"
    by (simp add: BM_data_layers_ensure_def Let_def fold_req_flag_frame
          CustomData_update_offsets_def offsets_from_keys)
  then have "set (layer_keys ?d1) \<subseteq> set (layer_keys (BM_data_layers_ensure K data reqs))"
    by simp
  from req_present_mono [OF this] fold_req_added_all_present [of reqs data] r
  show "\<not> req_layer_index (BM_data_layers_ensure K data reqs) req < 0" by blast
qed

lemma node_layers_add_present: "node_layers_present K (SCULPT_dyntopo_node_layers_add K ss)"
proof -
  let ?vl = "[\<lparr>req_type = CD_PAINT_MASK K, req_name = None, req_temporary = False\<rparr>,
       \<lparr>req_type = CD_DYNTOPO_VERT K, req_name = None, req_temporary = True\<rparr>,
       \<lparr>req_type = CD_PROP_INT32 K, req_name = Some dyntopop_node_idx_layer_id,
        req_temporary = True\<rparr>]"
  let ?fl = "[\<lparr>req_type = CD_PROP_INT32 K, req_name = Some dyntopop_node_idx_layer_id,
                      req_temporary = True\<rparr>,
                     \<lparr>req_type = CD_PROP_FLOAT K, req_name = Some dyntopop_faces_areas_layer_id,
                      req_temporary = True\<rparr>]"
  let ?v1 = "BM_data_layers_ensure K (bm_vdata ss) ?vl"
  let ?p1 = "BM_data_layers_ensure K (bm_pdata ss) ?fl"
  have v: "node_vlayers_present K ?v1"
    using layers_ensure_all_present [of ?vl K "bm_vdata ss"]
    by (simp add: node_vlayers_present_def CustomData_has_layer_def req_layer_index_def
          type_index_neg_none)
  have p: "node_flayers_present K ?p1"
    using layers_ensure_all_present [of ?fl K "bm_pdata ss"]
    by (simp add: node_flayers_present_def req_layer_index_def)
  have kv: "layer_keys (bm_vdata (SCULPT_dyntopo_node_layers_add K ss)) = layer_keys ?v1"
    and kp: "layer_keys (bm_pdata (SCULPT_dyntopo_node_layers_add K ss)) = layer_keys ?p1"
    by (simp_all add: SCULPT_dyntopo_node_layers_add_def Let_def set_layer_temporary_frame)
  have "node_vlayers_present K (bm_vdata (SCULPT_dyntopo_node_layers_add K ss))"
    using v node_vlayers_present_mono [of ?v1 "bm_vdata (SCULPT_dyntopo_node_layers_add K ss)" K] kv
    by simp
  moreover have "node_flayers_present K (bm_pdata (SCULPT_dyntopo_node_layers_add K ss))"
    using p named_index_keys [OF kp] by (simp add: node_flayers_present_def)
  ultimately show ?thesis by (simp add: node_layers_present_def)
qed


lemma named_index_nth:
  assumes "0 \<le> CustomData_get_named_layer_index d t n"
  shows "nat (CustomData_get_named_layer_index d t n) < length d
     \<and> cdl_type (d ! nat (CustomData_get_named_layer_index d t n)) = t
     \<and> cdl_name (d ! nat (CustomData_get_named_layer_index d t n)) = n"
proof -
  from assms have ex: "\<exists>l \<in> set d. cdl_type l = t \<and> cdl_name l = n"
    using layer_index_from_neg [of "\<lambda>l. cdl_type l = t \<and> cdl_name l = n" d 0]
    by (auto simp add: CustomData_get_named_layer_index_def)
  from layer_index_from_range [OF ex, of 0] obtain k where
    "k < length d" "CustomData_get_named_layer_index d t n = int k"
    "cdl_type (d ! k) = t \<and> cdl_name (d ! k) = n"
    by (auto simp add: CustomData_get_named_layer_index_def)
  then show ?thesis by simp
qed

lemma offsets_current_nth:
  "offsets_current K d \<Longrightarrow> i < length d \<Longrightarrow> cdl_offset (d ! i) = layer_block_offset K d i"
proof -
  assume c: "offsets_current K d" and i: "i < length d"
  from i have "cdl_offset (d ! i) = layer_offsets d ! i" by (simp add: layer_offsets_def)
  also from c have "\<dots> = map (layer_block_offset K d) [0..<length d] ! i"
    by (simp add: offsets_current_def)
  also from i have "\<dots> = layer_block_offset K d i" by simp
  finally show ?thesis .
qed

lemma keys_length: "layer_keys a = layer_keys b \<Longrightarrow> length a = length b"
proof -
  assume "layer_keys a = layer_keys b"
  then have "length (layer_keys a) = length (layer_keys b)" by simp
  then show ?thesis by (simp add: layer_keys_def)
qed

lemma ensure_templayer_absent:
  assumes a: "CustomData_get_named_layer_index (bm_vdata ss) t n < 0"
    and p: "node_layers_present K ss"
  shows "layer_keys (bm_vdata (SCULPT_dyntopo_ensure_templayer K ss t n))
           = layer_keys (BM_data_layer_add_named K (bm_vdata ss) t n)
     \<and> layer_offsets (bm_vdata (SCULPT_dyntopo_ensure_templayer K ss t n))
           = layer_offsets (BM_data_layer_add_named K (bm_vdata ss) t n)
     \<and> layer_keys (bm_pdata (SCULPT_dyntopo_ensure_templayer K ss t n)) = layer_keys (bm_pdata ss)
     \<and> layer_offsets (bm_pdata (SCULPT_dyntopo_ensure_templayer K ss t n))
           = layer_offsets (bm_pdata ss)"
proof -
  let ?ss1 = "ss\<lparr>bm_vdata := BM_data_layer_add_named K (bm_vdata ss) t n\<rparr>"
  let ?ss2 = "SCULPT_dyntopo_node_layers_add K ?ss1"
  have e: "SCULPT_dyntopo_ensure_templayer K ss t n
           = ?ss2\<lparr>bm_vdata := set_layer_temporary (bm_vdata ?ss2)
                                  (CustomData_get_named_layer_index (bm_vdata ?ss2) t n)\<rparr>"
    using a
    by (simp add: SCULPT_dyntopo_ensure_templayer_def SCULPT_dyntopo_node_layers_update_offsets_def
          Let_def)
  have "set (layer_keys (bm_vdata ss)) \<subseteq> set (layer_keys (bm_vdata ?ss1))"
    by (auto simp add: bm_add_named_keys)
  from node_vlayers_present_mono [OF this] p have "node_layers_present K ?ss1"
    by (simp add: node_layers_present_def)
  from node_layers_add_present_frame [OF this] show ?thesis
    by (simp add: e set_layer_temporary_frame set_layer_temporary_offsets)
qed

text \<open>
  Claim C5.  The sessions are those that have the node layers: the paint mask, the
  dyntopo vertex layer and the node index among the vertex layers, the node index and
  the face areas among the face layers.  \<open>SCULPT_dyntopo_node_layers_add\<close>, which the
  enable transition calls as soon as it has built \<open>ss->bm\<close>, leaves every session so
  (lemma \<open>node_layers_add_present\<close>), and the ensure operation keeps it so.  In such a
  session a first call of the ensure operation for an absent layer adds exactly one
  layer, the requested one, to the vertex layers and none to the face layers; a second
  call with the same type and name gives back the session unchanged, so it adds no
  layer; and the offset lookup gives the same offset after the first and after the
  second call.  That offset is the cached offset of the layer with the requested type
  and name, and it is the byte position of that layer in the vertex block, behind the
  layers before it; all cached offsets of the vertex layers are those of this layout.
\<close>

theorem ensure_templayer_idempotent:
  assumes "CustomData_get_named_layer_index (bm_vdata ss) t n < 0"
    and "node_layers_present K ss"
  shows "let ss1 = SCULPT_dyntopo_ensure_templayer K ss t n;
             ss2 = SCULPT_dyntopo_ensure_templayer K ss1 t n;
             li = nat (CustomData_get_named_layer_index (bm_vdata ss1) t n)
         in length (bm_vdata ss1) = length (bm_vdata ss) + 1
            \<and> length (bm_pdata ss1) = length (bm_pdata ss)
            \<and> set (layer_keys (bm_vdata ss1)) = insert (t, n) (set (layer_keys (bm_vdata ss)))
            \<and> layer_keys (bm_pdata ss1) = layer_keys (bm_pdata ss)
            \<and> ss2 = ss1
            \<and> length (bm_vdata ss2) = length (bm_vdata ss1) + 0
            \<and> length (bm_pdata ss2) = length (bm_pdata ss1)
            \<and> SCULPT_dyntopo_get_templayer ss2 t n = SCULPT_dyntopo_get_templayer ss1 t n
            \<and> li < length (bm_vdata ss1)
            \<and> cdl_type (bm_vdata ss1 ! li) = t
            \<and> cdl_name (bm_vdata ss1 ! li) = n
            \<and> SCULPT_dyntopo_get_templayer ss1 t n = cdl_offset (bm_vdata ss1 ! li)
            \<and> SCULPT_dyntopo_get_templayer ss1 t n = layer_block_offset K (bm_vdata ss1) li
            \<and> offsets_current K (bm_vdata ss1)
            \<and> node_layers_present K ss1"
proof -
  let ?s1 = "SCULPT_dyntopo_ensure_templayer K ss t n"
  let ?li = "nat (CustomData_get_named_layer_index (bm_vdata ?s1) t n)"
  let ?add = "BM_data_layer_add_named K (bm_vdata ss) t n"
  note f = ensure_templayer_absent [OF assms]
  from f have kv: "layer_keys (bm_vdata ?s1) = layer_keys ?add"
    and ov: "layer_offsets (bm_vdata ?s1) = layer_offsets ?add"
    and kp: "layer_keys (bm_pdata ?s1) = layer_keys (bm_pdata ss)"
    by simp_all
  have lv: "length (bm_vdata ?s1) = length (bm_vdata ss) + 1"
    using keys_length [OF kv] by (simp add: bm_add_named_length)
  have lp: "length (bm_pdata ?s1) = length (bm_pdata ss)"
    using keys_length [OF kp] .
  have sv: "set (layer_keys (bm_vdata ?s1)) = insert (t, n) (set (layer_keys (bm_vdata ss)))"
    by (simp add: kv bm_add_named_keys)
  then have present: "0 \<le> CustomData_get_named_layer_index (bm_vdata ?s1) t n"
    using named_index_neg [of "bm_vdata ?s1" t n] by auto
  then have idem: "SCULPT_dyntopo_ensure_templayer K ?s1 t n = ?s1"
    by (simp add: SCULPT_dyntopo_ensure_templayer_def [of K ?s1] Let_def)
  have cur: "offsets_current K (bm_vdata ?s1)"
    using offsets_current_cong [OF kv ov, of K] by (simp add: bm_add_named_current)
  note nth = named_index_nth [OF present]
  from get_templayer_offset [OF present]
  have g: "SCULPT_dyntopo_get_templayer ?s1 t n = cdl_offset (bm_vdata ?s1 ! ?li)" by simp
  from offsets_current_nth [OF cur, of ?li] nth
  have b: "cdl_offset (bm_vdata ?s1 ! ?li) = layer_block_offset K (bm_vdata ?s1) ?li" by simp
  have "set (layer_keys (bm_vdata ss)) \<subseteq> set (layer_keys (bm_vdata ?s1))"
    using sv by auto
  from node_vlayers_present_mono [OF this] assms(2)
  have pv: "node_vlayers_present K (bm_vdata ?s1)" by (simp add: node_layers_present_def)
  have pp: "node_flayers_present K (bm_pdata ?s1)"
    using assms(2) named_index_keys [OF kp]
    by (simp add: node_layers_present_def node_flayers_present_def)
  show ?thesis
    unfolding Let_def idem
    using lv lp sv kp nth g b cur pv pp
    by (simp add: node_layers_present_def)
qed

lemmas layer_eval =
  SCULPT_dyntopo_ensure_templayer_def SCULPT_dyntopo_node_layers_update_offsets_def
  SCULPT_dyntopo_node_layers_add_def BM_data_layers_ensure_def BM_data_layer_add_named_def
  CustomData_add_layer_named_def CustomData_update_offsets_def ensure_req_added_def
  ensure_req_flag_def req_layer_index_def CustomData_get_named_layer_index_def
  CustomData_get_layer_index_def CustomData_get_n_offset_def CustomData_get_offset_def
  CustomData_get_named_layer_def set_layer_temporary_def layer_offset_at_def
  SCULPT_dyntopo_get_templayer_def CustomData_has_layer_def
  dyntopop_node_idx_layer_id_def dyntopop_faces_areas_layer_id_def
  blender_cd_consts_def bare_session_def Let_def

lemma enabled_session_vdata:
  "bm_vdata enabled_session =
     [\<lparr>cdl_type = 11, cdl_name = ''_dyntopo_node_id'', cdl_temporary = True, cdl_offset = 0\<rparr>,
      \<lparr>cdl_type = 34, cdl_name = [], cdl_temporary = False, cdl_offset = 4\<rparr>,
      \<lparr>cdl_type = 52, cdl_name = [], cdl_temporary = True, cdl_offset = 8\<rparr>]"
  by (simp add: enabled_session_def layer_eval cong: eval_cong)

lemma enabled_session_pdata:
  "bm_pdata enabled_session =
     [\<lparr>cdl_type = 10, cdl_name = ''__dyntopo_face_areas'', cdl_temporary = True, cdl_offset = 0\<rparr>,
      \<lparr>cdl_type = 11, cdl_name = ''_dyntopo_node_id'', cdl_temporary = True, cdl_offset = 4\<rparr>]"
  by (simp add: enabled_session_def layer_eval cong: eval_cong)

lemma enabled_session_ensured:
  "bm_vdata (SCULPT_dyntopo_ensure_templayer blender_cd_consts enabled_session 47 ''__temp'')
   = [\<lparr>cdl_type = 11, cdl_name = ''_dyntopo_node_id'', cdl_temporary = True, cdl_offset = 0\<rparr>,
      \<lparr>cdl_type = 34, cdl_name = [], cdl_temporary = False, cdl_offset = 4\<rparr>,
      \<lparr>cdl_type = 47, cdl_name = ''__temp'', cdl_temporary = True, cdl_offset = 8\<rparr>,
      \<lparr>cdl_type = 52, cdl_name = [], cdl_temporary = True, cdl_offset = 12\<rparr>]"
  by (simp add: enabled_session_def layer_eval cong: eval_cong)

theorem ensure_templayer_idempotent_witness:
  "CustomData_get_named_layer_index (bm_vdata enabled_session) 47 ''__temp'' < 0
   \<and> node_layers_present blender_cd_consts enabled_session
   \<and> length (bm_vdata enabled_session) = 3
   \<and> length (bm_pdata enabled_session) = 2
   \<and> length (bm_vdata (SCULPT_dyntopo_ensure_templayer blender_cd_consts enabled_session 47 ''__temp'')) = 4
   \<and> length (bm_pdata (SCULPT_dyntopo_ensure_templayer blender_cd_consts enabled_session 47 ''__temp'')) = 2
   \<and> SCULPT_dyntopo_ensure_templayer blender_cd_consts
         (SCULPT_dyntopo_ensure_templayer blender_cd_consts enabled_session 47 ''__temp'') 47 ''__temp''
       = SCULPT_dyntopo_ensure_templayer blender_cd_consts enabled_session 47 ''__temp''
   \<and> SCULPT_dyntopo_get_templayer
         (SCULPT_dyntopo_ensure_templayer blender_cd_consts enabled_session 47 ''__temp'')
         47 ''__temp'' = 8
   \<and> layer_block_offset blender_cd_consts
         (bm_vdata (SCULPT_dyntopo_ensure_templayer blender_cd_consts enabled_session 47 ''__temp'')) 2
       = 8"
proof -
  have h1: "CustomData_get_named_layer_index (bm_vdata enabled_session) 47 ''__temp'' < 0"
    by (simp add: enabled_session_vdata CustomData_get_named_layer_index_def)
  have h2: "node_layers_present blender_cd_consts enabled_session"
    by (simp add: enabled_session_vdata enabled_session_pdata node_layers_present_def
          node_vlayers_present_def node_flayers_present_def CustomData_has_layer_def
          CustomData_get_layer_index_def CustomData_get_named_layer_index_def
          blender_cd_consts_def dyntopop_node_idx_layer_id_def dyntopop_faces_areas_layer_id_def)
  have li: "nat (CustomData_get_named_layer_index
              (bm_vdata (SCULPT_dyntopo_ensure_templayer blender_cd_consts enabled_session 47 ''__temp''))
              47 ''__temp'') = 2"
    by (simp add: enabled_session_ensured CustomData_get_named_layer_index_def)
  have b: "layer_block_offset blender_cd_consts
         (bm_vdata (SCULPT_dyntopo_ensure_templayer blender_cd_consts enabled_session 47 ''__temp'')) 2
       = 8"
    unfolding enabled_session_ensured
    by (simp add: layer_block_offset_def blender_cd_consts_def eval_nat_numeral)
  show ?thesis
    using ensure_templayer_idempotent [OF h1 h2] h1 h2 b
    by (simp add: Let_def li enabled_session_vdata enabled_session_pdata)
qed

section \<open>Topology controller: the multiresolution guard\<close>

lemma check_customdata_no_error: "DYNTOPO_ERROR_MULTIRES \<notin> check_customdata K ob"
proof -
  have "DYNTOPO_ERROR_MULTIRES \<notin> flag \<Longrightarrow>
        DYNTOPO_ERROR_MULTIRES \<notin>
          fold (\<lambda>i flag.
             if cd_lossy_type K i
             then (let flag1 = (if CustomData_has_layer (me_vdata ob) i
                                then insert DYNTOPO_WARN_VDATA flag else flag);
                       flag2 = (if CustomData_has_layer (me_edata ob) i
                                then insert DYNTOPO_WARN_EDATA flag1 else flag1)
                   in if CustomData_has_layer (me_ldata ob) i
                      then insert DYNTOPO_WARN_LDATA flag2 else flag2)
             else flag) ixs flag" for ixs flag
    by (induction ixs arbitrary: flag) (simp_all add: Let_def)
  then show ?thesis by (simp add: check_customdata_def)
qed

lemma check_modifiers_error:
  "DYNTOPO_ERROR_MULTIRES \<in> check_modifiers mti_type mds flag \<Longrightarrow>
   DYNTOPO_ERROR_MULTIRES \<in> flag
   \<or> (\<exists>md \<in> set mds. md_enabled md \<and> md_type md = eModifierType_Multires)"
  by (induction mds arbitrary: flag) (auto simp add: Let_def split: if_splits)

text \<open>
  Claim C2.  For an object in the Static state (\<open>ss->bm\<close> is NULL) whose modifier check
  reports \<open>DYNTOPO_ERROR_MULTIRES\<close>, invoking the toggle shows the error popup and
  returns \<open>OPERATOR_INTERFACE\<close>; nothing else changes: no boundary-representation mesh
  is allocated, the dynamic-topology bit of the mesh, the undo log and the undo stack are
  as before.  The flag is only reported when an enabled multiresolution modifier is in
  the modifier list.
\<close>

theorem toggle_invoke_multires_blocks:
  assumes "ob_bm ob = None"
    and "DYNTOPO_ERROR_MULTIRES \<in> SCULPT_dynamic_topology_check K cd_interp mti_type ob"
  shows "sculpt_dynamic_topology_toggle_invoke K cd_interp mti_type bm_from_me log_create use_undo ob
           = (OPERATOR_INTERFACE,
              ob\<lparr>ob_ui := ob_ui ob @ [Error_popup (SCULPT_dynamic_topology_check K cd_interp mti_type ob)]\<rparr>)
     \<and> ob_bm (snd (sculpt_dynamic_topology_toggle_invoke K cd_interp mti_type bm_from_me log_create
                       use_undo ob)) = None
     \<and> me_dyntopo_flag (snd (sculpt_dynamic_topology_toggle_invoke K cd_interp mti_type bm_from_me
                                 log_create use_undo ob)) = me_dyntopo_flag ob
     \<and> ob_bm_log (snd (sculpt_dynamic_topology_toggle_invoke K cd_interp mti_type bm_from_me
                           log_create use_undo ob)) = ob_bm_log ob
     \<and> ob_undo (snd (sculpt_dynamic_topology_toggle_invoke K cd_interp mti_type bm_from_me
                         log_create use_undo ob)) = ob_undo ob
     \<and> (\<exists>md \<in> set (ob_modifiers ob). md_enabled md \<and> md_type md = eModifierType_Multires)"
proof -
  have "\<exists>md \<in> set (ob_modifiers ob). md_enabled md \<and> md_type md = eModifierType_Multires"
    using assms(2) check_customdata_no_error [of K ob]
      check_modifiers_error [of mti_type "ob_modifiers ob"
        "if cd_interp then {} else check_customdata K ob"]
    by (auto simp add: SCULPT_dynamic_topology_check_def Let_def split: if_splits)
  then show ?thesis
    using assms
    by (simp add: sculpt_dynamic_topology_toggle_invoke_def dyntopo_error_popup_def Let_def)
qed

theorem toggle_invoke_multires_blocks_witness:
  "ob_bm multires_object = None
   \<and> SCULPT_dynamic_topology_check blender_cd_consts True blender_mti_type multires_object
       = {DYNTOPO_WARN_MODIFIER, DYNTOPO_ERROR_MULTIRES}
   \<and> fst (sculpt_dynamic_topology_toggle_invoke blender_cd_consts True blender_mti_type
             (\<lambda>ob. fan_bm) 0 True multires_object) = OPERATOR_INTERFACE
   \<and> ob_bm (snd (sculpt_dynamic_topology_toggle_invoke blender_cd_consts True blender_mti_type
             (\<lambda>ob. fan_bm) 0 True multires_object)) = None
   \<and> ob_bm (snd (sculpt_dynamic_topology_toggle_invoke blender_cd_consts True blender_mti_type
             (\<lambda>ob. fan_bm) 0 True plain_object)) = Some fan_bm"
proof -
  have h1: "ob_bm multires_object = None"
    by (simp add: multires_object_def plain_object_def)
  have c: "SCULPT_dynamic_topology_check blender_cd_consts True blender_mti_type multires_object
       = {DYNTOPO_WARN_MODIFIER, DYNTOPO_ERROR_MULTIRES}"
    by (simp add: SCULPT_dynamic_topology_check_def multires_object_def plain_object_def
          blender_mti_type_def Let_def)
  then have h2: "DYNTOPO_ERROR_MULTIRES
       \<in> SCULPT_dynamic_topology_check blender_cd_consts True blender_mti_type multires_object"
    by simp
  have p: "ob_bm (snd (sculpt_dynamic_topology_toggle_invoke blender_cd_consts True blender_mti_type
             (\<lambda>ob. fan_bm) 0 True plain_object)) = Some fan_bm"
    by (simp add: sculpt_dynamic_topology_toggle_invoke_def SCULPT_dynamic_topology_check_def
          sculpt_dynamic_topology_toggle_exec_def sculpt_dynamic_topology_enable_with_undo_def
          SCULPT_dynamic_topology_enable_ex_def plain_object_def Let_def)
  show ?thesis
    using toggle_invoke_multires_blocks [OF h1 h2, of "\<lambda>ob. fan_bm" 0 True] h1 c p
    by simp
qed

section \<open>Differential-geometry weights: the mixed Voronoi area\<close>

lemma saacos_obtuse: "(pi * 0.5 < saacos x) = (x < 0)"
proof -
  have half: "pi * 0.5 = arccos 0" by simp
  show ?thesis
  proof (cases "x \<le> - 1")
    case True
    then show ?thesis using pi_gt_zero by (simp add: saacos_def)
  next
    case False
    note nl = this
    show ?thesis
    proof (cases "1 \<le> x")
      case True
      then show ?thesis using pi_gt_zero by (simp add: saacos_def)
    next
      case False
      with nl have "\<bar>x\<bar> \<le> 1" "\<bar>0::real\<bar> \<le> 1" by simp_all
      from arccos_less_mono [OF this(2) this(1)] nl False
      show ?thesis by (simp add: saacos_def)
    qed
  qed
qed

lemma dot_mul_v3: "dot_v3v3 (mul_v3_fl a f) (mul_v3_fl b g) = f * g * dot_v3v3 a b"
  by (cases a; cases b) (simp add: algebra_simps)

lemma dot_self_nonneg: "0 \<le> dot_v3v3 a a"
  by (cases a) simp

lemma dot_self_zero: "dot_v3v3 a a = 0 \<Longrightarrow> a = (0, 0, 0)"
proof -
  obtain x y z where a: "a = (x, y, z)" by (cases a) auto
  assume "dot_v3v3 a a = 0"
  then have "x * x + y * y + z * z = 0" by (simp add: a)
  then have "x = 0 \<and> y = 0 \<and> z = 0"
    by (metis add_nonneg_eq_0_iff mult_eq_0_iff zero_le_square add_nonneg_nonneg)
  then show ?thesis by (simp add: a)
qed

lemma len_v3_zero: "len_v3 a = 0 \<Longrightarrow> a = (0, 0, 0)"
  using dot_self_zero [of a] by (simp add: len_v3_def)

lemma len_v3_pos: "len_v3 a \<noteq> 0 \<Longrightarrow> 0 < len_v3 a"
  using dot_self_nonneg [of a] by (simp add: len_v3_def less_le)

lemma dot_zero_left: "dot_v3v3 (0, 0, 0) b = 0" and dot_zero_right: "dot_v3v3 a (0, 0, 0) = 0"
  by (cases b, simp) (cases a, simp)

lemma dot_normalize_sign:
  "(dot_v3v3 (normalize_v3 a) (normalize_v3 b) < 0) = (dot_v3v3 a b < 0)"
proof (cases "len_v3 a = 0 \<or> len_v3 b = 0")
  case True
  then have "a = (0, 0, 0) \<or> b = (0, 0, 0)" using len_v3_zero by blast
  then show ?thesis
    by (auto simp add: normalize_v3_def dot_zero_left dot_zero_right)
next
  case False
  then have p: "0 < len_v3 a" "0 < len_v3 b" using len_v3_pos by simp_all
  then have k: "0 < 1 / len_v3 a * (1 / len_v3 b)" by simp
  have "(k * d < 0) = (d < 0)" if "0 < k" for k d :: real
    using that by (simp add: mult_less_0_iff)
  from this [OF k]
  have "(1 / len_v3 a * (1 / len_v3 b) * dot_v3v3 a b < 0) = (dot_v3v3 a b < 0)" .
  with False show ?thesis by (simp add: normalize_v3_def dot_mul_v3)
qed

lemma angle_obtuse:
  "(pi * 0.5 < angle_v3v3v3 a b c) = (dot_v3v3 (sub_v3_v3v3 a b) (sub_v3_v3v3 c b) < 0)"
  by (simp only: angle_v3v3v3_def saacos_obtuse dot_normalize_sign)

lemma obtuse_exclusive:
  "dot_v3v3 (sub_v3_v3v3 r p) (sub_v3_v3v3 q p) < 0
   \<Longrightarrow> \<not> dot_v3v3 (sub_v3_v3v3 p q) (sub_v3_v3v3 r q) < 0"
proof -
  have "dot_v3v3 (sub_v3_v3v3 r p) (sub_v3_v3v3 q p) + dot_v3v3 (sub_v3_v3v3 p q) (sub_v3_v3v3 r q)
        = dot_v3v3 (sub_v3_v3v3 q p) (sub_v3_v3v3 q p)"
    by (cases p; cases q; cases r) (simp add: algebra_simps)
  with dot_self_nonneg [of "sub_v3_v3v3 q p"] show "dot_v3v3 (sub_v3_v3v3 r p) (sub_v3_v3v3 q p) < 0
   \<Longrightarrow> \<not> dot_v3v3 (sub_v3_v3v3 p q) (sub_v3_v3v3 r q) < 0" by linarith
qed

lemma dot_commute: "dot_v3v3 a b = dot_v3v3 b a"
  by (cases a; cases b) simp

lemma lagrange_v3:
  "dot_v3v3 (cross_v3_v3v3 a b) (cross_v3_v3v3 a b)
   = dot_v3v3 a a * dot_v3v3 b b - dot_v3v3 a b * dot_v3v3 a b"
  by (cases a; cases b) (simp add: algebra_simps)

lemma cot_angle_dot_cross:
  assumes c: "0 < len_v3 (cross_v3_v3v3 (sub_v3_v3v3 v2 v1) (sub_v3_v3v3 v3 v1))"
  shows "cot (angle_v3v3v3 v2 v1 v3)
         = dot_v3v3 (sub_v3_v3v3 v2 v1) (sub_v3_v3v3 v3 v1)
           / len_v3 (cross_v3_v3v3 (sub_v3_v3v3 v2 v1) (sub_v3_v3v3 v3 v1))"
proof -
  let ?a = "sub_v3_v3v3 v2 v1" and ?b = "sub_v3_v3v3 v3 v1"
  let ?c = "len_v3 (cross_v3_v3v3 ?a ?b)"
  let ?d = "dot_v3v3 ?a ?b"
  let ?la = "len_v3 ?a" and ?lb = "len_v3 ?b"
  from c have cc: "0 < dot_v3v3 (cross_v3_v3v3 ?a ?b) (cross_v3_v3v3 ?a ?b)"
    by (simp add: len_v3_def)
  have c2: "?c * ?c = dot_v3v3 ?a ?a * dot_v3v3 ?b ?b - ?d * ?d"
    using dot_self_nonneg [of "cross_v3_v3v3 ?a ?b"] by (simp add: len_v3_def lagrange_v3)
  have dd: "0 \<le> ?d * ?d" by simp
  from cc have "?d * ?d < dot_v3v3 ?a ?a * dot_v3v3 ?b ?b"
    by (simp add: lagrange_v3)
  with dd have prod: "0 < dot_v3v3 ?a ?a * dot_v3v3 ?b ?b"
    by (rule le_less_trans)
  with dot_self_nonneg [of ?a] dot_self_nonneg [of ?b]
  have "0 < dot_v3v3 ?a ?a" "0 < dot_v3v3 ?b ?b"
    by (auto simp add: zero_less_mult_iff)
  then have l: "0 < ?la" "0 < ?lb" by (simp_all add: len_v3_def)
  have l2: "?la * ?la = dot_v3v3 ?a ?a" "?lb * ?lb = dot_v3v3 ?b ?b"
    using dot_self_nonneg [of ?a] dot_self_nonneg [of ?b] by (simp_all add: len_v3_def)
  let ?x = "?d / (?la * ?lb)"
  have x: "dot_v3v3 (normalize_v3 ?a) (normalize_v3 ?b) = ?x"
    using l by (simp add: normalize_v3_def dot_mul_v3)
  have ll: "0 < ?la * ?lb" using l by simp
  have one: "1 - ?x\<^sup>2 = (?c / (?la * ?lb))\<^sup>2"
  proof -
    have "(?la * ?lb)\<^sup>2 = dot_v3v3 ?a ?a * dot_v3v3 ?b ?b"
      using l2 by (simp add: power2_eq_square algebra_simps)
    then have "(?la * ?lb)\<^sup>2 - ?d\<^sup>2 = ?c\<^sup>2"
      using c2 by (simp add: power2_eq_square)
    then have "((?la * ?lb)\<^sup>2 - ?d\<^sup>2) / (?la * ?lb)\<^sup>2 = ?c\<^sup>2 / (?la * ?lb)\<^sup>2"
      by simp
    moreover have "((?la * ?lb)\<^sup>2 - ?d\<^sup>2) / (?la * ?lb)\<^sup>2 = 1 - ?x\<^sup>2"
      using l by (simp add: diff_divide_distrib power_divide)
    ultimately show ?thesis by (simp add: power_divide)
  qed
  have pos: "0 < ?c / (?la * ?lb)" using c ll by simp
  then have "0 < (?c / (?la * ?lb))\<^sup>2" by (rule zero_less_power)
  then have "0 < 1 - ?x\<^sup>2" by (simp only: one)
  then have "?x\<^sup>2 < 1" by simp
  then have ab: "\<bar>?x\<bar> < 1" by (simp add: abs_square_less_1)
  then have r: "- 1 < ?x" "?x < 1" "- 1 \<le> ?x" "?x \<le> 1" by linarith+
  have sa: "saacos ?x = arccos ?x" using r by (simp add: saacos_def)
  have "sin (arccos ?x) = sqrt (1 - ?x\<^sup>2)"
    using r(3,4) by (rule sin_arccos)
  also have "\<dots> = sqrt ((?c / (?la * ?lb))\<^sup>2)" by (simp only: one)
  also have "\<dots> = \<bar>?c / (?la * ?lb)\<bar>" by (rule real_sqrt_abs)
  also have "\<dots> = ?c / (?la * ?lb)" using pos by (rule abs_of_pos)
  finally have sn: "sin (arccos ?x) = ?c / (?la * ?lb)" .
  have "cot (arccos ?x) = ?x / (?c / (?la * ?lb))"
    using r by (simp add: cot_def sn)
  also have "\<dots> = ?d / ?c" using l c by simp
  finally show "cot (angle_v3v3v3 v2 v1 v3) = ?d / ?c"
    by (simp add: angle_v3v3v3_def x sa)
qed

lemma cotangent_is_cot:
  assumes "FLT_EPSILON < len_v3 (cross_v3_v3v3 (sub_v3_v3v3 v2 v1) (sub_v3_v3v3 v3 v1))"
  shows "cotangent_tri_weight_v3 v1 v2 v3 = cot (angle_v3v3v3 v2 v1 v3)"
proof -
  have "0 < FLT_EPSILON" by (simp add: FLT_EPSILON_def)
  with assms have "0 < len_v3 (cross_v3_v3v3 (sub_v3_v3v3 v2 v1) (sub_v3_v3v3 v3 v1))"
    by linarith
  from cot_angle_dot_cross [OF this] assms show ?thesis
    by (simp add: cotangent_tri_weight_v3_def Let_def)
qed

lemma cotangent_below_threshold:
  "\<not> FLT_EPSILON < len_v3 (cross_v3_v3v3 (sub_v3_v3v3 v2 v1) (sub_v3_v3v3 v3 v1))
   \<Longrightarrow> cotangent_tri_weight_v3 v1 v2 v3 = 0"
  by (simp add: cotangent_tri_weight_v3_def Let_def)

lemma angle_obtuse_half:
  "(pi / 2 < angle_v3v3v3 a b c) = (dot_v3v3 (sub_v3_v3v3 a b) (sub_v3_v3v3 c b) < 0)"
proof -
  have "pi / 2 = pi * 0.5" by simp
  then show ?thesis by (simp only: angle_obtuse)
qed

lemma tri_voronoi_area_dot:
  "tri_voronoi_area p q r =
     (if dot_v3v3 (sub_v3_v3v3 r p) (sub_v3_v3v3 q p) < 0 then area_tri_v3 p q r / 2
      else if dot_v3v3 (sub_v3_v3v3 p q) (sub_v3_v3v3 r q) < 0
              \<or> dot_v3v3 (sub_v3_v3v3 q r) (sub_v3_v3v3 p r) < 0
           then area_tri_v3 p q r / 4
           else (1 / 8) * (dot_v3v3 (sub_v3_v3v3 p r) (sub_v3_v3v3 p r) * cotangent_tri_weight_v3 q p r
                           + dot_v3v3 (sub_v3_v3v3 p q) (sub_v3_v3v3 p q) * cotangent_tri_weight_v3 r q p))"
  by (simp only: tri_voronoi_area_def angle_tri_v3_def Let_def prod.case angle_obtuse)

text \<open>
  Claim C4, as amended.  For every triangle \<open>(p, q, r)\<close>, \<open>tri_voronoi_area\<close> returns
  half the naive triangle area when the angle at \<open>p\<close> is obtuse, a quarter of it when the
  angle at \<open>q\<close> or at \<open>r\<close> is obtuse, and otherwise
  \<open>(1/8) (|p - r|\<^sup>2 c\<^sub>q + |p - q|\<^sup>2 c\<^sub>r)\<close>, where \<open>c\<^sub>q\<close> and \<open>c\<^sub>r\<close> are the cotangent
  weights of the math library at \<open>q\<close> and \<open>r\<close>.  The cotangent weight at a corner is the
  cotangent of the angle at that corner when the cross product of the two sides that
  meet there is longer than \<open>FLT_EPSILON\<close>, and it is 0 otherwise.
\<close>

theorem tri_voronoi_area_cases:
  "(pi / 2 < angle_v3v3v3 r p q \<longrightarrow> tri_voronoi_area p q r = area_tri_v3 p q r / 2)
   \<and> (pi / 2 < angle_v3v3v3 p q r \<or> pi / 2 < angle_v3v3v3 q r p
        \<longrightarrow> tri_voronoi_area p q r = area_tri_v3 p q r / 4)
   \<and> (\<not> pi / 2 < angle_v3v3v3 r p q \<and> \<not> pi / 2 < angle_v3v3v3 p q r \<and> \<not> pi / 2 < angle_v3v3v3 q r p
        \<longrightarrow> tri_voronoi_area p q r
            = (1 / 8) * (dot_v3v3 (sub_v3_v3v3 p r) (sub_v3_v3v3 p r) * cotangent_tri_weight_v3 q p r
                         + dot_v3v3 (sub_v3_v3v3 p q) (sub_v3_v3v3 p q) * cotangent_tri_weight_v3 r q p))
   \<and> (FLT_EPSILON < len_v3 (cross_v3_v3v3 (sub_v3_v3v3 p q) (sub_v3_v3v3 r q))
        \<longrightarrow> cotangent_tri_weight_v3 q p r = cot (angle_v3v3v3 p q r))
   \<and> (FLT_EPSILON < len_v3 (cross_v3_v3v3 (sub_v3_v3v3 q r) (sub_v3_v3v3 p r))
        \<longrightarrow> cotangent_tri_weight_v3 r q p = cot (angle_v3v3v3 q r p))
   \<and> (\<not> FLT_EPSILON < len_v3 (cross_v3_v3v3 (sub_v3_v3v3 p q) (sub_v3_v3v3 r q))
        \<longrightarrow> cotangent_tri_weight_v3 q p r = 0)
   \<and> (\<not> FLT_EPSILON < len_v3 (cross_v3_v3v3 (sub_v3_v3v3 q r) (sub_v3_v3v3 p r))
        \<longrightarrow> cotangent_tri_weight_v3 r q p = 0)"
proof -
  have e1: "dot_v3v3 (sub_v3_v3v3 p q) (sub_v3_v3v3 r q) < 0
            \<Longrightarrow> \<not> dot_v3v3 (sub_v3_v3v3 r p) (sub_v3_v3v3 q p) < 0"
    using obtuse_exclusive [of r p q] by blast
  have e2: "dot_v3v3 (sub_v3_v3v3 q r) (sub_v3_v3v3 p r) < 0
            \<Longrightarrow> \<not> dot_v3v3 (sub_v3_v3v3 r p) (sub_v3_v3v3 q p) < 0"
    using obtuse_exclusive [of q r p] by blast
  have branches:
    "(pi / 2 < angle_v3v3v3 r p q \<longrightarrow> tri_voronoi_area p q r = area_tri_v3 p q r / 2)
     \<and> (pi / 2 < angle_v3v3v3 p q r \<or> pi / 2 < angle_v3v3v3 q r p
          \<longrightarrow> tri_voronoi_area p q r = area_tri_v3 p q r / 4)
     \<and> (\<not> pi / 2 < angle_v3v3v3 r p q \<and> \<not> pi / 2 < angle_v3v3v3 p q r
          \<and> \<not> pi / 2 < angle_v3v3v3 q r p
          \<longrightarrow> tri_voronoi_area p q r
              = (1 / 8) * (dot_v3v3 (sub_v3_v3v3 p r) (sub_v3_v3v3 p r) * cotangent_tri_weight_v3 q p r
                           + dot_v3v3 (sub_v3_v3v3 p q) (sub_v3_v3v3 p q) * cotangent_tri_weight_v3 r q p))"
    unfolding angle_obtuse_half using e1 e2
    by (simp add: tri_voronoi_area_dot)
  have cots:
    "FLT_EPSILON < len_v3 (cross_v3_v3v3 (sub_v3_v3v3 p q) (sub_v3_v3v3 r q))
       \<longrightarrow> cotangent_tri_weight_v3 q p r = cot (angle_v3v3v3 p q r)"
    "FLT_EPSILON < len_v3 (cross_v3_v3v3 (sub_v3_v3v3 q r) (sub_v3_v3v3 p r))
       \<longrightarrow> cotangent_tri_weight_v3 r q p = cot (angle_v3v3v3 q r p)"
    using cotangent_is_cot [where ?v1.0 = q and ?v2.0 = p and ?v3.0 = r]
          cotangent_is_cot [where ?v1.0 = r and ?v2.0 = q and ?v3.0 = p]
    by blast+
  have zeros:
    "\<not> FLT_EPSILON < len_v3 (cross_v3_v3v3 (sub_v3_v3v3 p q) (sub_v3_v3v3 r q))
       \<longrightarrow> cotangent_tri_weight_v3 q p r = 0"
    "\<not> FLT_EPSILON < len_v3 (cross_v3_v3v3 (sub_v3_v3v3 q r) (sub_v3_v3v3 p r))
       \<longrightarrow> cotangent_tri_weight_v3 r q p = 0"
    using cotangent_below_threshold [where ?v1.0 = q and ?v2.0 = p and ?v3.0 = r]
          cotangent_below_threshold [where ?v1.0 = r and ?v2.0 = q and ?v3.0 = p]
    by blast+
  from branches cots zeros show ?thesis by (intro conjI) blast+
qed

lemma sqrt_9: "sqrt 9 = 3"
  by (rule real_sqrt_unique) simp_all

lemma sqrt_small: "sqrt (9 / 4503599627370496) = 3 / 67108864"
  by (rule real_sqrt_unique) (simp_all add: power2_eq_square)

lemma small_cross:
  "len_v3 (cross_v3_v3v3 (sub_v3_v3v3 (0, 0, 2 / 8192) (1 / 8192, 0, 0))
                         (sub_v3_v3v3 (0, 1 / 8192, 0) (1 / 8192, 0, 0))) = 3 / 67108864"
  "len_v3 (cross_v3_v3v3 (sub_v3_v3v3 (1 / 8192, 0, 0) (0, 1 / 8192, 0))
                         (sub_v3_v3v3 (0, 0, 2 / 8192) (0, 1 / 8192, 0))) = 3 / 67108864"
  using sqrt_small by (simp_all add: len_v3_def)

theorem tri_voronoi_area_cases_witness:
  "pi / 2 < angle_v3v3v3 (- 1, 1, 0) (0, 0, 0) (1, 0, 0)
   \<and> tri_voronoi_area (0, 0, 0) (1, 0, 0) (- 1, 1, 0) = 1 / 4
   \<and> pi / 2 < angle_v3v3v3 (1, 0, 0) (0, 0, 0) (- 1, 1, 0)
   \<and> tri_voronoi_area (1, 0, 0) (0, 0, 0) (- 1, 1, 0) = 1 / 8
   \<and> \<not> pi / 2 < angle_v3v3v3 (0, 1, 0) (0, 0, 2) (1, 0, 0)
   \<and> \<not> pi / 2 < angle_v3v3v3 (0, 0, 2) (1, 0, 0) (0, 1, 0)
   \<and> \<not> pi / 2 < angle_v3v3v3 (1, 0, 0) (0, 1, 0) (0, 0, 2)
   \<and> tri_voronoi_area (0, 0, 2) (1, 0, 0) (0, 1, 0) = 5 / 12
   \<and> cot (angle_v3v3v3 (0, 0, 2) (1, 0, 0) (0, 1, 0)) = 1 / 3
   \<and> cot (angle_v3v3v3 (1, 0, 0) (0, 1, 0) (0, 0, 2)) = 1 / 3
   \<and> \<not> FLT_EPSILON < len_v3 (cross_v3_v3v3 (sub_v3_v3v3 (0, 0, 2 / 8192) (1 / 8192, 0, 0))
                                            (sub_v3_v3v3 (0, 1 / 8192, 0) (1 / 8192, 0, 0)))
   \<and> \<not> FLT_EPSILON < len_v3 (cross_v3_v3v3 (sub_v3_v3v3 (1 / 8192, 0, 0) (0, 1 / 8192, 0))
                                            (sub_v3_v3v3 (0, 0, 2 / 8192) (0, 1 / 8192, 0)))
   \<and> cotangent_tri_weight_v3 (1 / 8192, 0, 0) (0, 0, 2 / 8192) (0, 1 / 8192, 0) = 0
   \<and> cotangent_tri_weight_v3 (0, 1 / 8192, 0) (1 / 8192, 0, 0) (0, 0, 2 / 8192) = 0"
proof -
  have o: "pi / 2 < angle_v3v3v3 (- 1, 1, 0) (0, 0, 0) (1, 0, 0)"
    "pi / 2 < angle_v3v3v3 (1, 0, 0) (0, 0, 0) (- 1, 1, 0)"
    "\<not> pi / 2 < angle_v3v3v3 (0, 1, 0) (0, 0, 2) (1, 0, 0)"
    "\<not> pi / 2 < angle_v3v3v3 (0, 0, 2) (1, 0, 0) (0, 1, 0)"
    "\<not> pi / 2 < angle_v3v3v3 (1, 0, 0) (0, 1, 0) (0, 0, 2)"
    by (simp_all only: angle_obtuse_half) simp_all
  have a: "area_tri_v3 (0, 0, 0) (1, 0, 0) (- 1, 1, 0) = 1 / 2"
    "area_tri_v3 (1, 0, 0) (0, 0, 0) (- 1, 1, 0) = 1 / 2"
    by (simp_all add: area_tri_v3_def len_v3_def)
  have c: "cotangent_tri_weight_v3 (1, 0, 0) (0, 0, 2) (0, 1, 0) = 1 / 3"
    "cotangent_tri_weight_v3 (0, 1, 0) (1, 0, 0) (0, 0, 2) = 1 / 3"
    "FLT_EPSILON < len_v3 (cross_v3_v3v3 (sub_v3_v3v3 (0, 0, 2) (1, 0, 0)) (sub_v3_v3v3 (0, 1, 0) (1, 0, 0)))"
    "FLT_EPSILON < len_v3 (cross_v3_v3v3 (sub_v3_v3v3 (1, 0, 0) (0, 1, 0)) (sub_v3_v3v3 (0, 0, 2) (0, 1, 0)))"
    by (simp_all add: cotangent_tri_weight_v3_def len_v3_def FLT_EPSILON_def sqrt_9 Let_def)
  have s: "\<not> FLT_EPSILON < len_v3 (cross_v3_v3v3 (sub_v3_v3v3 (0, 0, 2 / 8192) (1 / 8192, 0, 0))
                                               (sub_v3_v3v3 (0, 1 / 8192, 0) (1 / 8192, 0, 0)))"
    "\<not> FLT_EPSILON < len_v3 (cross_v3_v3v3 (sub_v3_v3v3 (1 / 8192, 0, 0) (0, 1 / 8192, 0))
                                            (sub_v3_v3v3 (0, 0, 2 / 8192) (0, 1 / 8192, 0)))"
    by (simp_all only: small_cross) (simp_all add: FLT_EPSILON_def)
  show ?thesis
    using tri_voronoi_area_cases [of "(- 1, 1, 0)" "(0, 0, 0)" "(1, 0, 0)"]
          tri_voronoi_area_cases [of "(- 1, 1, 0)" "(1, 0, 0)" "(0, 0, 0)"]
          tri_voronoi_area_cases [of "(0, 1, 0)" "(0, 0, 2)" "(1, 0, 0)"]
          tri_voronoi_area_cases [of "(0, 1 / 8192, 0)" "(0, 0, 2 / 8192)" "(1 / 8192, 0, 0)"]
          o a c s
    by simp
qed

text \<open>
  Claim C4 as stated fails for a small triangle.  The triangle with the corners
  \<open>(0, 0, 2/8192)\<close>, \<open>(1/8192, 0, 0)\<close>, \<open>(0, 1/8192, 0)\<close> has no obtuse angle and the
  area \<open>3/134217728\<close>; the formula of the claim, with the cotangents of its angles, gives
  \<open>5/805306368\<close>, and \<open>tri_voronoi_area\<close> returns 0, because both cross products are
  shorter than \<open>FLT_EPSILON\<close>.
\<close>

theorem tri_voronoi_area_small_counterexample:
  "\<not> pi / 2 < angle_v3v3v3 (0, 1 / 8192, 0) (0, 0, 2 / 8192) (1 / 8192, 0, 0)
   \<and> \<not> pi / 2 < angle_v3v3v3 (0, 0, 2 / 8192) (1 / 8192, 0, 0) (0, 1 / 8192, 0)
   \<and> \<not> pi / 2 < angle_v3v3v3 (1 / 8192, 0, 0) (0, 1 / 8192, 0) (0, 0, 2 / 8192)
   \<and> area_tri_v3 (0, 0, 2 / 8192) (1 / 8192, 0, 0) (0, 1 / 8192, 0) = 3 / 134217728
   \<and> (1 / 8) * (dot_v3v3 (sub_v3_v3v3 (0, 0, 2 / 8192) (0, 1 / 8192, 0))
                         (sub_v3_v3v3 (0, 0, 2 / 8192) (0, 1 / 8192, 0))
                  * cot (angle_v3v3v3 (0, 0, 2 / 8192) (1 / 8192, 0, 0) (0, 1 / 8192, 0))
                + dot_v3v3 (sub_v3_v3v3 (0, 0, 2 / 8192) (1 / 8192, 0, 0))
                           (sub_v3_v3v3 (0, 0, 2 / 8192) (1 / 8192, 0, 0))
                  * cot (angle_v3v3v3 (1 / 8192, 0, 0) (0, 1 / 8192, 0) (0, 0, 2 / 8192)))
       = 5 / 805306368
   \<and> tri_voronoi_area (0, 0, 2 / 8192) (1 / 8192, 0, 0) (0, 1 / 8192, 0) = 0"
proof -
  have o: "\<not> pi / 2 < angle_v3v3v3 (0, 1 / 8192, 0) (0, 0, 2 / 8192) (1 / 8192, 0, 0)"
    "\<not> pi / 2 < angle_v3v3v3 (0, 0, 2 / 8192) (1 / 8192, 0, 0) (0, 1 / 8192, 0)"
    "\<not> pi / 2 < angle_v3v3v3 (1 / 8192, 0, 0) (0, 1 / 8192, 0) (0, 0, 2 / 8192)"
    by (simp_all only: angle_obtuse_half) simp_all
  have a: "area_tri_v3 (0, 0, 2 / 8192) (1 / 8192, 0, 0) (0, 1 / 8192, 0) = 3 / 134217728"
    using sqrt_small by (simp add: area_tri_v3_def len_v3_def)
  have c1: "cot (angle_v3v3v3 (0, 0, 2 / 8192) (1 / 8192, 0, 0) (0, 1 / 8192, 0)) = 1 / 3"
    using cot_angle_dot_cross [where ?v1.0 = "(1 / 8192, 0, 0)" and ?v2.0 = "(0, 0, 2 / 8192)"
                                 and ?v3.0 = "(0, 1 / 8192, 0)"]
    by (simp only: small_cross) simp
  have c2: "cot (angle_v3v3v3 (1 / 8192, 0, 0) (0, 1 / 8192, 0) (0, 0, 2 / 8192)) = 1 / 3"
    using cot_angle_dot_cross [where ?v1.0 = "(0, 1 / 8192, 0)" and ?v2.0 = "(1 / 8192, 0, 0)"
                                 and ?v3.0 = "(0, 0, 2 / 8192)"]
    by (simp only: small_cross) simp
  have w: "cotangent_tri_weight_v3 (1 / 8192, 0, 0) (0, 0, 2 / 8192) (0, 1 / 8192, 0) = 0"
    "cotangent_tri_weight_v3 (0, 1 / 8192, 0) (1 / 8192, 0, 0) (0, 0, 2 / 8192) = 0"
    by (simp_all only: cotangent_tri_weight_v3_def Let_def small_cross)
       (simp_all add: FLT_EPSILON_def)
  have t: "tri_voronoi_area (0, 0, 2 / 8192) (1 / 8192, 0, 0) (0, 1 / 8192, 0) = 0"
    by (simp only: tri_voronoi_area_dot w) simp
  show ?thesis unfolding c1 c2 using o a t by simp
qed

section \<open>Differential-geometry weights: normalisation\<close>

lemma fold_totarea:
  "fold (\<lambda>(cot1, cot2, area) tot. tot + area) entries (t0 :: real)
   = t0 + sum_list (map (\<lambda>(cot1, cot2, area). area) entries)"
  by (induction entries arbitrary: t0) (simp_all add: case_prod_beta)

lemma disk_step_next:
  "disk_step bm v e = Some (x, en) \<Longrightarrow> en = disk_next bm v e"
  by (auto simp add: disk_step_def disk_next_def Let_def split: option.splits)

lemma finish_ring:
  "r_ws (finish_cotangents (map (ring_entry v ps) [0..<length ps]))
     = map (ring_weight v ps) [0..<length ps]
   \<and> r_totarea (finish_cotangents (map (ring_entry v ps) [0..<length ps])) = ring_totarea v ps"
proof -
  let ?es = "map (ring_entry v ps) [0..<length ps]"
  have a: "map (\<lambda>(cot1, cot2, area). area) ?es = map (ring_area v ps) [0..<length ps]"
    by (simp add: ring_entry_def edge_cotangents_def ring_area_def)
  have t: "r_totarea (finish_cotangents ?es) = ring_totarea v ps"
    by (simp only: finish_cotangents_def Let_def fold_totarea a ring_totarea_def) simp
  have "r_ws (finish_cotangents ?es)
        = map (\<lambda>(cot1, cot2, area). (cot1 + cot2) * (1 / (r_totarea (finish_cotangents ?es) * 2))) ?es"
    by (simp add: finish_cotangents_def Let_def)
  also have "\<dots> = map (ring_weight v ps) [0..<length ps]"
    unfolding t
    by (simp add: ring_entry_def edge_cotangents_def ring_weight_def ring_cot_sum_def)
  finally show ?thesis using t by simp
qed

lemma sum_list_divide:
  "sum_list (map (\<lambda>i. f i / (d :: real)) xs) = sum_list (map f xs) / d"
  by (induction xs) (simp_all add: add_divide_distrib)

lemma ring_weight_sum:
  "ring_totarea v ps \<noteq> 0 \<Longrightarrow>
   sum_list (map (ring_weight v ps) [0..<length ps]) * (2 * ring_totarea v ps)
   = sum_list (map (ring_cot_sum v ps) [0..<length ps])"
proof -
  assume t: "ring_totarea v ps \<noteq> 0"
  have "map (ring_weight v ps) [0..<length ps]
        = map (\<lambda>i. ring_cot_sum v ps i / (2 * ring_totarea v ps)) [0..<length ps]"
    by (simp add: ring_weight_def)
  then have "sum_list (map (ring_weight v ps) [0..<length ps])
        = sum_list (map (ring_cot_sum v ps) [0..<length ps]) / (2 * ring_totarea v ps)"
    by (simp only: sum_list_divide)
  with t show ?thesis by simp
qed

lemma faces_entries:
  "SCULPT_faces_get_cotangents ss vertex
   = finish_cotangents (map (ring_entry (mvert ss vertex) (static_ring ss vertex))
                          [0..<length (static_ring ss vertex)])"
proof -
  let ?elem = "vemap ss vertex"
  let ?n = "length ?elem"
  let ?o = "medge_other_vert ss vertex"
  have e: "edge_cotangents (mvert ss vertex) (?o (?elem ! ((i + ?n - 1) mod ?n))) (?o (?elem ! i))
             (?o (?elem ! ((i + 1) mod ?n)))
        = ring_entry (mvert ss vertex) (static_ring ss vertex) i"
    if "i \<in> set [0..<?n]" for i
  proof -
    from that have i: "i < ?n" by simp
    then have "0 < ?n" by (rule le_less_trans [OF le0])
    then have "(i + ?n - 1) mod ?n < ?n" "(i + 1) mod ?n < ?n"
      by (simp_all only: mod_less_divisor)
    with i show ?thesis
      by (simp add: ring_entry_def static_ring_def)
  qed
  have m: "map (\<lambda>i. edge_cotangents (mvert ss vertex) (?o (?elem ! ((i + ?n - 1) mod ?n)))
                      (?o (?elem ! i)) (?o (?elem ! ((i + 1) mod ?n)))) [0..<?n]
           = map (ring_entry (mvert ss vertex) (static_ring ss vertex)) [0..<?n]"
    using e by (intro map_cong refl)
  have l: "length (static_ring ss vertex) = ?n" by (simp add: static_ring_def)
  show ?thesis
    by (simp only: SCULPT_faces_get_cotangents_def Let_def m l)
qed

lemma disk_step_entry:
  assumes c: "disk_cycle bm v e n" and k: "k < n"
  shows "disk_step bm v ((disk_next bm v ^^ k) e)
         = Some (ring_entry (v_co (bm_verts bm v)) (disk_ring bm v e n) k,
                 (disk_next bm v ^^ Suc k) e)"
proof -
  let ?nx = "disk_next bm v"
  let ?ek = "(?nx ^^ k) e"
  from c k have n: "0 < n" and cl: "(?nx ^^ n) e = e"
    and pv: "disk_prev bm v ?ek = (?nx ^^ ((k + n - 1) mod n)) e"
    and st: "disk_step bm v ?ek \<noteq> None"
    by (simp_all add: disk_cycle_def)
  have nxt: "?nx ?ek = (?nx ^^ ((k + 1) mod n)) e"
  proof (cases "k + 1 = n")
    case True
    then have "?nx ?ek = (?nx ^^ n) e" by (metis Suc_eq_plus1 funpow.simps(2) o_apply)
    with cl True show ?thesis by simp
  next
    case False
    with k have "(k + 1) mod n = Suc k" by simp
    then show ?thesis by simp
  qed
  have idx: "(k + n - 1) mod n < n" "(k + 1) mod n < n" using n by simp_all
  have far: "BM_edge_other_vert (bm_edges bm x) v = Some w
             \<Longrightarrow> v_co (bm_verts bm w) = edge_far_co bm v x" for x w
    by (auto simp add: BM_edge_other_vert_def edge_far_co_def split: if_splits)
  have ring: "disk_ring bm v e n ! j = edge_far_co bm v ((?nx ^^ j) e)" if "j < n" for j
    using that by (simp add: disk_ring_def)
  have len: "length (disk_ring bm v e n) = n" by (simp add: disk_ring_def)
  from st obtain x en where s: "disk_step bm v ?ek = Some (x, en)"
    by (cases "disk_step bm v ?ek") auto
  have en: "en = ?nx ?ek" using s by (rule disk_step_next)
  from s obtain w1 w2 w3 where
    o: "BM_edge_other_vert (bm_edges bm (disk_prev bm v ?ek)) v = Some w1"
       "BM_edge_other_vert (bm_edges bm ?ek) v = Some w2"
       "BM_edge_other_vert (bm_edges bm (?nx ?ek)) v = Some w3"
    and x: "x = edge_cotangents (v_co (bm_verts bm v)) (v_co (bm_verts bm w1))
                  (v_co (bm_verts bm w2)) (v_co (bm_verts bm w3))"
    by (auto simp add: disk_step_def disk_prev_def disk_next_def Let_def split: option.splits)
  have "x = ring_entry (v_co (bm_verts bm v)) (disk_ring bm v e n) k"
    using far [OF o(1)] far [OF o(2)] far [OF o(3)] idx k
    by (simp add: x ring_entry_def len ring pv nxt)
  with s en show ?thesis by simp
qed

lemma disk_walk_entries:
  assumes c: "disk_cycle bm v e n"
  shows "m < n \<Longrightarrow>
         disk_walk bm v e ((disk_next bm v ^^ (n - 1 - m)) e) acc
         = Some (acc @ map (ring_entry (v_co (bm_verts bm v)) (disk_ring bm v e n))
                         [n - 1 - m..<n])"
proof (induction m arbitrary: acc)
  case 0
  let ?f = "ring_entry (v_co (bm_verts bm v)) (disk_ring bm v e n)"
  let ?e = "(disk_next bm v ^^ (n - 1 - 0)) e"
  from c have n: "0 < n" and cl: "(disk_next bm v ^^ n) e = e" by (simp_all add: disk_cycle_def)
  from n have k: "n - 1 - 0 < n" "Suc (n - 1 - 0) = n" by simp_all
  have u: "[n - 1 - 0..<n] = [n - 1 - 0]" using n by (simp add: upt_rec)
  from disk_step_entry [OF c k(1)]
  have s: "disk_step bm v ?e = Some (?f (n - 1 - 0), e)"
    unfolding k(2) cl .
  have "disk_walk bm v e ?e acc
        = Option.bind (disk_step bm v ?e)
            (\<lambda>(x, enext). if enext \<noteq> e then disk_walk bm v e enext (acc @ [x])
                           else Some (acc @ [x]))"
    by (rule disk_walk.simps)
  also have "\<dots> = Some (acc @ [?f (n - 1 - 0)])"
    by (simp only: s bind.bind_lunit prod.case) simp
  also have "\<dots> = Some (acc @ map ?f [n - 1 - 0..<n])"
    by (simp only: u list.map)
  finally show ?case .
next
  case (Suc m)
  let ?f = "ring_entry (v_co (bm_verts bm v)) (disk_ring bm v e n)"
  let ?k = "n - 1 - Suc m"
  let ?e = "(disk_next bm v ^^ ?k) e"
  let ?en = "(disk_next bm v ^^ (n - 1 - m)) e"
  from Suc.prems have k: "?k < n" "Suc ?k = n - 1 - m" "0 < Suc ?k" "Suc ?k < n" by simp_all
  from c k(3,4) have "(disk_next bm v ^^ Suc ?k) e \<noteq> e"
    unfolding disk_cycle_def by blast
  then have ne: "?en \<noteq> e" unfolding k(2) .
  from Suc.prems have m: "m < n" by simp
  have u: "[?k..<n] = ?k # [n - 1 - m..<n]"
    using k(1) k(2) upt_conv_Cons [of ?k n] by simp
  from disk_step_entry [OF c k(1)]
  have s: "disk_step bm v ?e = Some (?f ?k, ?en)"
    unfolding k(2) .
  have "disk_walk bm v e ?e acc
        = Option.bind (disk_step bm v ?e)
            (\<lambda>(x, enext). if enext \<noteq> e then disk_walk bm v e enext (acc @ [x])
                           else Some (acc @ [x]))"
    by (rule disk_walk.simps)
  also have "\<dots> = disk_walk bm v e ?en (acc @ [?f ?k])"
    using ne by (simp only: s bind.bind_lunit prod.case) simp
  also have "\<dots> = Some ((acc @ [?f ?k]) @ map ?f [n - 1 - m..<n])"
    by (rule Suc.IH [OF m])
  also have "\<dots> = Some (acc @ map ?f [?k..<n])"
    by (simp only: u list.map append_assoc append_Cons append_Nil)
  finally show ?case .
qed

lemma dyntopo_entries:
  assumes "v_e (bm_verts (ss_bm (snd (SCULPT_dyntopo_check_disk_sort D srt dss v))) v) = Some e"
    and "disk_cycle (ss_bm (snd (SCULPT_dyntopo_check_disk_sort D srt dss v))) v e n"
  shows "map_option snd (SCULPT_dyntopo_get_cotangents D srt dss v)
         = Some (Some (finish_cotangents
              (map (ring_entry
                      (v_co (bm_verts (ss_bm (snd (SCULPT_dyntopo_check_disk_sort D srt dss v))) v))
                      (disk_ring (ss_bm (snd (SCULPT_dyntopo_check_disk_sort D srt dss v))) v e n))
                 [0..<n])))"
proof -
  let ?bm = "ss_bm (snd (SCULPT_dyntopo_check_disk_sort D srt dss v))"
  from assms(2) have n: "0 < n" by (simp add: disk_cycle_def)
  then have "n - 1 < n" by simp
  from disk_walk_entries [OF assms(2) this, of "[]"]
  have "disk_walk ?bm v e e []
        = Some (map (ring_entry (v_co (bm_verts ?bm v)) (disk_ring ?bm v e n)) [0..<n])"
    by simp
  then show ?thesis
    using assms(1) by (simp add: SCULPT_dyntopo_get_cotangents_def Let_def)
qed

text \<open>
  Claim C1, as amended.  Both variants of the cotangent-weight query return the weights of
  the specification for the ring of neighbours of the vertex: the weight of an edge is
  the sum of the two cotangent weights at the corners opposite the edge, at the
  neighbours before and after it in the ring, divided by twice the total mixed Voronoi
  area, the sum of \<open>tri_voronoi_area\<close> over the wedges around the vertex; and the total
  area returned is that sum.  So, when the total area is not zero, the sum of the
  returned weights times twice the total area equals the sum of all those cotangent
  weights; the weights sum to 1 only where twice the total area happens to equal that
  sum.  The static-mesh variant takes the ring from \<open>ss->vemap\<close>; the
  boundary-representation variant returns its weights, one per edge, whenever the disk
  cycle of the vertex is well formed, and takes the ring from the disk cycle.
\<close>

theorem cotangent_weights_normalization:
  "(let v = mvert ss vertex;
        ps = static_ring ss vertex;
        R = SCULPT_faces_get_cotangents ss vertex
    in r_ws R = map (ring_weight v ps) [0..<length ps]
       \<and> r_totarea R = ring_totarea v ps
       \<and> (ring_totarea v ps \<noteq> 0 \<longrightarrow>
            sum_list (r_ws R) * (2 * ring_totarea v ps)
            = sum_list (map (ring_cot_sum v ps) [0..<length ps])))
   \<and> (\<forall>e n. v_e (bm_verts (ss_bm (snd (SCULPT_dyntopo_check_disk_sort D srt dss hub))) hub) = Some e
            \<and> disk_cycle (ss_bm (snd (SCULPT_dyntopo_check_disk_sort D srt dss hub))) hub e n \<longrightarrow>
      (let bm = ss_bm (snd (SCULPT_dyntopo_check_disk_sort D srt dss hub));
           v = v_co (bm_verts bm hub);
           ps = disk_ring bm hub e n
       in \<exists>R. map_option snd (SCULPT_dyntopo_get_cotangents D srt dss hub) = Some (Some R)
              \<and> length ps = n
              \<and> r_ws R = map (ring_weight v ps) [0..<length ps]
              \<and> r_totarea R = ring_totarea v ps
              \<and> (ring_totarea v ps \<noteq> 0 \<longrightarrow>
                   sum_list (r_ws R) * (2 * ring_totarea v ps)
                   = sum_list (map (ring_cot_sum v ps) [0..<length ps]))))"
proof (intro conjI allI impI)
  show "let v = mvert ss vertex;
        ps = static_ring ss vertex;
        R = SCULPT_faces_get_cotangents ss vertex
    in r_ws R = map (ring_weight v ps) [0..<length ps]
       \<and> r_totarea R = ring_totarea v ps
       \<and> (ring_totarea v ps \<noteq> 0 \<longrightarrow>
            sum_list (r_ws R) * (2 * ring_totarea v ps)
            = sum_list (map (ring_cot_sum v ps) [0..<length ps]))"
    using finish_ring [of "mvert ss vertex" "static_ring ss vertex"]
          ring_weight_sum [of "mvert ss vertex" "static_ring ss vertex"]
    by (simp add: Let_def faces_entries)
next
  fix e n
  let ?bm = "ss_bm (snd (SCULPT_dyntopo_check_disk_sort D srt dss hub))"
  assume a: "v_e (bm_verts ?bm hub) = Some e \<and> disk_cycle ?bm hub e n"
  have len: "length (disk_ring ?bm hub e n) = n" by (simp add: disk_ring_def)
  from a dyntopo_entries [of D srt dss hub e n]
  have r: "map_option snd (SCULPT_dyntopo_get_cotangents D srt dss hub)
        = Some (Some (finish_cotangents
              (map (ring_entry (v_co (bm_verts ?bm hub)) (disk_ring ?bm hub e n))
                 [0..<length (disk_ring ?bm hub e n)])))"
    by (simp add: len)
  show "let bm = ?bm; v = v_co (bm_verts bm hub); ps = disk_ring bm hub e n
       in \<exists>R. map_option snd (SCULPT_dyntopo_get_cotangents D srt dss hub) = Some (Some R)
              \<and> length ps = n
              \<and> r_ws R = map (ring_weight v ps) [0..<length ps]
              \<and> r_totarea R = ring_totarea v ps
              \<and> (ring_totarea v ps \<noteq> 0 \<longrightarrow>
                   sum_list (r_ws R) * (2 * ring_totarea v ps)
                   = sum_list (map (ring_cot_sum v ps) [0..<length ps]))"
    unfolding Let_def
    using finish_ring [of "v_co (bm_verts ?bm hub)" "disk_ring ?bm hub e n"]
          ring_weight_sum [of "v_co (bm_verts ?bm hub)" "disk_ring ?bm hub e n"]
    by (intro exI [of _ "finish_cotangents
              (map (ring_entry (v_co (bm_verts ?bm hub)) (disk_ring ?bm hub e n))
                 [0..<length (disk_ring ?bm hub e n)])"]) (simp add: r len)
qed


lemma fan_next: "(disk_next fan_bm 0 ^^ k) 0 = k mod 4"
  by (induction k) (simp_all add: disk_next_def fan_bm_def mod_Suc)

lemma fan_disk_cycle: "disk_cycle fan_bm 0 0 4"
proof -
  have p: "disk_prev fan_bm 0 k = (3 + k) mod 4" for k
    by (simp add: disk_prev_def fan_bm_def add.commute)
  have s: "disk_step fan_bm 0 k \<noteq> None" for k
    by (simp add: disk_step_def fan_bm_def BM_edge_other_vert_def edge_cotangents_def Let_def)
  show ?thesis
    by (simp add: disk_cycle_def fan_next p s)
qed

lemma fan_rings:
  "static_ring fan_static 0 = [(1, 0, 0), (0, 1, 0), (- 1, 0, 0), (0, - 1, 0)]"
  "disk_ring fan_bm 0 0 4 = [(1, 0, 0), (0, 1, 0), (- 1, 0, 0), (0, - 1, 0)]"
  "mvert fan_static 0 = (0, 0, 2)"
  "v_co (bm_verts fan_bm 0) = (0, 0, 2)"
proof -
  show "static_ring fan_static 0 = [(1, 0, 0), (0, 1, 0), (- 1, 0, 0), (0, - 1, 0)]"
    by (simp add: static_ring_def fan_static_def medge_other_vert_def fan_co_def)
  have "[0..<4] = [0, 1, 2, 3 :: nat]" by (simp add: upt_rec)
  then show "disk_ring fan_bm 0 0 4 = [(1, 0, 0), (0, 1, 0), (- 1, 0, 0), (0, - 1, 0)]"
    by (simp add: disk_ring_def fan_next edge_far_co_def) (simp add: fan_bm_def fan_co_def)
  show "mvert fan_static 0 = (0, 0, 2)" by (simp add: fan_static_def fan_co_def)
  show "v_co (bm_verts fan_bm 0) = (0, 0, 2)" by (simp add: fan_bm_def fan_co_def)
qed

lemma fan_ring_values:
  "ring_totarea (0, 0, 2) [(1, 0, 0), (0, 1, 0), (- 1, 0, 0), (0, - 1, 0)] = 5 / 3"
  "map (ring_cot_sum (0, 0, 2) [(1, 0, 0), (0, 1, 0), (- 1, 0, 0), (0, - 1, 0)]) [0..<4]
   = [2 / 3, 2 / 3, 2 / 3, 2 / 3]"
proof -
  have u: "[0..<4] = [0, 1, 2, 3 :: nat]" by (simp add: upt_rec)
  show "ring_totarea (0, 0, 2) [(1, 0, 0), (0, 1, 0), (- 1, 0, 0), (0, - 1, 0)] = 5 / 3"
    by (simp add: ring_totarea_def ring_area_def u tri_voronoi_area_dot
          cotangent_tri_weight_v3_def len_v3_def FLT_EPSILON_def sqrt_9 Let_def)
  show "map (ring_cot_sum (0, 0, 2) [(1, 0, 0), (0, 1, 0), (- 1, 0, 0), (0, - 1, 0)]) [0..<4]
        = [2 / 3, 2 / 3, 2 / 3, 2 / 3]"
    by (simp add: ring_cot_sum_def u cotangent_tri_weight_v3_def len_v3_def FLT_EPSILON_def
          sqrt_9 Let_def)
qed

theorem cotangent_weights_normalization_witness:
  "ring_totarea (mvert fan_static 0) (static_ring fan_static 0) = 5 / 3
   \<and> r_ws (SCULPT_faces_get_cotangents fan_static 0)
       = map (ring_weight (mvert fan_static 0) (static_ring fan_static 0)) [0..<4]
   \<and> sum_list (r_ws (SCULPT_faces_get_cotangents fan_static 0)) * (2 * (5 / 3)) = 8 / 3
   \<and> v_e (bm_verts fan_bm 0) = Some 0
   \<and> disk_cycle fan_bm 0 0 4
   \<and> ring_totarea (v_co (bm_verts fan_bm 0)) (disk_ring fan_bm 0 0 4) = 5 / 3
   \<and> (\<exists>R. map_option snd (SCULPT_dyntopo_get_cotangents (32 :: 16 word) already_sorted fan_session 0)
              = Some (Some R)
         \<and> r_ws R = map (ring_weight (v_co (bm_verts fan_bm 0)) (disk_ring fan_bm 0 0 4)) [0..<4]
         \<and> sum_list (r_ws R) * (2 * (5 / 3)) = 8 / 3)"
proof -
  have s: "ss_bm (snd (SCULPT_dyntopo_check_disk_sort (32 :: 16 word) already_sorted fan_session 0))
           = fan_bm"
    by (simp add: SCULPT_dyntopo_check_disk_sort_def already_sorted_def fan_session_def Let_def)
  have c: "v_e (bm_verts fan_bm 0) = Some 0" "disk_cycle fan_bm 0 0 4"
    by (simp add: fan_bm_def) (rule fan_disk_cycle)
  have l: "length (static_ring fan_static 0) = 4" "length (disk_ring fan_bm 0 0 4) = 4"
    by (simp_all add: fan_rings)
  note T = cotangent_weights_normalization
            [where ss = fan_static and vertex = 0 and D = "32 :: 16 word" and srt = already_sorted
               and dss = fan_session and hub = 0, unfolded s Let_def]
  note v = fan_rings fan_ring_values
  note A = T [THEN conjunct1, unfolded l, unfolded v]
  note B = T [THEN conjunct2, rule_format, where e = 0 and n = 4, OF conjI [OF c(1) c(2)],
              unfolded l, unfolded v]
  show ?thesis
    unfolding v using A B c by auto
qed

lemmas cot_eval =
  finish_cotangents_def edge_cotangents_def tri_voronoi_area_dot cotangent_tri_weight_v3_def
  area_tri_v3_def len_v3_def FLT_EPSILON_def fan_co_def sqrt_9 Let_def

lemma fan_static_result:
  "SCULPT_faces_get_cotangents fan_static 0
   = \<lparr>r_ws = [1 / 5, 1 / 5, 1 / 5, 1 / 5], r_cot1 = [1 / 3, 1 / 3, 1 / 3, 1 / 3],
      r_cot2 = [1 / 3, 1 / 3, 1 / 3, 1 / 3], r_area = [5 / 12, 5 / 12, 5 / 12, 5 / 12],
      r_totarea = 5 / 3\<rparr>"
  by (simp add: SCULPT_faces_get_cotangents_def medge_other_vert_def fan_static_def upt_rec
        cot_eval cong: eval_cong)

lemma fan_session_result:
  "map_option snd (SCULPT_dyntopo_get_cotangents (32 :: 16 word) already_sorted fan_session 0)
   = Some (Some \<lparr>r_ws = [1 / 5, 1 / 5, 1 / 5, 1 / 5], r_cot1 = [1 / 3, 1 / 3, 1 / 3, 1 / 3],
      r_cot2 = [1 / 3, 1 / 3, 1 / 3, 1 / 3], r_area = [5 / 12, 5 / 12, 5 / 12, 5 / 12],
      r_totarea = 5 / 3\<rparr>)"
  by (simp add: SCULPT_dyntopo_get_cotangents_def SCULPT_dyntopo_check_disk_sort_def
        already_sorted_def fan_session_def fan_bm_def disk_walk.simps disk_step_def
        BM_edge_other_vert_def cot_eval cong: eval_cong)

text \<open>
  Claim C1 as stated fails: around the apex \<open>(0, 0, 2)\<close> of the fan with the four
  neighbours \<open>(\<plusminus>1, 0, 0)\<close> and \<open>(0, \<plusminus>1, 0)\<close>, all angles are acute, the total area is
  \<open>5/3\<close>, and both variants return four weights of \<open>1/5\<close>, which sum to \<open>4/5\<close>.
\<close>

theorem cotangent_weights_sum_counterexample:
  "length (vemap fan_static 0) = 4
   \<and> r_totarea (SCULPT_faces_get_cotangents fan_static 0) = 5 / 3
   \<and> sum_list (r_ws (SCULPT_faces_get_cotangents fan_static 0)) = 4 / 5
   \<and> map_option (map_option (\<lambda>R. (r_totarea R, sum_list (r_ws R))) \<circ> snd)
         (SCULPT_dyntopo_get_cotangents (32 :: 16 word) already_sorted fan_session 0)
       = Some (Some (5 / 3, 4 / 5))"
proof -
  have "map_option (map_option (\<lambda>R. (r_totarea R, sum_list (r_ws R))) \<circ> snd)
          (SCULPT_dyntopo_get_cotangents (32 :: 16 word) already_sorted fan_session 0)
        = map_option (map_option (\<lambda>R. (r_totarea R, sum_list (r_ws R))))
            (map_option snd
               (SCULPT_dyntopo_get_cotangents (32 :: 16 word) already_sorted fan_session 0))"
    by (simp add: option.map_comp)
  then show ?thesis
    by (simp add: fan_session_result fan_static_result) (simp add: fan_static_def)
qed

end
